(* ===== verification/Prelude.thy ===== *)
theory Prelude
  imports Main "HOL-Library.Word" "HOL-Library.Monad_Syntax" "HOL-Library.Log_Nat"
begin

text \<open>
  Shared vocabulary of the development: C buffers and C++ strings as lists of bytes
  (\<open>char\<close> is the 8-bit type of HOL), the searches of \<open>std::string\<close>, the byte
  constants the code compares with, and the lists of nonempty, newline-terminated lines that
  the g-code buffer is specified with.

  A value of type \<open>'a option\<close> returned by a modelled operation is its outcome:
  \<open>None\<close> stands for undefined behaviour of the C or C++ code (a read outside a buffer,
  a null pointer dereference), \<open>Some r\<close> for a normal return. Errors the code reports
  itself are values of a sum or of a result code.
\<close>

named_theorems ipc_simps \<open>facts on the IPC wire format\<close>
named_theorems line_simps \<open>facts on newline-terminated lines\<close>

type_synonym bytes = string

abbreviation NL :: char where "NL \<equiv> CHR 0x0A"
abbreviation CR :: char where "CR \<equiv> CHR 0x0D"
abbreviation NUL :: char where "NUL \<equiv> CHR 0x00"

lemma case_Inr_Some:
  "(case r of Inl e \<Rightarrow> None | Inr v \<Rightarrow> f v) = Some z \<longleftrightarrow> (\<exists>v. r = Inr v \<and> f v = Some z)"
  by (cases r) auto

lemma case_Inl_Some:
  "(case r of Inl e \<Rightarrow> Some (Inl e) | Inr v \<Rightarrow> f v) = Some (Inr z) \<longleftrightarrow>
     (\<exists>v. r = Inr v \<and> f v = Some (Inr z))"
  by (cases r) auto

text \<open>A fold that stops where a step is undefined.\<close>

fun fold_option :: "('s \<Rightarrow> 'a \<Rightarrow> 's option) \<Rightarrow> 's \<Rightarrow> 'a list \<Rightarrow> 's option" where
  "fold_option f s [] = Some s"
| "fold_option f s (x # xs) = Option.bind (f s x) (\<lambda>s'. fold_option f s' xs)"

lemma fold_option_append:
  "fold_option f s (xs @ ys) = Option.bind (fold_option f s xs) (\<lambda>s'. fold_option f s' ys)"
proof (induction xs arbitrary: s)
  case (Cons x xs)
  then show ?case by (cases "f s x") simp_all
qed simp

section \<open>C strings\<close>

text \<open>The characters of a NUL-terminated string that starts at the first byte.\<close>

definition cstr :: "bytes \<Rightarrow> string" where
  "cstr b = takeWhile (\<lambda>c. c \<noteq> NUL) b"

lemma cstr_no_NUL: "NUL \<notin> set s \<Longrightarrow> cstr s = s"
  by (auto simp: cstr_def takeWhile_eq_all_conv)

lemma cstr_terminated: "NUL \<notin> set s \<Longrightarrow> cstr (s @ NUL # r) = s"
  unfolding cstr_def by (induction s) auto

lemma NUL_notin_cstr [simp]: "NUL \<notin> set (cstr b)"
  by (auto simp: cstr_def dest: set_takeWhileD)

lemma cstr_idem [simp]: "cstr (cstr b) = cstr b"
  by (simp add: cstr_no_NUL)

section \<open>Searching, as in std::string\<close>

fun index_of :: "('a \<Rightarrow> bool) \<Rightarrow> 'a list \<Rightarrow> nat option" where
  "index_of P [] = None"
| "index_of P (x # xs) = (if P x then Some 0 else map_option Suc (index_of P xs))"

lemma index_of_None: "index_of P xs = None \<longleftrightarrow> (\<forall>x \<in> set xs. \<not> P x)"
  by (induction xs) auto

lemma index_of_Some:
  "index_of P xs = Some i \<Longrightarrow> i < length xs \<and> P (xs ! i) \<and> (\<forall>j<i. \<not> P (xs ! j))"
proof (induction xs arbitrary: i)
  case Nil
  then show ?case by simp
next
  case (Cons x xs)
  show ?case
  proof (cases "P x")
    case True
    with Cons.prems show ?thesis by simp
  next
    case False
    with Cons.prems obtain k where k: "index_of P xs = Some k" "i = Suc k" by auto
    from Cons.IH [OF k(1)] show ?thesis
      using False k(2) by (auto simp: less_Suc_eq_0_disj)
  qed
qed

lemma index_of_append:
  "\<forall>x \<in> set u. \<not> P x \<Longrightarrow> index_of P (u @ v) = map_option ((+) (length u)) (index_of P v)"
  by (induction u) (cases "index_of P v"; simp)+

lemma nth_in_set_drop: "p \<le> i \<Longrightarrow> i < length xs \<Longrightarrow> xs ! i \<in> set (drop p xs)"
  using nth_mem [of "i - p" "drop p xs"] by simp

text \<open>\<open>s.find(c, p)\<close>: the first position at or after \<open>p\<close>.\<close>

definition find_char :: "char \<Rightarrow> string \<Rightarrow> nat \<Rightarrow> nat option" where
  "find_char c s p = map_option ((+) p) (index_of ((=) c) (drop p s))"

lemma find_char_None:
  "find_char c s p = None \<longleftrightarrow> c \<notin> set (drop p s)"
  by (auto simp: find_char_def index_of_None)

lemma find_char_Some:
  assumes "find_char c s p = Some i"
  shows "p \<le> i" "i < length s" "s ! i = c" "\<forall>j. p \<le> j \<and> j < i \<longrightarrow> s ! j \<noteq> c"
proof -
  from assms obtain k where k: "index_of ((=) c) (drop p s) = Some k" "i = p + k"
    by (auto simp: find_char_def)
  from index_of_Some [OF k(1)] have
    *: "k < length (drop p s)" "c = drop p s ! k" "\<forall>j<k. c \<noteq> drop p s ! j" by auto
  show "p \<le> i" using k by simp
  show "i < length s" using * k by simp
  show "s ! i = c" using * k by simp
  show "\<forall>j. p \<le> j \<and> j < i \<longrightarrow> s ! j \<noteq> c"
  proof (intro allI impI)
    fix j assume j: "p \<le> j \<and> j < i"
    then have "j - p < k" using k(2) by arith
    then have "c \<noteq> drop p s ! (j - p)" using *(3) by blast
    then show "s ! j \<noteq> c" using j *(1) k(2) by simp
  qed
qed

text \<open>\<open>s.find(sub, p)\<close> for a text to find.\<close>

fun find_prefix :: "string \<Rightarrow> string \<Rightarrow> nat option" where
  "find_prefix sub [] = (if sub = [] then Some 0 else None)"
| "find_prefix sub (x # xs) =
     (if take (length sub) (x # xs) = sub then Some 0 else map_option Suc (find_prefix sub xs))"

definition find_str :: "string \<Rightarrow> string \<Rightarrow> nat \<Rightarrow> nat option" where
  "find_str sub s p = (if p \<le> length s then map_option ((+) p) (find_prefix sub (drop p s)) else None)"

lemma find_prefix_Some:
  "find_prefix sub s = Some i \<Longrightarrow> i \<le> length s \<and> take (length sub) (drop i s) = sub"
  by (induction s arbitrary: i) (auto split: if_splits)

text \<open>\<open>s.rfind(sub)\<close>: the last occurrence.\<close>

fun rfind_prefix :: "string \<Rightarrow> string \<Rightarrow> nat option" where
  "rfind_prefix sub [] = (if sub = [] then Some 0 else None)"
| "rfind_prefix sub (x # xs) =
     (case rfind_prefix sub xs of
        Some i \<Rightarrow> Some (Suc i)
      | None \<Rightarrow> if take (length sub) (x # xs) = sub then Some 0 else None)"

section \<open>Newline-terminated lines\<close>

text \<open>The text that holds the given lines, each followed by a newline.\<close>

definition unlines :: "string list \<Rightarrow> string" where
  "unlines ls = concat (map (\<lambda>l. l @ [NL]) ls)"

text \<open>A line as the g-code buffer stores it: not empty and free of newlines.\<close>

definition is_line :: "string \<Rightarrow> bool" where
  "is_line l \<longleftrightarrow> l \<noteq> [] \<and> NL \<notin> set l"

text \<open>
  The nonempty lines of a text: what lies between newlines, the last line with or without
  its newline.
\<close>

fun lines_acc :: "string \<Rightarrow> string \<Rightarrow> string list" where
  "lines_acc acc [] = (if acc = [] then [] else [acc])"
| "lines_acc acc (c # cs) =
     (if c = NL then (if acc = [] then lines_acc [] cs else acc # lines_acc [] cs)
      else lines_acc (acc @ [c]) cs)"

definition text_lines :: "string \<Rightarrow> string list" where
  "text_lines s = lines_acc [] s"

lemma unlines_Nil [simp, line_simps]: "unlines [] = []"
  by (simp add: unlines_def)

lemma unlines_Cons [simp, line_simps]: "unlines (l # ls) = l @ NL # unlines ls"
  by (simp add: unlines_def)

lemma unlines_append [simp, line_simps]: "unlines (ls @ ms) = unlines ls @ unlines ms"
  by (simp add: unlines_def)

lemma unlines_eq_Nil [simp, line_simps]: "unlines ls = [] \<longleftrightarrow> ls = []"
  by (cases ls) auto

lemma last_unlines: "ls \<noteq> [] \<Longrightarrow> last (unlines ls) = NL"
  by (induction ls) auto

lemma hd_unlines: "ls \<noteq> [] \<Longrightarrow> is_line (hd ls) \<Longrightarrow> hd (unlines ls) \<noteq> NL"
  by (cases ls) (auto simp: is_line_def neq_Nil_conv)

lemma lines_acc_line:
  "NL \<notin> set l \<Longrightarrow> lines_acc acc (l @ NL # r) =
     (if acc @ l = [] then lines_acc [] r else (acc @ l) # lines_acc [] r)"
  by (induction l arbitrary: acc) auto

lemma text_lines_unlines:
  "\<forall>l \<in> set ls. is_line l \<Longrightarrow> text_lines (unlines ls @ r) = ls @ text_lines r"
  unfolding text_lines_def
  by (induction ls) (auto simp: lines_acc_line is_line_def)

lemma lines_acc_is_line:
  "NL \<notin> set acc \<Longrightarrow> \<forall>l \<in> set (lines_acc acc s). is_line l"
proof (induction s arbitrary: acc)
  case Nil
  then show ?case by (simp add: is_line_def)
next
  case (Cons c cs)
  show ?case
  proof (cases "c = NL")
    case True
    with Cons.IH [of "[]"] Cons.prems show ?thesis by (simp add: is_line_def)
  next
    case False
    with Cons.IH [of "acc @ [c]"] Cons.prems show ?thesis by simp
  qed
qed

lemma text_lines_is_line [simp]: "l \<in> set (text_lines s) \<Longrightarrow> is_line l"
  using lines_acc_is_line [of "[]" s] by (auto simp: text_lines_def)

lemma lines_acc_append_NL:
  "lines_acc acc (s @ NL # t) = lines_acc acc (s @ [NL]) @ lines_acc [] t"
  by (induction s arbitrary: acc) simp_all

lemma text_lines_append:
  "s = [] \<or> last s = NL \<Longrightarrow> text_lines (s @ t) = text_lines s @ text_lines t"
proof (cases s rule: rev_cases)
  case Nil
  then show ?thesis by (simp add: text_lines_def)
next
  case (snoc u c)
  assume "s = [] \<or> last s = NL"
  with snoc have "s = u @ [NL]" by simp
  then show ?thesis
    using lines_acc_append_NL [of "[]" u t] by (simp add: text_lines_def)
qed

lemma text_lines_single: "is_line l \<Longrightarrow> text_lines l = [l]"
proof -
  have "NL \<notin> set l \<Longrightarrow> lines_acc acc l = (if acc @ l = [] then [] else [acc @ l])" for acc
    by (induction l arbitrary: acc) auto
  then show "is_line l \<Longrightarrow> text_lines l = [l]" by (simp add: text_lines_def is_line_def)
qed

lemma text_lines_Nil [simp]: "text_lines [] = []"
  by (simp add: text_lines_def)

lemma count_NL_unlines:
  "\<forall>l \<in> set ls. is_line l \<Longrightarrow> count_list (unlines ls) NL = length ls"
  by (induction ls) (auto simp: is_line_def count_list_append count_list_0_iff)

lemma find_char_unlines:
  assumes "is_line l"
  shows "index_of ((=) NL) (l @ NL # r) = Some (length l)"
proof -
  have "\<forall>x \<in> set l. \<not> NL = x" using assms by (auto simp: is_line_def)
  from index_of_append [OF this, of "NL # r"] show ?thesis by simp
qed

section \<open>Interleavings\<close>

lemma shuffles_append:
  assumes "a \<in> shuffles xs ps" "b \<in> shuffles ys qs"
  shows "a @ b \<in> shuffles (xs @ ys) (ps @ qs)"
  using assms(1)
proof (induction a arbitrary: xs ps)
  case Nil
  then show ?case using assms(2) by simp
next
  case (Cons z a)
  then consider xs' where "xs = z # xs'" "a \<in> shuffles xs' ps" | ps' where "ps = z # ps'" "a \<in> shuffles xs ps'"
    by (auto simp: Cons_in_shuffles_iff neq_Nil_conv simp del: shuffles.simps)
  then show ?case
  proof cases
    case 1
    then show ?thesis using Cons_in_shuffles_leftI [OF Cons.IH [of xs' ps], of z] by simp
  next
    case 2
    then show ?thesis using Cons_in_shuffles_rightI [OF Cons.IH [of xs ps'], of z] by simp
  qed
qed

lemma append_in_shuffles: "ps @ xs \<in> shuffles xs ps"
  using shuffles_append [of ps "[]" ps xs xs "[]"] by simp

end
