(* ===== verification/Utils.thy ===== *)
theory Utils
  imports Prelude
begin

text \<open>
  The helpers of \<open>src/src/utils.c\<close>: decimal printing and its length, 16 and 32 bit
  values in network byte order, subtraction of \<open>timeval\<close>s, the read loop both the
  sockets and the serial port use, reading a file, and two string predicates.

  The operating system is data: \<open>read\<close> takes its results from a list of events, a
  file system is a function from paths to an \<open>errno\<close> or the contents of the file.
\<close>

section \<open>Decimal numbers\<close>

definition digit :: "nat \<Rightarrow> char" where
  "digit d = char_of (48 + d)"

fun dec :: "nat \<Rightarrow> string" where
  "dec n = (if n < 10 then [digit n] else dec (n div 10) @ [digit (n mod 10)])"

declare dec.simps [simp del]

text \<open>What \<open>printf("%i", n)\<close> prints.\<close>

definition itoa :: "int \<Rightarrow> string" where
  "itoa n = (if n < 0 then CHR ''-'' # dec (nat (- n)) else dec (nat n))"

text \<open>
  \<open>number_length\<close>: \<open>floor(log10(abs n)) + 1\<close> is the number of decimal digits,
  \<open>floorlog 10\<close>.
\<close>

definition number_length :: "int \<Rightarrow> nat" where
  "number_length n =
     (if n = 0 then 1 else (if n < 0 then 1 else 0) + floorlog 10 (nat \<bar>n\<bar>))"

text \<open>\<open>None\<close> is the NULL of a number that did not fit the buffer of its computed length.\<close>

definition number_to_string :: "int \<Rightarrow> string option" where
  "number_to_string n =
     (let buflen = number_length n + 1
      in if length (itoa n) < buflen then Some (itoa n) else None)"

lemma length_dec: "0 < n \<Longrightarrow> length (dec n) = floorlog 10 n"
proof (induction n rule: dec.induct)
  case (1 n)
  show ?case
  proof (cases "n < 10")
    case True
    with "1.prems" show ?thesis
      by (simp add: dec.simps [of n] compute_floorlog [of 10 n] floorlog_def)
  next
    case False
    then have "0 < n div 10" by (simp add: div_greater_zero_iff)
    with False "1.IH" have "length (dec (n div 10)) = floorlog 10 (n div 10)" by simp
    with False show ?thesis
      by (simp add: dec.simps [of n] compute_floorlog [of 10 n])
  qed
qed

lemma length_itoa: "length (itoa n) = number_length n"
proof -
  have "dec 0 = [digit 0]" by (simp add: dec.simps)
  then show ?thesis
    by (auto simp: itoa_def number_length_def length_dec)
qed

lemma number_to_string_eq: "number_to_string n = Some (itoa n)"
  by (simp add: number_to_string_def length_itoa)

lemma dec_chars: "c \<in> set (dec n) \<Longrightarrow> \<exists>d<10. c = digit d"
proof (induction n rule: dec.induct)
  case (1 n)
  then show ?case
    by (cases "n < 10") (auto simp: dec.simps [of n] intro: exI [of _ "n mod 10"])
qed

lemma digit_not_NUL: "d < 10 \<Longrightarrow> digit d \<noteq> NUL"
proof
  assume d: "d < 10" and e: "digit d = NUL"
  then have "of_char (digit d) = (of_char NUL :: nat)" by simp
  with d show False by (simp add: digit_def)
qed

lemma NUL_notin_itoa [simp]: "NUL \<notin> set (itoa n)"
  by (auto simp: itoa_def dest!: dec_chars) (metis digit_not_NUL)+

section \<open>Network byte order\<close>

text \<open>A read at the start of a buffer; \<open>None\<close> when it would run past its end.\<close>

definition read_ns :: "bytes \<Rightarrow> 16 word option" where
  "read_ns p = (case p of
      a # b # _ \<Rightarrow> Some (word_of_nat (of_char a * 256 + of_char b))
    | _ \<Rightarrow> None)"

definition read_nl :: "bytes \<Rightarrow> 32 word option" where
  "read_nl p = (case p of
      a # b # c # d # _ \<Rightarrow>
        Some (word_of_nat (((of_char a * 256 + of_char b) * 256 + of_char c) * 256 + of_char d))
    | _ \<Rightarrow> None)"

definition store_ns :: "16 word \<Rightarrow> bytes" where
  "store_ns v = [char_of (unat v div 256), char_of (unat v mod 256)]"

definition store_nl :: "32 word \<Rightarrow> bytes" where
  "store_nl v = [char_of (unat v div 256 ^ 3), char_of (unat v div 256 ^ 2 mod 256),
                 char_of (unat v div 256 mod 256), char_of (unat v mod 256)]"

lemma length_store_ns [simp]: "length (store_ns v) = 2"
  by (simp add: store_ns_def)

lemma length_store_nl [simp]: "length (store_nl v) = 4"
  by (simp add: store_nl_def)

lemma read_store_ns [simp, ipc_simps]: "read_ns (store_ns v @ r) = Some v"
proof -
  have "unat v < 65536" using unsigned_less [of v] by simp
  then have "unat v div 256 < 256" by (simp add: less_mult_imp_div_less)
  then have "(unat v div 256) mod 256 * 256 + unat v mod 256 = unat v"
    by (simp add: div_mult_mod_eq)
  then have "word_of_nat (of_char (char_of (unat v div 256) :: char) * 256
               + of_char (char_of (unat v mod 256) :: char)) = v"
    by (simp only: of_char_of mod_mod_trivial of_nat_unat ucast_id)
  then show ?thesis by (simp only: read_ns_def store_ns_def append_Cons list.case)
qed

lemma read_store_nl [simp, ipc_simps]: "read_nl (store_nl v @ r) = Some v"
proof -
  let ?n = "unat v"
  have "?n < 4294967296" using unsigned_less [of v] by simp
  then have 1: "?n div 256 ^ 3 mod 256 = ?n div 256 ^ 3" by (simp add: less_mult_imp_div_less)
  have 2: "?n div 256 ^ 3 = ?n div 256 ^ 2 div 256" "?n div 256 ^ 2 = ?n div 256 div 256"
    by (simp_all add: div_mult2_eq [symmetric])
  have "((?n div 256 ^ 3 * 256 + ?n div 256 ^ 2 mod 256) * 256 + ?n div 256 mod 256) * 256
          + ?n mod 256 = ?n"
    by (simp only: 2 div_mult_mod_eq)
  then have "word_of_nat (((of_char (char_of (?n div 256 ^ 3) :: char) * 256
       + of_char (char_of (?n div 256 ^ 2 mod 256) :: char)) * 256
       + of_char (char_of (?n div 256 mod 256) :: char)) * 256
       + of_char (char_of (?n mod 256) :: char)) = v"
    by (simp only: of_char_of mod_mod_trivial 1 of_nat_unat ucast_id)
  then show ?thesis by (simp only: read_nl_def store_nl_def append_Cons list.case)
qed

lemma read_ns_append:
  "read_ns p = Some v \<Longrightarrow> read_ns (p @ r) = Some v"
  by (auto simp: read_ns_def split: list.splits)

lemma read_ns_None: "read_ns p = None \<longleftrightarrow> length p < 2"
  by (auto simp: read_ns_def split: list.splits)

lemma read_nl_None: "read_nl p = None \<longleftrightarrow> length p < 4"
  by (auto simp: read_nl_def split: list.splits)

section \<open>Time\<close>

record timeval =
  tv_sec :: int
  tv_usec :: int

definition getMillis :: "timeval \<Rightarrow> 32 word" where
  "getMillis tv = word_of_int (tv_sec tv * 1000 + tv_usec tv div 1000)"

text \<open>
  \<open>timeval_subtract\<close> returns the difference and whether it is negative. The carry is
  moved into a changed \<open>y\<close>, as the code does; the divisions have positive operands.
\<close>

definition timeval_subtract :: "timeval \<Rightarrow> timeval \<Rightarrow> timeval \<times> bool" where
  "timeval_subtract x y =
     (let y1 = (if tv_usec x < tv_usec y
                then let nsec = (tv_usec y - tv_usec x) div 1000000 + 1
                     in y\<lparr>tv_usec := tv_usec y - 1000000 * nsec, tv_sec := tv_sec y + nsec\<rparr>
                else y);
          y2 = (if tv_usec x - tv_usec y1 > 1000000
                then let nsec = (tv_usec x - tv_usec y1) div 1000000
                     in y1\<lparr>tv_usec := tv_usec y1 + 1000000 * nsec, tv_sec := tv_sec y1 - nsec\<rparr>
                else y1)
      in (\<lparr>tv_sec = tv_sec x - tv_sec y2, tv_usec = tv_usec x - tv_usec y2\<rparr>,
          tv_sec x < tv_sec y2))"

definition usecs :: "timeval \<Rightarrow> int" where
  "usecs t = tv_sec t * 1000000 + tv_usec t"

section \<open>Reading all available data\<close>

text \<open>
  One result of \<open>read(2)\<close> on a non-blocking descriptor: bytes (a call returns at most the
  \<open>READ_BUF_SIZE\<close> bytes asked for, the rest stays), \<open>EAGAIN\<close> with the answer of
  the \<open>poll\<close> that may follow, \<open>EINTR\<close>, another error, or the end of the stream. When
  the list is used up there is nothing to read any more.
\<close>

datatype read_ev = RdData bytes | RdBlock bool | RdIntr | RdErr int | RdEOF

definition READ_BUF_SIZE :: nat where
  "READ_BUF_SIZE = 1024"

fun ev_size :: "read_ev \<Rightarrow> nat" where
  "ev_size (RdData d) = Suc (length d)"
| "ev_size _ = 1"

text \<open>The loop; its result is the return value, the buffer, \<open>errno\<close> and the events left.\<close>

function read_loop :: "bool \<Rightarrow> bool \<Rightarrow> int \<Rightarrow> bytes \<Rightarrow> read_ev list \<Rightarrow> int \<times> bytes \<times> int \<times> read_ev list"
where
  "read_loop wait once tot buf [] = (tot, buf, 0, [])"
| "read_loop wait once tot buf (RdBlock pollin # es) =
     (if wait \<and> pollin then read_loop wait once tot buf es else (tot, buf, 0, es))"
| "read_loop wait once tot buf (RdIntr # es) = read_loop wait once tot buf es"
| "read_loop wait once tot buf (RdErr e # es) = (-1, buf, e, es)"
| "read_loop wait once tot buf (RdEOF # es) = (-2, buf, 0, es)"
| "read_loop wait once tot buf (RdData d # es) =
     (let got = take READ_BUF_SIZE d; rest = drop READ_BUF_SIZE d;
          es' = (if rest = [] then es else RdData rest # es)
      in if got = [] then (-2, buf, 0, es)
         else let tot' = tot + int (length got); buf' = buf @ got
              in if once then (tot', buf', 0, es')
                 else read_loop wait once tot' buf' es')"
  by pat_completeness auto
termination
  by (relation "measure (\<lambda>(w, n, t, b, es). sum_list (map ev_size es))")
     (auto simp: READ_BUF_SIZE_def)

definition readAndAppendAvailableData ::
  "read_ev list \<Rightarrow> bytes \<Rightarrow> int \<Rightarrow> bool \<Rightarrow> int \<times> bytes \<times> int \<times> read_ev list" where
  "readAndAppendAvailableData es buf timeout onlyOnce = read_loop (0 < timeout) onlyOnce 0 buf es"

lemma read_loop_appends:
  "read_loop w n t b es = (rv, b', e, es') \<Longrightarrow>
     \<exists>new. b' = b @ new \<and> (0 \<le> rv \<longrightarrow> 0 \<le> t \<longrightarrow> rv = t + int (length new))"
proof (induction w n t b es rule: read_loop.induct)
  case (6 w n t b d es)
  let ?got = "take READ_BUF_SIZE d" and ?rest = "drop READ_BUF_SIZE d"
  let ?es = "if ?rest = [] then es else RdData ?rest # es"
  consider "?got = []" | "?got \<noteq> []" "n" | "?got \<noteq> []" "\<not> n" by blast
  then show ?case
  proof cases
    case 1
    with "6.prems" show ?thesis by (auto simp: Let_def)
  next
    case 2
    with "6.prems" show ?thesis by (auto simp: Let_def)
  next
    case 3
    with "6.prems" have "read_loop w n (t + int (length ?got)) (b @ ?got) ?es = (rv, b', e, es')"
      by (auto simp: Let_def)
    from "6.IH" [OF refl refl refl 3(1) refl refl 3(2) this]
    obtain new where "b' = (b @ ?got) @ new"
      "0 \<le> rv \<longrightarrow> 0 \<le> t + int (length ?got) \<longrightarrow> rv = t + int (length ?got) + int (length new)"
      by blast
    then have "b' = b @ (?got @ new) \<and>
        (0 \<le> rv \<longrightarrow> 0 \<le> t \<longrightarrow> rv = t + int (length (?got @ new)))"
      by auto
    then show ?thesis by blast
  qed
qed (auto split: if_splits)

section \<open>Files and strings\<close>

text \<open>
  \<open>Inl e\<close> is a NULL return with \<open>errno\<close> set to \<open>e\<close>. An empty file makes
  \<open>fread\<close> return 0, so it is reported as a failure with \<open>errno\<close> 0.
\<close>

definition readFileContents :: "(string \<Rightarrow> int + bytes) \<Rightarrow> string \<Rightarrow> int + bytes" where
  "readFileContents fs file =
     (case fs file of
        Inl e \<Rightarrow> Inl e
      | Inr text \<Rightarrow> if text = [] then Inl 0 else Inr text)"

definition equal_str :: "string option \<Rightarrow> string option \<Rightarrow> bool" where
  "equal_str s1 s2 = (case (s1, s2) of (Some a, Some b) \<Rightarrow> a = b | _ \<Rightarrow> False)"

definition isAbsolutePath :: "string \<Rightarrow> bool" where
  "isAbsolutePath path = (case path of [] \<Rightarrow> False | c # _ \<Rightarrow> c = CHR ''/'')"

end
