(* ===== verification/IpcShared.thy ===== *)
theory IpcShared
  imports Utils
begin

text \<open>
  The message format between the front-ends and the print server
  (\<open>src/src/ipc_shared.c\<close>, \<open>src/src/ipc_shared.h\<close>): the command table, building a
  command, finding the end of the first complete command of a buffer, taking its arguments
  out, removing it, and printing it for the log; and the search for printer devices.

  A buffer is the list of its bytes. A read past its end is undefined behaviour, \<open>None\<close>.
  \<open>realloc\<close> and \<open>malloc\<close> are a parameter \<open>al\<close> that says which sizes can be
  had: some C libraries return NULL for 0 bytes, which is a failure to the callers here.
\<close>

type_synonym allocator = "nat \<Rightarrow> bool"

section \<open>Commands\<close>

datatype IPC_COMMAND_CODE =
    IPC_CMDS_INVALID | IPC_CMDS_NONE
  | IPC_CMDQ_TEST | IPC_CMDQ_GET_TEMPERATURE | IPC_CMDQ_GCODE_CLEAR | IPC_CMDQ_GCODE_APPEND
  | IPC_CMDQ_GCODE_APPEND_FILE | IPC_CMDQ_GCODE_STARTPRINT | IPC_CMDQ_GCODE_STOPPRINT
  | IPC_CMDQ_HEATUP | IPC_CMDQ_GET_PROGRESS | IPC_CMDQ_GET_STATE
  | IPC_CMDR_OK | IPC_CMDR_ERROR | IPC_CMDR_NOT_IMPLEMENTED | IPC_CMDR_GCODE_ADD_FAILED
  | IPC_CMDR_RETRY_LATER | IPC_CMDR_TRX_CANCELLED

text \<open>The value of each enumerator.\<close>

fun ipc_code :: "IPC_COMMAND_CODE \<Rightarrow> nat" where
  "ipc_code IPC_CMDS_INVALID = 0x00"
| "ipc_code IPC_CMDS_NONE = 0x01"
| "ipc_code IPC_CMDQ_TEST = 0x10"
| "ipc_code IPC_CMDQ_GET_TEMPERATURE = 0x11"
| "ipc_code IPC_CMDQ_GCODE_CLEAR = 0x12"
| "ipc_code IPC_CMDQ_GCODE_APPEND = 0x13"
| "ipc_code IPC_CMDQ_GCODE_APPEND_FILE = 0x14"
| "ipc_code IPC_CMDQ_GCODE_STARTPRINT = 0x15"
| "ipc_code IPC_CMDQ_GCODE_STOPPRINT = 0x16"
| "ipc_code IPC_CMDQ_HEATUP = 0x17"
| "ipc_code IPC_CMDQ_GET_PROGRESS = 0x18"
| "ipc_code IPC_CMDQ_GET_STATE = 0x19"
| "ipc_code IPC_CMDR_OK = 0xE0"
| "ipc_code IPC_CMDR_ERROR = 0xE1"
| "ipc_code IPC_CMDR_NOT_IMPLEMENTED = 0xE2"
| "ipc_code IPC_CMDR_GCODE_ADD_FAILED = 0xE3"
| "ipc_code IPC_CMDR_RETRY_LATER = 0xE4"
| "ipc_code IPC_CMDR_TRX_CANCELLED = 0xE5"

datatype IPC_TEMPERATURE_PARAMETER =
    IPC_TEMP_NONE | IPC_TEMP_HOTEND | IPC_TEMP_HOTEND_TGT | IPC_TEMP_BED | IPC_TEMP_BED_TGT
  | IPC_TEMP_HEATING

fun ipc_temp :: "IPC_TEMPERATURE_PARAMETER \<Rightarrow> int" where
  "ipc_temp IPC_TEMP_NONE = 0"
| "ipc_temp IPC_TEMP_HOTEND = 1"
| "ipc_temp IPC_TEMP_HOTEND_TGT = 2"
| "ipc_temp IPC_TEMP_BED = 3"
| "ipc_temp IPC_TEMP_BED_TGT = 4"
| "ipc_temp IPC_TEMP_HEATING = 5"

definition TRX_FIRST_CHUNK_BIT :: "16 word" where
  "TRX_FIRST_CHUNK_BIT = 1"

definition TRX_LAST_CHUNK_BIT :: "16 word" where
  "TRX_LAST_CHUNK_BIT = 2"

record ipc_cmd_name_s =
  cmd_code :: IPC_COMMAND_CODE
  cmd_name :: string
  arg_fmt :: string
  reply_fmt :: "string option"

definition cmd_desc :: "IPC_COMMAND_CODE \<Rightarrow> string \<Rightarrow> string \<Rightarrow> string option \<Rightarrow> ipc_cmd_name_s" where
  "cmd_desc c n a r = \<lparr>cmd_code = c, cmd_name = n, arg_fmt = a, reply_fmt = r\<rparr>"

text \<open>The table without its sentinel, whose NULL name ends every search.\<close>

definition IPC_COMMANDS :: "ipc_cmd_name_s list" where
  "IPC_COMMANDS =
    [cmd_desc IPC_CMDS_INVALID ''invalid'' ''-'' (Some ''''),
     cmd_desc IPC_CMDS_NONE ''none'' ''-'' (Some ''''),
     cmd_desc IPC_CMDQ_TEST ''test'' ''*'' (Some ''*''),
     cmd_desc IPC_CMDQ_GET_TEMPERATURE ''getTemperature'' ''w'' (Some ''w''),
     cmd_desc IPC_CMDQ_GCODE_CLEAR ''gcodeClear'' '''' (Some ''''),
     cmd_desc IPC_CMDQ_GCODE_APPEND ''gcodeAppend'' ''*'' (Some ''''),
     cmd_desc IPC_CMDQ_GCODE_APPEND_FILE ''gcodeAppendFile'' ''x'' (Some ''''),
     cmd_desc IPC_CMDQ_GCODE_STARTPRINT ''gcodeStartPrint'' '''' (Some ''''),
     cmd_desc IPC_CMDQ_GCODE_STOPPRINT ''gcodeStopPrint'' ''x'' (Some ''''),
     cmd_desc IPC_CMDQ_HEATUP ''heatup'' ''w'' (Some ''''),
     cmd_desc IPC_CMDQ_GET_PROGRESS ''getProgress'' '''' (Some ''WWWWWWW''),
     cmd_desc IPC_CMDQ_GET_STATE ''getState'' '''' (Some ''x''),
     cmd_desc IPC_CMDR_OK ''ok'' ''*'' None,
     cmd_desc IPC_CMDR_ERROR ''error'' ''x'' None,
     cmd_desc IPC_CMDR_NOT_IMPLEMENTED ''not_implemented'' ''*'' None,
     cmd_desc IPC_CMDR_GCODE_ADD_FAILED ''gcode_add_failed'' ''x'' None,
     cmd_desc IPC_CMDR_RETRY_LATER ''retry_later'' ''*'' None,
     cmd_desc IPC_CMDR_TRX_CANCELLED ''trx_cancelled'' ''*'' None]"

definition findCommandDescription :: "nat \<Rightarrow> ipc_cmd_name_s option" where
  "findCommandDescription code = find (\<lambda>d. ipc_code (cmd_code d) = code) IPC_COMMANDS"

lemma ipc_code_inj [simp]: "ipc_code c = ipc_code d \<longleftrightarrow> c = d"
  by (cases c; cases d; simp)

lemma ipc_code_less [simp]: "ipc_code c < 65536"
  by (cases c) simp_all

lemma findCommandDescription_known:
  "\<exists>d. findCommandDescription (ipc_code c) = Some d \<and> cmd_code d = c"
  by (cases c) (simp_all add: findCommandDescription_def IPC_COMMANDS_def cmd_desc_def)

section \<open>Building a command\<close>

definition ipc_cmd_set :: "allocator \<Rightarrow> IPC_COMMAND_CODE \<Rightarrow> int + bytes" where
  "ipc_cmd_set al code =
     (if al 4 then Inr (store_ns (word_of_nat (ipc_code code)) @ store_ns 0) else Inl (-1))"

text \<open>Increment of the 16-bit argument count at offset 2.\<close>

fun inc_arg_count :: "bytes \<Rightarrow> bytes" where
  "inc_arg_count (a # b # r) = (case read_ns r of
      Some n \<Rightarrow> a # b # store_ns (n + 1) @ drop 2 r
    | None \<Rightarrow> a # b # r)"
| "inc_arg_count r = r"

definition ipc_cmd_add_arg :: "allocator \<Rightarrow> bytes \<Rightarrow> bytes option \<Rightarrow> int + bytes" where
  "ipc_cmd_add_arg al buf arg =
     (let body = (case arg of None \<Rightarrow> [] | Some a \<Rightarrow> a)
      in if \<not> al (length buf + 4 + length body) then Inl (-1)
         else Inr (inc_arg_count (buf @ store_nl (word_of_nat (length body)) @ body)))"

text \<open>The variadic arguments: integers, strings, and pointers with a length.\<close>

datatype ipc_val = VInt int | VStr string | VBlob bytes

definition add_arg_ignoring :: "allocator \<Rightarrow> bytes \<Rightarrow> bytes \<Rightarrow> bytes" where
  "add_arg_ignoring al cmd a =
     (case ipc_cmd_add_arg al cmd (Some a) of Inl _ \<Rightarrow> cmd | Inr cmd' \<Rightarrow> cmd')"

fun construct_args :: "allocator \<Rightarrow> string \<Rightarrow> ipc_val list \<Rightarrow> bytes \<Rightarrow> bytes option" where
  "construct_args al [] vs cmd = Some cmd"
| "construct_args al (t # fmt) vs cmd =
     (if t = CHR ''w'' then
        (case vs of VInt i # vs' \<Rightarrow>
           construct_args al fmt vs' (add_arg_ignoring al cmd (store_ns (word_of_int i)))
         | _ \<Rightarrow> None)
      else if t = CHR ''W'' then
        (case vs of VInt i # vs' \<Rightarrow>
           construct_args al fmt vs' (add_arg_ignoring al cmd (store_nl (word_of_int i)))
         | _ \<Rightarrow> None)
      else if t = CHR ''s'' then
        (case vs of VStr s # vs' \<Rightarrow>
           construct_args al fmt vs' (add_arg_ignoring al cmd (cstr s))
         | _ \<Rightarrow> None)
      else if t = CHR ''x'' then
        (case vs of VBlob b # vs' \<Rightarrow>
           construct_args al fmt vs' (add_arg_ignoring al cmd b)
         | _ \<Rightarrow> None)
      else construct_args al fmt vs cmd)"

text \<open>
  \<open>ipc_construct_cmd\<close>: the outer option is undefined behaviour (arguments that do not
  match the format), the inner one the NULL of a failed allocation. A NULL format means no
  arguments; a format other than the one of the table is only logged.
\<close>

definition ipc_construct_cmd ::
  "allocator \<Rightarrow> IPC_COMMAND_CODE \<Rightarrow> string option \<Rightarrow> ipc_val list \<Rightarrow> bytes option option" where
  "ipc_construct_cmd al code format args =
     (case ipc_cmd_set al code of
        Inl _ \<Rightarrow> Some None
      | Inr cmd \<Rightarrow> map_option Some
          (construct_args al (case format of None \<Rightarrow> [] | Some f \<Rightarrow> f) args cmd))"

section \<open>Taking a command apart\<close>

fun complete_args :: "nat \<Rightarrow> bytes \<Rightarrow> nat \<Rightarrow> nat" where
  "complete_args 0 p off = off"
| "complete_args (Suc argsleft) p off =
     (case read_nl p of
        None \<Rightarrow> 0
      | Some al \<Rightarrow>
          if length p < 4 + unat al then 0
          else complete_args argsleft (drop (4 + unat al) p) (off + 4 + unat al))"

definition ipc_cmd_is_complete :: "bytes \<Rightarrow> nat" where
  "ipc_cmd_is_complete buf =
     (if length buf < 4 then 0
      else case read_ns (drop 2 buf) of
             None \<Rightarrow> 0
           | Some n \<Rightarrow> complete_args (unat n) (drop 4 buf) 4)"

definition ipc_cmd_num_args :: "bytes \<Rightarrow> int" where
  "ipc_cmd_num_args buf =
     (if length buf < 4 then -2
      else case read_ns (drop 2 buf) of None \<Rightarrow> -2 | Some n \<Rightarrow> int (unat n))"

definition ipc_cmd_get :: "bytes \<Rightarrow> nat" where
  "ipc_cmd_get buf =
     (if length buf < 2 then ipc_code IPC_CMDS_INVALID
      else case read_ns buf of None \<Rightarrow> ipc_code IPC_CMDS_INVALID | Some c \<Rightarrow> unat c)"

text \<open>The pointer walk over \<open>k\<close> arguments; the buffer bounds are not checked by the code.\<close>

fun arg_walk :: "bytes \<Rightarrow> nat \<Rightarrow> bytes option" where
  "arg_walk p 0 = Some p"
| "arg_walk p (Suc k) = do { l \<leftarrow> read_nl p; arg_walk (drop (4 + unat l) p) k }"

definition ipc_cmd_get_arg :: "allocator \<Rightarrow> bytes \<Rightarrow> nat \<Rightarrow> bool \<Rightarrow> (int + bytes) option" where
  "ipc_cmd_get_arg al buf argidx addzero = do {
     n \<leftarrow> read_ns (drop 2 buf);
     if unat n \<le> argidx then Some (Inl (-2))
     else do {
       p \<leftarrow> arg_walk (drop 4 buf) argidx;
       l \<leftarrow> read_nl p;
       let z = (if addzero then 1 else 0);
       if \<not> al (unat l + z) then Some (Inl (-1))
       else if length p < 4 + unat l then None
       else Some (Inr (take (unat l) (drop 4 p) @ (if addzero then [NUL] else [])))
     }
   }"

definition ipc_cmd_get_arg_len :: "bytes \<Rightarrow> nat \<Rightarrow> int option" where
  "ipc_cmd_get_arg_len buf argidx = do {
     n \<leftarrow> read_ns (drop 2 buf);
     if unat n \<le> argidx then Some (-2)
     else do { p \<leftarrow> arg_walk (drop 4 buf) argidx; l \<leftarrow> read_nl p; Some (sint l) }
   }"

definition ipc_cmd_get_short_arg :: "allocator \<Rightarrow> bytes \<Rightarrow> nat \<Rightarrow> (int + int) option" where
  "ipc_cmd_get_short_arg al buf argidx = do {
     r \<leftarrow> ipc_cmd_get_arg al buf argidx False;
     case r of
       Inl rv \<Rightarrow> Some (Inl rv)
     | Inr argbuf \<Rightarrow> map_option (\<lambda>w. Inr (sint w)) (read_ns argbuf)
   }"

definition ipc_cmd_get_long_arg :: "allocator \<Rightarrow> bytes \<Rightarrow> nat \<Rightarrow> (int + int) option" where
  "ipc_cmd_get_long_arg al buf argidx = do {
     r \<leftarrow> ipc_cmd_get_arg al buf argidx False;
     case r of
       Inl rv \<Rightarrow> Some (Inl rv)
     | Inr argbuf \<Rightarrow> map_option (\<lambda>w. Inr (sint w)) (read_nl argbuf)
   }"

text \<open>The result is read as a C string by every caller: up to its first NUL.\<close>

definition ipc_cmd_get_string_arg :: "allocator \<Rightarrow> bytes \<Rightarrow> nat \<Rightarrow> (int + string) option" where
  "ipc_cmd_get_string_arg al buf argidx = do {
     r \<leftarrow> ipc_cmd_get_arg al buf argidx True;
     case r of
       Inl rv \<Rightarrow> Some (Inl rv)
     | Inr argbuf \<Rightarrow> Some (Inr (cstr argbuf))
   }"

text \<open>The return value and the buffer; NULL from a \<open>realloc\<close> to 0 bytes is no error.\<close>

definition ipc_cmd_remove :: "allocator \<Rightarrow> bytes \<Rightarrow> int \<times> bytes" where
  "ipc_cmd_remove al buf =
     (let l = ipc_cmd_is_complete buf; rest = drop l buf
      in if l = 0 then (0, buf)
         else if \<not> al (length rest) \<and> 0 < length rest then (-1, rest @ drop (length rest) buf)
         else (1, rest))"

end
