(* ===== verification/IpcCodec.thy ===== *)
theory IpcCodec
  imports IpcShared
begin

text \<open>
  What the wire format promises: a specification \<open>encode\<close> of a command as a value, the
  proof that the code's constructor builds it and that the code's accessors invert it, and the
  interface a reader of the byte stream relies on (\<open>framing\<close>): a complete message is
  recognised whatever follows it, a proper prefix of one is not.
\<close>

section \<open>The specification of a command\<close>

definition encode_args :: "bytes list \<Rightarrow> bytes" where
  "encode_args as = concat (map (\<lambda>a. store_nl (word_of_nat (length a)) @ a) as)"

definition encode :: "nat \<Rightarrow> bytes list \<Rightarrow> bytes" where
  "encode c as = store_ns (word_of_nat c) @ store_ns (word_of_nat (length as)) @ encode_args as"

text \<open>Commands whose numbers fit their fields.\<close>

definition wf_cmd :: "nat \<Rightarrow> bytes list \<Rightarrow> bool" where
  "wf_cmd c as \<longleftrightarrow> c < 65536 \<and> length as < 65536 \<and> (\<forall>a \<in> set as. length a < 4294967296)"

lemma encode_args_Nil [simp, ipc_simps]: "encode_args [] = []"
  by (simp add: encode_args_def)

lemma encode_args_Cons [simp, ipc_simps]:
  "encode_args (a # as) = store_nl (word_of_nat (length a)) @ a @ encode_args as"
  by (simp add: encode_args_def)

lemma encode_args_append [simp, ipc_simps]:
  "encode_args (as @ bs) = encode_args as @ encode_args bs"
  by (simp add: encode_args_def)

lemma unat_word16 [simp]: "n < 65536 \<Longrightarrow> unat (word_of_nat n :: 16 word) = n"
  by (simp add: unat_of_nat)

lemma unat_word32 [simp]: "n < 4294967296 \<Longrightarrow> unat (word_of_nat n :: 32 word) = n"
  by (simp add: unat_of_nat)

lemma length_encode [ipc_simps]: "length (encode c as) = 4 + length (encode_args as)"
  by (simp add: encode_def)

lemma drop2_encode0 [ipc_simps]:
  "drop 2 (encode c as) = store_ns (word_of_nat (length as)) @ encode_args as"
  by (simp add: encode_def)

lemma drop4_encode0 [ipc_simps]: "drop 4 (encode c as) = encode_args as"
  by (simp add: encode_def)

lemma drop2_encode [ipc_simps]:
  "drop 2 (encode c as @ r) = store_ns (word_of_nat (length as)) @ encode_args as @ r"
  by (simp add: drop2_encode0 length_encode)

lemma drop4_encode [ipc_simps]: "drop 4 (encode c as @ r) = encode_args as @ r"
  by (simp add: drop4_encode0 length_encode)

section \<open>Construction builds the specified command\<close>

lemma add_arg_encode:
  assumes "al (length (encode c as) + 4 + length a)" "length as < 65535"
  shows "ipc_cmd_add_arg al (encode c as) (Some a) = Inr (encode c (as @ [a]))"
proof -
  obtain x y where xy: "store_ns (word_of_nat c) = [x, y]"
    by (simp add: store_ns_def)
  have "(word_of_nat (length as) :: 16 word) + 1 = word_of_nat (length (as @ [a]))" by simp
  with assms(1) show ?thesis
    by (simp add: ipc_cmd_add_arg_def encode_def xy add.commute)
qed

text \<open>The arguments the format string and the values stand for.\<close>

fun arg_bytes :: "string \<Rightarrow> ipc_val list \<Rightarrow> bytes list option" where
  "arg_bytes [] vs = Some []"
| "arg_bytes (t # fmt) [] = None"
| "arg_bytes (t # fmt) (v # vs) =
     (case v of
        VInt i \<Rightarrow> if t = CHR ''w'' then map_option ((#) (store_ns (word_of_int i))) (arg_bytes fmt vs)
                 else if t = CHR ''W'' then map_option ((#) (store_nl (word_of_int i))) (arg_bytes fmt vs)
                 else None
      | VStr s \<Rightarrow> if t = CHR ''s'' then map_option ((#) (cstr s)) (arg_bytes fmt vs) else None
      | VBlob b \<Rightarrow> if t = CHR ''x'' then map_option ((#) b) (arg_bytes fmt vs) else None)"

lemma construct_args_encode:
  assumes "\<And>n. 0 < n \<Longrightarrow> al n"
  shows "arg_bytes fmt vs = Some bs \<Longrightarrow> length as + length bs < 65536 \<Longrightarrow>
    construct_args al fmt vs (encode c as) = Some (encode c (as @ bs))"
proof (induction fmt arbitrary: vs as bs)
  case Nil
  then show ?case by simp
next
  case (Cons t fmt)
  then obtain v vs' b bs' where v: "vs = v # vs'" and bs: "bs = b # bs'"
    and rest: "arg_bytes fmt vs' = Some bs'"
    by (cases vs) (auto split: ipc_val.splits if_splits)
  have add: "add_arg_ignoring al (encode c as) b = encode c (as @ [b])"
    using Cons.prems(2) bs assms by (simp add: add_arg_ignoring_def add_arg_encode)
  have IH: "construct_args al fmt vs' (encode c (as @ [b])) = Some (encode c ((as @ [b]) @ bs'))"
    using Cons.prems(2) bs by (intro Cons.IH rest) simp
  show ?case
    using Cons.prems(1) v bs add IH
    by (cases v) (auto split: if_splits)
qed

text \<open>
  With memory for every nonempty request, construction yields exactly the encoding.
\<close>

lemma construct_encode:
  assumes "\<And>n. 0 < n \<Longrightarrow> al n" "arg_bytes fmt vs = Some as" "length as < 65536"
  shows "ipc_construct_cmd al c (Some fmt) vs = Some (Some (encode (ipc_code c) as))"
proof -
  have "store_ns (word_of_nat (ipc_code c)) @ store_ns 0 = encode (ipc_code c) []"
    by (simp add: encode_def)
  with construct_args_encode [of al fmt vs as "[]", OF assms(1,2)] assms(1,3) show ?thesis
    by (simp add: ipc_construct_cmd_def ipc_cmd_set_def)
qed

lemma construct_encode_NULL:
  assumes "\<And>n. 0 < n \<Longrightarrow> al n"
  shows "ipc_construct_cmd al c None [] = Some (Some (encode (ipc_code c) []))"
  using assms by (simp add: ipc_construct_cmd_def ipc_cmd_set_def encode_def)

section \<open>The accessors invert it\<close>

lemma ipc_cmd_get_encode [ipc_simps]:
  "c < 65536 \<Longrightarrow> ipc_cmd_get (encode c as @ r) = c"
  by (simp add: ipc_cmd_get_def encode_def)

lemma ipc_cmd_num_args_encode [ipc_simps]:
  "length as < 65536 \<Longrightarrow> ipc_cmd_num_args (encode c as @ r) = int (length as)"
  by (simp add: ipc_cmd_num_args_def drop2_encode0 length_encode)

lemma arg_walk_encode:
  assumes "\<forall>a \<in> set as. length a < 4294967296"
  shows "k \<le> length as \<Longrightarrow> arg_walk (encode_args as @ r) k = Some (encode_args (drop k as) @ r)"
  using assms
proof (induction k arbitrary: as)
  case 0
  then show ?case by simp
next
  case (Suc k)
  then obtain a bs where as: "as = a # bs" by (cases as) auto
  have "drop (4 + length a) (encode_args as @ r) = encode_args bs @ r"
    by (simp add: as drop_append del: drop_drop)
  with Suc as show ?case by simp
qed

lemma get_arg_encode:
  assumes "wf_cmd c as" "i < length as" "al (length (as ! i) + (if z then 1 else 0))"
  shows "ipc_cmd_get_arg al (encode c as @ r) i z = Some (Inr (as ! i @ (if z then [NUL] else [])))"
proof -
  have w: "arg_walk (encode_args as @ r) i = Some (encode_args (drop i as) @ r)"
    using assms by (intro arg_walk_encode) (auto simp: wf_cmd_def)
  have d: "drop i as = as ! i # drop (Suc i) as" using assms(2) by (simp add: Cons_nth_drop_Suc)
  have l: "length (as ! i) < 4294967296" using assms(1,2) by (auto simp: wf_cmd_def)
  have n: "length as < 65536" using assms(1) by (simp add: wf_cmd_def)
  have "ipc_cmd_get_arg al (encode c as @ r) i z =
     Some (Inr (take (length (as ! i)) (as ! i @ encode_args (drop (Suc i) as) @ r)
                 @ (if z then [NUL] else [])))"
    unfolding ipc_cmd_get_arg_def drop2_encode drop4_encode read_store_ns
    using n l assms(2,3)
    by (simp add: w d Let_def)
  then show ?thesis by simp
qed

lemma get_arg_missing:
  assumes "length as < 65536" "length as \<le> i"
  shows "ipc_cmd_get_arg al (encode c as @ r) i z = Some (Inl (-2))"
  using assms by (simp add: ipc_cmd_get_arg_def drop2_encode0 length_encode)

lemma get_string_arg_encode [ipc_simps]:
  assumes "wf_cmd c as" "i < length as" "al (length (as ! i) + 1)"
  shows "ipc_cmd_get_string_arg al (encode c as @ r) i = Some (Inr (cstr (as ! i)))"
proof -
  have "cstr (as ! i @ [NUL]) = cstr (as ! i)"
    by (simp add: cstr_def takeWhile_tail)
  with get_arg_encode [of c as i al True r] assms show ?thesis
    by (simp add: ipc_cmd_get_string_arg_def)
qed

lemma get_short_arg_encode [ipc_simps]:
  assumes "wf_cmd c as" "i < length as" "as ! i = store_ns w" "al 2"
  shows "ipc_cmd_get_short_arg al (encode c as @ r) i = Some (Inr (sint w))"
proof -
  have "read_ns (store_ns w) = Some w" using read_store_ns [of w "[]"] by simp
  with get_arg_encode [of c as i al False r] assms show ?thesis
    by (simp add: ipc_cmd_get_short_arg_def)
qed

lemma get_long_arg_encode [ipc_simps]:
  assumes "wf_cmd c as" "i < length as" "as ! i = store_nl w" "al 4"
  shows "ipc_cmd_get_long_arg al (encode c as @ r) i = Some (Inr (sint w))"
proof -
  have "read_nl (store_nl w) = Some w" using read_store_nl [of w "[]"] by simp
  with get_arg_encode [of c as i al False r] assms show ?thesis
    by (simp add: ipc_cmd_get_long_arg_def)
qed

section \<open>Completeness of a buffer\<close>

lemma complete_args_encode:
  assumes "\<forall>a \<in> set as. length a < 4294967296"
  shows "complete_args (length as) (encode_args as @ r) off = off + length (encode_args as)"
  using assms
proof (induction as arbitrary: off)
  case (Cons a as)
  have "drop (4 + length a) (encode_args (a # as) @ r) = encode_args as @ r" by simp
  with Cons show ?case by simp
qed simp

lemma is_complete_encode [ipc_simps]:
  assumes "wf_cmd c as"
  shows "ipc_cmd_is_complete (encode c as @ r) = length (encode c as)"
  using assms complete_args_encode [of as r 4]
  by (simp add: ipc_cmd_is_complete_def wf_cmd_def drop2_encode0 drop4_encode0 length_encode)

lemma complete_args_partial:
  assumes "\<forall>a \<in> set as. length a < 4294967296"
  shows "n < length (encode_args as) \<Longrightarrow> complete_args (length as) (take n (encode_args as)) off = 0"
  using assms
proof (induction as arbitrary: n off)
  case (Cons a as)
  let ?p = "take n (encode_args (a # as))"
  show ?case
  proof (cases "n < 4 + length a")
    case True
    define q where "q = ?p"
    from True have len: "length q < 4 + length a" by (simp add: q_def)
    have "complete_args (length (a # as)) q off = 0"
    proof (cases "read_nl q")
      case (Some l)
      then have "4 \<le> length q" using read_nl_None [of q] by (metis not_le option.distinct(1))
      then have "q = store_nl (word_of_nat (length a)) @ take (n - 4) (a @ encode_args as)"
        by (simp add: q_def take_append)
      with Some have "l = word_of_nat (length a)" by (metis option.inject read_store_nl)
      with Some len Cons.prems(2) show ?thesis by simp
    qed simp
    then show ?thesis by (simp only: q_def)
  next
    case False
    then have p: "?p = store_nl (word_of_nat (length a)) @ a @ take (n - (4 + length a)) (encode_args as)"
      by (simp add: take_append)
    from False Cons.prems(1) have "n - (4 + length a) < length (encode_args as)" by simp
    with Cons have "complete_args (length as) (take (n - (4 + length a)) (encode_args as))
        (off + 4 + length a) = 0" by simp
    moreover have "drop (4 + length a) ?p = take (n - (4 + length a)) (encode_args as)"
      unfolding p by simp
    ultimately show ?thesis
      using Cons.prems(2) by (simp only: p length_Cons complete_args.simps read_store_nl) simp
  qed
qed simp

lemma is_complete_partial:
  assumes "wf_cmd c as" "n < length (encode c as)"
  shows "ipc_cmd_is_complete (take n (encode c as)) = 0"
proof (cases "n < 4")
  case True
  then have "length (take n (encode c as)) < 4" by simp
  then show ?thesis unfolding ipc_cmd_is_complete_def by (rule if_P)
next
  case False
  have t: "take n (encode c as) = store_ns (word_of_nat c) @ store_ns (word_of_nat (length as)) @
      take (n - 4) (encode_args as)"
    using False by (simp add: encode_def take_append)
  have "n - 4 < length (encode_args as)" using assms(2) False by (simp add: length_encode)
  with assms(1) have "complete_args (length as) (take (n - 4) (encode_args as)) 4 = 0"
    by (intro complete_args_partial) (auto simp: wf_cmd_def)
  with assms(1) show ?thesis
    unfolding t by (simp add: ipc_cmd_is_complete_def wf_cmd_def)
qed

lemma remove_encode [ipc_simps]:
  assumes "wf_cmd c as" "\<And>n. 0 < n \<Longrightarrow> al n"
  shows "ipc_cmd_remove al (encode c as @ r) = (1, r)"
proof -
  have "ipc_cmd_is_complete (encode c as @ r) = length (encode c as)" by (rule is_complete_encode) fact
  moreover have "length (encode c as) \<noteq> 0" by (simp add: length_encode)
  ultimately show ?thesis using assms(2) by (cases "r = []") (simp_all add: ipc_cmd_remove_def Let_def)
qed

section \<open>Reading a stream of commands\<close>

text \<open>
  The loop of a reader over its receive buffer: while the buffer starts with a complete frame,
  handle it and drop it. The handler sees the whole buffer, as in the code.
\<close>

partial_function (option) run_frames ::
  "(bytes \<Rightarrow> nat) \<Rightarrow> ('s \<Rightarrow> bytes \<Rightarrow> 's option) \<Rightarrow> 's \<Rightarrow> bytes \<Rightarrow> ('s \<times> bytes) option" where
  "run_frames flen h s buf =
     (if flen buf = 0 then Some (s, buf)
      else Option.bind (h s buf) (\<lambda>s'. run_frames flen h s' (drop (flen buf) buf)))"

locale framing =
  fixes frame_len :: "bytes \<Rightarrow> nat"
    and is_frame :: "bytes \<Rightarrow> bool"
  assumes whole: "is_frame f \<Longrightarrow> frame_len (f @ r) = length f"
    and partial: "is_frame f \<Longrightarrow> n < length f \<Longrightarrow> frame_len (take n f) = 0"
    and nonempty: "is_frame f \<Longrightarrow> f \<noteq> []"
begin

lemma frame_len_Nil: "is_frame f \<Longrightarrow> frame_len [] = 0"
  using partial [of f 0] nonempty by simp

lemma run_frames_whole:
  assumes "\<forall>f \<in> set fs. is_frame f" "frame_len tail = 0"
    and "\<And>s f r. is_frame f \<Longrightarrow> h s (f @ r) = h' s f"
  shows "run_frames frame_len h s (concat fs @ tail) = map_option (\<lambda>s'. (s', tail)) (fold_option h' s fs)"
  using assms(1)
proof (induction fs arbitrary: s)
  case Nil
  then show ?case using assms(2) by (simp add: run_frames.simps)
next
  case (Cons f fs)
  then have f: "is_frame f" by simp
  have "frame_len (concat (f # fs) @ tail) = length f"
    using whole [OF f, of "concat fs @ tail"] by simp
  moreover have "h s (concat (f # fs) @ tail) = h' s f"
    using assms(3) [OF f, of s "concat fs @ tail"] by simp
  moreover have "length f \<noteq> 0" using nonempty [OF f] by simp
  ultimately have "run_frames frame_len h s (concat (f # fs) @ tail) =
      Option.bind (h' s f) (\<lambda>s'. run_frames frame_len h s' (concat fs @ tail))"
    by (subst run_frames.simps) simp
  with Cons show ?case by (cases "h' s f") auto
qed

end

text \<open>
  Reading piece by piece: each piece is appended to what is left over, then complete frames
  are handled.
\<close>

fun feed :: "(bytes \<Rightarrow> nat) \<Rightarrow> ('s \<Rightarrow> bytes \<Rightarrow> 's option) \<Rightarrow> 's \<Rightarrow> bytes \<Rightarrow> bytes list \<Rightarrow> ('s \<times> bytes) option"
  where
  "feed flen h s buf [] = Some (s, buf)"
| "feed flen h s buf (c # cs) =
     Option.bind (run_frames flen h s (buf @ c)) (\<lambda>(s', buf'). feed flen h s' buf' cs)"

lemma prefix_of_concat:
  assumes "u @ v = concat fs" "\<forall>f \<in> set fs. f \<noteq> []"
  obtains gs hs t where "fs = gs @ hs" "u = concat gs @ t"
    "hs = [] \<and> t = [] \<or> (\<exists>h hs' n. hs = h # hs' \<and> n < length h \<and> t = take n h)"
  using assms
proof (induction fs arbitrary: u thesis)
  case Nil
  then show ?case by simp
next
  case (Cons f fs)
  show ?case
  proof (cases "length u < length f")
    case True
    then have "u = take (length u) f"
      using Cons.prems(2) by (metis append_eq_conv_conj concat.simps(2) less_imp_le take_all_iff take_append
        append_Nil2 diff_is_0_eq take_0)
    with True Cons.prems(1) [of "[]" "f # fs" u] show ?thesis by auto
  next
    case False
    then obtain w where w: "u = f @ w" "w @ v = concat fs"
      using Cons.prems(2) by (auto simp: append_eq_append_conv2)
    obtain gs hs t where g: "fs = gs @ hs" "w = concat gs @ t"
      "hs = [] \<and> t = [] \<or> (\<exists>h hs' n. hs = h # hs' \<and> n < length h \<and> t = take n h)"
      using Cons.IH [OF _ w(2)] Cons.prems(3) by auto
    show ?thesis by (rule Cons.prems(1) [of "f # gs" hs t]) (use g w in auto)
  qed
qed

context framing begin

lemma feed_frames:
  assumes h: "\<And>s f r. is_frame f \<Longrightarrow> h s (f @ r) = h' s f" and g: "is_frame g" "m < length g"
  shows "\<forall>f \<in> set fs. is_frame f \<Longrightarrow> buf @ concat cs = concat fs @ take m g \<Longrightarrow>
    buf = take k (hd (fs @ [g])) \<Longrightarrow> k < length (hd (fs @ [g])) \<Longrightarrow>
    feed frame_len h s buf cs = map_option (\<lambda>s'. (s', take m g)) (fold_option h' s fs)"
proof (induction cs arbitrary: s buf fs k)
  case Nil
  have "fs = []"
  proof (cases fs)
    case (Cons f fs')
    with Nil.prems(2-4) have "take k f = f @ concat fs' @ take m g" "k < length f" by simp_all
    then show ?thesis by (metis append_eq_conv_conj length_append length_take min_less_iff_conj not_add_less1 order_less_irrefl)
  qed
  with Nil show ?case by simp
next
  case (Cons c cs)
  have ne: "\<forall>f \<in> set (fs @ [g]). f \<noteq> []" using Cons.prems(1) g(1) nonempty by auto
  have "(buf @ c) @ (concat cs @ drop m g) = concat (fs @ [g])"
    using Cons.prems(2) by (metis append.assoc append_Nil2 append_take_drop_id concat.simps concat_append)
  from prefix_of_concat [OF this ne] obtain gs hs t where
    q: "fs @ [g] = gs @ hs" "buf @ c = concat gs @ t"
       "hs = [] \<and> t = [] \<or> (\<exists>h hs' n. hs = h # hs' \<and> n < length h \<and> t = take n h)" by blast
  have "hs \<noteq> []"
  proof
    assume "hs = []"
    then have "gs = fs @ [g]" "t = []" using q(1,3) by simp_all
    then have "buf @ c = concat fs @ g" using q(2) by simp
    then have "length (buf @ c) = length (concat fs @ g)" by (rule arg_cong)
    then show False using arg_cong [OF Cons.prems(2), of length] g(2) by simp
  qed
  then obtain hs' where hs: "hs = hs' @ [g]" "fs = gs @ hs'"
    using q(1) by (cases hs rule: rev_cases) auto
  obtain n where n: "t = take n (hd (hs' @ [g]))" "n < length (hd (hs' @ [g]))"
    using q(3) \<open>hs \<noteq> []\<close> hs(1) by (metis list.sel(1))
  have t: "t @ concat cs = concat hs' @ take m g" using Cons.prems(2) q(2) hs(2) by (metis append.assoc concat.simps(2)
      concat_append same_append_eq)
  have z: "frame_len t = 0"
    using n partial Cons.prems(1) g(1) hs(2) by (cases hs') auto
  have "run_frames frame_len h s (buf @ c) = map_option (\<lambda>s'. (s', t)) (fold_option h' s gs)"
    unfolding q(2) by (rule run_frames_whole [of gs t h h', OF _ z h]) (use Cons.prems(1) hs(2) in auto)
  moreover have "feed frame_len h s' t cs = map_option (\<lambda>s'. (s', take m g)) (fold_option h' s' hs')" for s'
    by (rule Cons.IH [OF _ t n]) (use Cons.prems(1) hs(2) in simp)
  ultimately show ?case
    by (cases "fold_option h' s gs") (auto simp: hs(2) fold_option_append)
qed

end

definition is_cmd :: "bytes \<Rightarrow> bool" where
  "is_cmd f \<longleftrightarrow> (\<exists>c as. wf_cmd c as \<and> f = encode c as)"

interpretation ipc: framing ipc_cmd_is_complete is_cmd
proof unfold_locales
  fix f r assume "is_cmd f"
  then show "ipc_cmd_is_complete (f @ r) = length f"
    by (auto simp: is_cmd_def is_complete_encode)
next
  fix f n assume "is_cmd f" "n < length f"
  then show "ipc_cmd_is_complete (take n f) = 0"
    by (auto simp: is_cmd_def is_complete_partial)
next
  fix f assume "is_cmd f"
  then show "f \<noteq> []" by (auto simp: is_cmd_def encode_def store_ns_def)
qed

text \<open>Whole commands, then the first bytes of one that stays incomplete.\<close>

lemma feed_cut_off:
  assumes "\<forall>f \<in> set cmds. is_cmd f" "is_cmd g" "m < length g" "concat pieces = concat cmds @ take m g"
    and "\<And>s f r. is_cmd f \<Longrightarrow> h s (f @ r) = h' s f"
  shows "feed ipc_cmd_is_complete h s [] pieces = map_option (\<lambda>s'. (s', take m g)) (fold_option h' s cmds)"
  by (rule ipc.feed_frames [of h h' g m cmds "[]" pieces 0, OF assms(5,2,3,1)])
    (use assms ipc.nonempty in \<open>auto simp: hd_append\<close>)

lemma feed_commands:
  assumes "\<forall>f \<in> set cmds. is_cmd f" "concat pieces = concat cmds"
    and "\<And>s f r. is_cmd f \<Longrightarrow> h s (f @ r) = h' s f"
  shows "feed ipc_cmd_is_complete h s [] pieces = map_option (\<lambda>s'. (s', [])) (fold_option h' s cmds)"
proof -
  have g: "is_cmd (encode 0 [])" unfolding is_cmd_def by (intro exI [of _ 0] exI [of _ "[]"]) (simp add: wf_cmd_def)
  then have "0 < length (encode 0 [])" using ipc.nonempty by blast
  then have "feed ipc_cmd_is_complete h s [] pieces = map_option (\<lambda>s'. (s', take 0 (encode 0 []))) (fold_option h' s cmds)"
    by (rule feed_cut_off [OF assms(1) g]) (use assms(2,3) in auto)
  then show ?thesis by simp
qed

section \<open>Properties\<close>

fun arg_fits :: "char \<Rightarrow> ipc_val \<Rightarrow> bytes \<Rightarrow> bool" where
  "arg_fits t (VInt k) a \<longleftrightarrow>
     t = CHR ''w'' \<and> a = store_ns (word_of_int k) \<or> t = CHR ''W'' \<and> a = store_nl (word_of_int k)"
| "arg_fits t (VStr s) a \<longleftrightarrow> t = CHR ''s'' \<and> a = cstr s"
| "arg_fits t (VBlob b) a \<longleftrightarrow> t = CHR ''x'' \<and> a = b"

lemma arg_bytes_nth:
  "arg_bytes fmt vs = Some as \<Longrightarrow> length as = length fmt \<and> length fmt \<le> length vs \<and>
    (\<forall>i < length fmt. arg_fits (fmt ! i) (vs ! i) (as ! i))"
proof (induction fmt vs arbitrary: as rule: arg_bytes.induct)
  case (3 t fmt v vs)
  then show ?case
    by (cases v) (auto simp: less_Suc_eq_0_disj split: if_splits)
qed auto

text \<open>C26: A command built by \<open>ipc_construct_cmd\<close> from values that fit its format,
  with memory available, is read back exactly, whatever bytes follow it in the buffer: the same
  code, as many arguments as format letters, no argument beyond; a text comes back up to its NUL, a
  16-bit and a 32-bit number as the signed value when it is in range, a block of bytes unchanged.\<close>

theorem command_roundtrip:
  assumes "\<And>n. 0 < n \<Longrightarrow> al n" "arg_bytes fmt vs = Some as"
    and "wf_cmd (ipc_code code) as" "i < length fmt"
  shows "\<exists>cmd. ipc_construct_cmd al code (Some fmt) vs = Some (Some cmd) \<and>
    ipc_cmd_get (cmd @ r) = ipc_code code \<and> ipc_cmd_num_args (cmd @ r) = int (length fmt) \<and>
    (\<forall>j \<ge> length fmt. ipc_cmd_get_arg al (cmd @ r) j False = Some (Inl (-2))) \<and>
    (case vs ! i of
       VStr s \<Rightarrow> ipc_cmd_get_string_arg al (cmd @ r) i = Some (Inr (cstr s))
     | VBlob b \<Rightarrow> b \<noteq> [] \<longrightarrow> ipc_cmd_get_arg al (cmd @ r) i False = Some (Inr b)
     | VInt k \<Rightarrow>
         (fmt ! i = CHR ''w'' \<and> - (2 ^ 15) \<le> k \<and> k < 2 ^ 15 \<longrightarrow>
            ipc_cmd_get_short_arg al (cmd @ r) i = Some (Inr k)) \<and>
         (fmt ! i = CHR ''W'' \<and> - (2 ^ 31) \<le> k \<and> k < 2 ^ 31 \<longrightarrow>
            ipc_cmd_get_long_arg al (cmd @ r) i = Some (Inr k)))"
proof -
  note nth = arg_bytes_nth [OF assms(2)]
  have len: "length as < 65536" using assms(3) by (simp add: wf_cmd_def)
  have i: "i < length as" using assms(4) nth by simp
  have al: "al (Suc n)" "al 2" "al 4" for n using assms(1) by simp_all
  have w16: "sint (word_of_int k :: 16 word) = k" if "- (2 ^ 15) \<le> k" "k < 2 ^ 15" for k
    using that by (simp add: signed_of_int signed_take_bit_int_eq_self)
  have w32: "sint (word_of_int k :: 32 word) = k" if "- (2 ^ 31) \<le> k" "k < 2 ^ 31" for k
    using that by (simp add: signed_of_int signed_take_bit_int_eq_self)
  let ?cmd = "encode (ipc_code code) as"
  have short: "as ! i = store_ns w \<Longrightarrow> ipc_cmd_get_short_arg al (?cmd @ r) i = Some (Inr (sint w))" for w
    by (rule get_short_arg_encode [OF assms(3) i]) (use al in auto)
  have long: "as ! i = store_nl w \<Longrightarrow> ipc_cmd_get_long_arg al (?cmd @ r) i = Some (Inr (sint w))" for w
    by (rule get_long_arg_encode [OF assms(3) i]) (use al in auto)
  have str: "ipc_cmd_get_string_arg al (?cmd @ r) i = Some (Inr (cstr (as ! i)))"
    by (rule get_string_arg_encode [OF assms(3) i]) (use al in auto)
  have blob: "as ! i \<noteq> [] \<Longrightarrow> ipc_cmd_get_arg al (?cmd @ r) i False = Some (Inr (as ! i))"
    using get_arg_encode [OF assms(3) i, of al False r] assms(1) by simp
  have "case vs ! i of
       VStr s \<Rightarrow> ipc_cmd_get_string_arg al (?cmd @ r) i = Some (Inr (cstr s))
     | VBlob b \<Rightarrow> b \<noteq> [] \<longrightarrow> ipc_cmd_get_arg al (?cmd @ r) i False = Some (Inr b)
     | VInt k \<Rightarrow>
         (fmt ! i = CHR ''w'' \<and> - (2 ^ 15) \<le> k \<and> k < 2 ^ 15 \<longrightarrow>
            ipc_cmd_get_short_arg al (?cmd @ r) i = Some (Inr k)) \<and>
         (fmt ! i = CHR ''W'' \<and> - (2 ^ 31) \<le> k \<and> k < 2 ^ 31 \<longrightarrow>
            ipc_cmd_get_long_arg al (?cmd @ r) i = Some (Inr k))"
    using nth short long str blob w16 w32 assms(4)
    by (cases "vs ! i") auto
  moreover have "ipc_construct_cmd al code (Some fmt) vs = Some (Some ?cmd)"
    by (rule construct_encode [OF assms(1,2) len])
  ultimately show ?thesis
    using len nth get_arg_missing [OF len]
    by (auto simp: ipc_cmd_get_encode ipc_cmd_num_args_encode)
qed

theorem command_roundtrip_witness:
  "\<exists>cmd. ipc_construct_cmd (\<lambda>n. True) IPC_CMDQ_GCODE_APPEND (Some ''swW'') [VStr ''G28'', VInt 3, VInt (-1)] =
      Some (Some cmd) \<and>
     ipc_cmd_get_long_arg (\<lambda>n. True) (cmd @ ''xyz'') 2 = Some (Inr (-1))"
proof -
  let ?vs = "[VStr ''G28'', VInt 3, VInt (-1)]"
  let ?as = "[''G28'', store_ns 3, store_nl (-1)]"
  have b: "arg_bytes ''swW'' ?vs = Some ?as"
    by (simp add: cstr_def)
  have w: "wf_cmd (ipc_code IPC_CMDQ_GCODE_APPEND) ?as"
    by (simp add: wf_cmd_def)
  show ?thesis
    using command_roundtrip [of "\<lambda>n. True", OF TrueI b w, of 2 "''xyz''"] by auto
qed

end
