(* ===== verification/IpcText.thy ===== *)
theory IpcText
  imports IpcShared
begin

text \<open>
  The rest of \<open>src/src/ipc_shared.c\<close>: the text of a command for the log
  (\<open>ipc_stringify_cmd\<close>), with the size of the buffer it allocates, the socket path of a
  device, and the list of devices (\<open>ipc_find_devices\<close>, \<open>ipc_free_device_list\<close>).
\<close>

section \<open>Text of a command\<close>

definition STRINGIFY_MAX_TEXT_DISPLAY_CHARS :: nat where
  "STRINGIFY_MAX_TEXT_DISPLAY_CHARS = 15"

text \<open>
  One grown output: \<open>outlen\<close> is the allocated size, \<open>out\<close> what is in the buffer.
  \<open>Inl (-1)\<close> is a failed allocation.
\<close>

definition grow :: "allocator \<Rightarrow> nat \<Rightarrow> string \<Rightarrow> int + (nat \<times> string)" where
  "grow al outlen out = (if al outlen then Inr (outlen, out) else Inl (-1))"

text \<open>
  The text of one argument of the type the format character names. A number or string the
  accessors do not deliver is an uninitialised variable or a NULL pointer, \<open>None\<close>.
\<close>

definition stringify_arg ::
  "allocator \<Rightarrow> bytes \<Rightarrow> char \<Rightarrow> nat \<Rightarrow> nat \<Rightarrow> string \<Rightarrow> (int + (nat \<times> string)) option" where
  "stringify_arg al buf type i outlen out =
     (if type = CHR ''w'' then do {
        r \<leftarrow> ipc_cmd_get_short_arg al buf i;
        case r of Inl _ \<Rightarrow> None
        | Inr v \<Rightarrow> Some (grow al (outlen + number_length v + 2) (out @ '':s'' @ itoa v)) }
      else if type = CHR ''W'' then do {
        r \<leftarrow> ipc_cmd_get_long_arg al buf i;
        case r of Inl _ \<Rightarrow> None
        | Inr v \<Rightarrow> Some (grow al (outlen + number_length v + 2) (out @ '':l'' @ itoa v)) }
      else if type = CHR ''x'' then do {
        r \<leftarrow> ipc_cmd_get_string_arg al buf i;
        case r of Inl _ \<Rightarrow> None
        | Inr s \<Rightarrow>
            if length s \<le> STRINGIFY_MAX_TEXT_DISPLAY_CHARS
            then Some (grow al (outlen + length s + 3) (out @ '':'' @ [CHR 0x22] @ s @ [CHR 0x22]))
            else Some (grow al (outlen + number_length (int (length s)) + 2)
                        (out @ '':#'' @ itoa (int (length s)))) }
      else Some (Inr (outlen, out)))"

text \<open>
  The loop over the arguments; the second argument counts those left, itself included. The
  statement that would advance \<open>fmt_idx\<close> stands behind the \<open>break\<close> of the last
  case of the switch and is never reached, so \<open>fmt_idx\<close> is passed on unchanged.
\<close>

fun stringify_args ::
  "allocator \<Rightarrow> bytes \<Rightarrow> string \<Rightarrow> nat \<Rightarrow> nat \<Rightarrow> nat \<Rightarrow> nat \<times> string \<Rightarrow> (int + (nat \<times> string)) option"
where
  "stringify_args al buf fmt num_args 0 fmt_idx (outlen, out) = Some (Inr (outlen, out))"
| "stringify_args al buf fmt num_args (Suc left) fmt_idx (outlen, out) =
     (let type = (if fmt_idx < length fmt then fmt ! fmt_idx else NUL);
          i = num_args - 1 - left
      in if type = NUL then
           Some (grow al (outlen + 5 + number_length (int left)) (out @ '':!...'' @ itoa (int left)))
         else do {
           arglen \<leftarrow> ipc_cmd_get_arg_len buf i;
           r \<leftarrow> stringify_arg al buf type i outlen out;
           case r of
             Inl rv \<Rightarrow> Some (Inl rv)
           | Inr ot \<Rightarrow> stringify_args al buf fmt num_args left fmt_idx ot
         })"

text \<open>
  The result is the return value, the allocated size and the text. An unknown command code
  has no table entry: the code then reads the name of a NULL description.
\<close>

definition ipc_stringify_cmd :: "allocator \<Rightarrow> bytes \<Rightarrow> bool \<Rightarrow> (int + (nat \<times> string)) option" where
  "ipc_stringify_cmd al buf is_reply = do {
     cmd \<leftarrow> findCommandDescription (ipc_cmd_get buf);
     case grow al (length (cmd_name cmd) + 5) ((if is_reply then ''[<<'' else ''[>>'') @ cmd_name cmd) of
       Inl rv \<Rightarrow> Some (Inl rv)
     | Inr ot \<Rightarrow> do {
         r \<leftarrow> stringify_args al buf (arg_fmt cmd) (nat (ipc_cmd_num_args buf))
               (nat (ipc_cmd_num_args buf)) 0 ot;
         case r of
           Inl rv \<Rightarrow> Some (Inl rv)
         | Inr (outlen, out) \<Rightarrow> Some (Inr (outlen, out @ '']''))
       }
   }"

lemma grow_Inr [simp]: "grow al n t = Inr (n', t') \<longleftrightarrow> al n \<and> n' = n \<and> t' = t"
  by (auto simp: grow_def)

text \<open>Every argument grows the buffer by exactly what it writes.\<close>

lemma stringify_arg_exact:
  "stringify_arg al buf type i outlen out = Some (Inr (outlen', out')) \<Longrightarrow>
     outlen' + length out = outlen + length out'"
  by (auto simp: stringify_arg_def length_itoa bind_eq_Some_conv
             case_Inr_Some
           split: if_splits)

lemma stringify_args_exact:
  "stringify_args al buf fmt n k fi (outlen, out) = Some (Inr (outlen', out')) \<Longrightarrow>
     outlen' + length out = outlen + length out'"
proof (induction k arbitrary: outlen out)
  case 0
  then show ?case by simp
next
  case (Suc k)
  show ?case
  proof (cases "(if fi < length fmt then fmt ! fi else NUL) = NUL")
    case True
    with Suc.prems show ?thesis by (auto simp: length_itoa Let_def)
  next
    case False
    with Suc.prems obtain o1 t1 where
      1: "stringify_arg al buf (if fi < length fmt then fmt ! fi else NUL) (n - 1 - k) outlen out
            = Some (Inr (o1, t1))"
      "stringify_args al buf fmt n k fi (o1, t1) = Some (Inr (outlen', out'))"
      by (auto simp: Let_def bind_eq_Some_conv case_Inl_Some split: if_splits)
    from stringify_arg_exact [OF 1(1)] Suc.IH [OF 1(2)] show ?thesis by simp
  qed
qed

section \<open>Socket path and device list\<close>

definition ipc_construct_socket_path :: "string \<Rightarrow> string" where
  "ipc_construct_socket_path deviceId = ''/tmp/print3d-'' @ deviceId"

text \<open>The default device of a Linux build.\<close>

definition IPC_DEFAULT_DEVICE_ID :: string where
  "IPC_DEFAULT_DEVICE_ID = ''ttyACM0''"

text \<open>A directory entry: its name and whether it is a character device (\<open>DT_CHR\<close>).\<close>

record dirent =
  d_name :: string
  d_chr :: bool

text \<open>One element of the \<open>malloc\<close>ed array of pointers.\<close>

datatype slot = Uninit | Null | Ptr string

definition device_names :: "string list" where
  "device_names = [''ttyACM'', ''ttyUSB'']"

definition name_matches :: "dirent \<Rightarrow> string \<Rightarrow> bool" where
  "name_matches ent name \<longleftrightarrow> d_chr ent \<and> take (length name) (d_name ent) = name"

text \<open>
  Storing one name: the array grows by one uninitialised element when the position after the
  next one would not fit.
\<close>

definition push_device :: "string \<Rightarrow> slot list \<times> nat \<Rightarrow> slot list \<times> nat" where
  "push_device name st =
     (let (result, pos) = st;
          result = (if pos + 1 \<ge> length result then result @ [Uninit] else result)
      in (result[pos := Ptr name], pos + 1))"

definition scan_dirent :: "dirent \<Rightarrow> slot list \<times> nat \<Rightarrow> slot list \<times> nat" where
  "scan_dirent ent st =
     fold (\<lambda>name st. if name_matches ent name then push_device (d_name ent) st else st) device_names st"

text \<open>\<open>None\<close> is the NULL of a directory that cannot be opened.\<close>

definition ipc_find_devices :: "dirent list option \<Rightarrow> slot list option" where
  "ipc_find_devices dir =
     (case dir of
        None \<Rightarrow> None
      | Some ents \<Rightarrow> Some (fst (fold scan_dirent ents ([Null, Null, Null], 0))))"

text \<open>
  The loops over a device list, \<open>for (i = 0; list[i] != NULL; i++)\<close>: what they visit, or
  undefined behaviour where they read an uninitialised element or leave the array.
\<close>

fun visit_devices :: "slot list \<Rightarrow> string list option" where
  "visit_devices [] = None"
| "visit_devices (Uninit # r) = None"
| "visit_devices (Null # r) = Some []"
| "visit_devices (Ptr s # r) = map_option ((#) s) (visit_devices r)"

text \<open>The freed names are those a visit meets.\<close>

definition ipc_free_device_list :: "slot list option \<Rightarrow> string list option" where
  "ipc_free_device_list l = (case l of None \<Rightarrow> Some [] | Some r \<Rightarrow> visit_devices r)"

definition device_entries :: "dirent list \<Rightarrow> string list" where
  "device_entries ents =
     map d_name (filter (\<lambda>e. \<exists>n \<in> set device_names. name_matches e n) ents)"

lemma scan_dirent_eq:
  "scan_dirent e st = (if \<exists>n \<in> set device_names. name_matches e n then push_device (d_name e) st else st)"
  by (auto simp: scan_dirent_def device_names_def name_matches_def)

lemma fold_scan_eq:
  "fold scan_dirent ents st = fold push_device (device_entries ents) st"
  by (induction ents arbitrary: st) (auto simp: device_entries_def scan_dirent_eq)

text \<open>The array after \<open>n\<close> names: full of names, with what follows them.\<close>

lemma push_devices_small:
  "length ns \<le> 2 \<Longrightarrow> fst (fold push_device ns ([Null, Null, Null], 0)) =
     map Ptr ns @ replicate (3 - length ns) Null"
  by (cases ns; cases "tl ns"; cases "tl (tl ns)")
     (auto simp: push_device_def numeral_2_eq_2 numeral_3_eq_3)

lemma push_devices_large:
  "fold push_device ns (map Ptr ms @ [Uninit], length ms) =
     (map Ptr (ms @ ns) @ [Uninit], length (ms @ ns))"
proof (induction ns arbitrary: ms)
  case (Cons n ns)
  have "push_device n (map Ptr ms @ [Uninit], length ms) = (map Ptr (ms @ [n]) @ [Uninit], length (ms @ [n]))"
    by (simp add: push_device_def list_update_append)
  with Cons [of "ms @ [n]"] show ?case by simp
qed simp

lemma push_devices_three:
  "fold push_device (a # b # c # ns) ([Null, Null, Null], 0) =
     (map Ptr (a # b # c # ns) @ [Uninit], length (a # b # c # ns))"
proof -
  have "fold push_device [a, b, c] ([Null, Null, Null], 0) = (map Ptr [a, b, c] @ [Uninit], length [a, b, c])"
    by (simp add: push_device_def numeral_2_eq_2 numeral_3_eq_3)
  then have "fold push_device ([a, b, c] @ ns) ([Null, Null, Null], 0) =
      fold push_device ns (map Ptr [a, b, c] @ [Uninit], length [a, b, c])"
    by (simp only: fold_append comp_apply)
  also have "\<dots> = (map Ptr ([a, b, c] @ ns) @ [Uninit], length ([a, b, c] @ ns))"
    by (rule push_devices_large)
  finally show ?thesis by simp
qed

lemma visit_Ptrs: "visit_devices (map Ptr ns @ r) = map_option ((@) ns) (visit_devices r)"
  by (induction ns) (auto simp: option.map_comp comp_def option.map_ident)

section \<open>Properties\<close>

text \<open>Whenever the textual form of a command is produced, the memory allocated for it is
  exactly its length and the terminating NUL: no write of \<open>ipc_stringify_cmd\<close> passes
  the end of the buffer and none is wasted.\<close>

theorem stringify_exact_size:
  assumes "ipc_stringify_cmd al buf is_reply = Some (Inr (outlen, out))"
  shows "outlen = length out + 1"
  using assms
  by (auto simp: ipc_stringify_cmd_def bind_eq_Some_conv case_Inl_Some split: sum.splits if_splits
      dest!: stringify_args_exact)

theorem stringify_exact_size_witness:
  "ipc_stringify_cmd (\<lambda>n. True) [CHR 0x00, CHR 0x19, CHR 0x00, CHR 0x00] False =
     Some (Inr (13, ''[>>getState]'')) \<and> (13::nat) = length ''[>>getState]'' + 1"
proof -
  have "ipc_stringify_cmd (\<lambda>n. True) [CHR 0x00, CHR 0x19, CHR 0x00, CHR 0x00] False =
     Some (Inr (13, ''[>>getState]''))" by code_simp
  from this stringify_exact_size [OF this] show ?thesis by simp
qed

text \<open>The device list of \<open>ipc_find_devices\<close> holds exactly the character devices
  whose names start with ttyACM or ttyUSB, in the order of the directory, if there are at most
  two; with three or more the array has no terminating NULL, and every loop over it (the one that
  frees it, too) reads an uninitialised pointer.\<close>

theorem find_devices_terminated_iff_few:
  "ipc_free_device_list (ipc_find_devices (Some ents)) =
     (if length (device_entries ents) \<le> 2 then Some (device_entries ents) else None)"
proof (cases "length (device_entries ents) \<le> 2")
  case True
  moreover from True have "replicate (3 - length (device_entries ents)) Null \<noteq> []" by simp
  then obtain r where "replicate (3 - length (device_entries ents)) Null = Null # r"
    by (cases "3 - length (device_entries ents)") auto
  ultimately show ?thesis
    by (simp add: ipc_free_device_list_def ipc_find_devices_def fold_scan_eq push_devices_small visit_Ptrs)
next
  case False
  then obtain a b c ns where "device_entries ents = a # b # c # ns"
    by (cases "device_entries ents"; cases "tl (device_entries ents)"; cases "tl (tl (device_entries ents))") auto
  then show ?thesis
    using push_devices_three [of a b c ns] visit_Ptrs [of "a # b # c # ns" "[Uninit]"]
    by (simp add: ipc_free_device_list_def ipc_find_devices_def fold_scan_eq)
qed

end
