(* ===== verification/GCodeClean.thy ===== *)
theory GCodeClean
  imports Prelude
begin

text \<open>
  The text cleaning of the g-code buffer (\<open>GCodeBuffer::cleanupGCode\<close> in
  \<open>src/src/drivers/GCodeBuffer.cpp\<close>): carriage returns become newlines, comments and
  empty lines go, and the text ends with a newline. The code works in place from a position of a
  bucket on; the specification \<open>gcode_lines\<close> says which lines a piece of g-code stands
  for, and the main lemma that cleaning a bucket of whole lines with the piece appended gives the
  bucket with those lines appended.
\<close>

section \<open>The code\<close>

definition cr_to_nl :: "char \<Rightarrow> char" where
  "cr_to_nl c = (if c = CR then NL else c)"

lemma erase_comment_shorter:
  assumes "find_char (CHR '';'') b pc = Some p"
  shows "length (case find_char NL b p of None \<Rightarrow> take p b | Some e \<Rightarrow> take p b @ drop e b) < length b"
proof (cases "find_char NL b p")
  case None
  with find_char_Some(2) [OF assms] show ?thesis by simp
next
  case (Some e)
  note p = find_char_Some(2,3) [OF assms]
  note e = find_char_Some(1-3) [OF Some]
  have "e \<noteq> p" using p e by auto
  with p e Some show ?thesis by simp
qed

text \<open>
  The comment loop. Its second result says that the buffer became empty, which makes the caller
  return at once.
\<close>

function strip_comments :: "bool \<Rightarrow> nat \<Rightarrow> string \<Rightarrow> nat \<Rightarrow> string \<times> bool" where
  "strip_comments keep pos b posComment =
     (case find_char (CHR '';'') b posComment of
        None \<Rightarrow> (b, False)
      | Some p \<Rightarrow>
          if keep \<and> p + 1 < length b \<and> b ! (p + 1) = CHR ''@''
          then strip_comments keep pos b (p + 1)
          else let b' = (case find_char NL b p of
                           None \<Rightarrow> take p b
                         | Some e \<Rightarrow> take p b @ drop e b)
               in if b' = [] then (b', True) else strip_comments keep pos b' pos)"
  by pat_completeness auto

termination
  by (relation "measures [\<lambda>(k, pos, b, pc). length b, \<lambda>(k, pos, b, pc). length b - pc]")
     (auto dest: find_char_Some(1,2) erase_comment_shorter)

declare strip_comments.simps [simp del]

lemma find_str_Some:
  assumes "find_str sub b p = Some i"
  shows "p \<le> i" "i \<le> length b" "take (length sub) (drop i b) = sub"
proof -
  from assms obtain j where j: "i = p + j" "find_prefix sub (drop p b) = Some j" "p \<le> length b"
    by (auto simp: find_str_def split: if_splits)
  from find_prefix_Some [OF j(2)] j show "p \<le> i" "i \<le> length b" "take (length sub) (drop i b) = sub"
    by (auto simp: add.commute)
qed

function collapse_nl :: "string \<Rightarrow> nat \<Rightarrow> string" where
  "collapse_nl b p =
     (case find_str [NL, NL] b p of
        None \<Rightarrow> b
      | Some i \<Rightarrow> collapse_nl (take i b @ [NL] @ drop (i + 2) b) i)"
  by pat_completeness auto

termination
proof (relation "measure (\<lambda>(b, p). length b)")
  fix b p i assume "find_str [NL, NL] b p = Some i"
  from arg_cong [OF find_str_Some(3) [OF this], of length]
  have "i + 2 \<le> length b" by (simp add: min_def split: if_splits)
  then show "((take i b @ [NL] @ drop (i + 2) b, i), b, p) \<in> measure (\<lambda>(b, p). length b)" by simp
qed simp

declare collapse_nl.simps [simp del]

text \<open>The result is the bucket and the buffer's byte count \<open>bufferSize_\<close>.\<close>

definition cleanupGCode :: "bool \<Rightarrow> string \<Rightarrow> nat \<Rightarrow> int \<Rightarrow> string \<times> int" where
  "cleanupGCode keep b pos bufferSize =
     (let buflen = length b;
          b1 = take pos b @ map cr_to_nl (drop pos b);
          (b2, returned) = strip_comments keep pos b1 pos
      in if returned then (b2, bufferSize)
         else
           let b3 = collapse_nl b2 (if pos > 0 then pos - 1 else pos);
               b4 = (case b3 of c # r \<Rightarrow> if c = NL then r else b3 | [] \<Rightarrow> b3);
               b5 = (if b4 \<noteq> [] \<and> last b4 \<noteq> NL then b4 @ [NL] else b4)
           in (b5, bufferSize - (int buflen - int (length b5))))"

section \<open>The specification\<close>

text \<open>
  Removing comments in one pass: from a semicolon up to the end of its line, unless macro comments
  are kept and an at sign follows.
\<close>

definition macro_at :: "bool \<Rightarrow> string \<Rightarrow> bool" where
  "macro_at keep r \<longleftrightarrow> keep \<and> (case r of c # _ \<Rightarrow> c = CHR ''@'' | [] \<Rightarrow> False)"

abbreviation (input) to_nl :: "string \<Rightarrow> string" where
  "to_nl r \<equiv> dropWhile (\<lambda>x. x \<noteq> NL) r"

function uncomment :: "bool \<Rightarrow> string \<Rightarrow> string" where
  "uncomment keep [] = []"
| "uncomment keep (c # cs) =
     (if c = CHR '';'' \<and> \<not> macro_at keep cs then uncomment keep (to_nl cs) else c # uncomment keep cs)"
  by pat_completeness auto
termination
  by (relation "measure (\<lambda>(k, s). length s)") (auto simp: le_imp_less_Suc length_dropWhile_le)

text \<open>The lines a piece of g-code stands for.\<close>

definition gcode_lines :: "bool \<Rightarrow> string \<Rightarrow> string list" where
  "gcode_lines keep s = text_lines (uncomment keep (map cr_to_nl s))"

lemma not_macro_to_nl: "\<not> macro_at keep (to_nl v)"
  by (induction v) (auto simp: macro_at_def)

lemma uncomment_erase:
  "\<not> macro_at keep v \<Longrightarrow> uncomment keep (u @ CHR '';'' # v) = uncomment keep (u @ to_nl v)"
proof (induction u rule: length_induct)
  case (1 u)
  show ?case
  proof (cases u)
    case Nil
    with "1.prems" show ?thesis by simp
  next
    case (Cons c u')
    have m: "macro_at keep (u' @ CHR '';'' # v) = macro_at keep (u' @ to_nl v)"
      using not_macro_to_nl [of keep v] by (cases u') (simp_all add: macro_at_def)
    show ?thesis
    proof (cases "c = CHR '';'' \<and> \<not> macro_at keep (u' @ CHR '';'' # v)")
      case False
      with "1" Cons m show ?thesis by auto
    next
      case True
      show ?thesis
      proof (cases "NL \<in> set u'")
        case nl: True
        then have "to_nl (u' @ w) = to_nl u' @ w" for w
          by (induction u') auto
        moreover have "length (to_nl u') < length u"
          using Cons length_dropWhile_le [of "\<lambda>x. x \<noteq> NL" u'] by simp
        ultimately show ?thesis
          using True "1" m Cons by simp
      next
        case False
        then have "to_nl (u' @ w) = to_nl w" for w
          by (induction u') auto
        with True m Cons show ?thesis by simp
      qed
    qed
  qed
qed

lemma uncomment_id:
  "\<forall>i < length s. s ! i = CHR '';'' \<longrightarrow> macro_at keep (drop (Suc i) s) \<Longrightarrow> uncomment keep s = s"
proof (induction s)
  case (Cons c s)
  have "\<forall>i < length s. s ! i = CHR '';'' \<longrightarrow> macro_at keep (drop (Suc i) s)"
  proof (intro allI impI)
    fix i assume "i < length s" "s ! i = CHR '';''"
    with Cons.prems [rule_format, of "Suc i"] show "macro_at keep (drop (Suc i) s)" by simp
  qed
  with Cons.IH Cons.prems [rule_format, of 0] show ?case by auto
qed simp

lemma uncomment_split:
  "uncomment keep (u @ NL # v) = uncomment keep (u @ [NL]) @ uncomment keep v"
proof (induction u rule: length_induct)
  case (1 u)
  show ?case
  proof (cases u)
    case (Cons c u')
    have m: "macro_at keep (u' @ NL # v) = macro_at keep (u' @ [NL])"
      by (cases u') (auto simp: macro_at_def)
    show ?thesis
    proof (cases "c = CHR '';'' \<and> \<not> macro_at keep (u' @ [NL])")
      case True
      show ?thesis
      proof (cases "NL \<in> set u'")
        case nl: True
        then have "to_nl (u' @ w) = to_nl u' @ w" for w
          by (induction u') auto
        moreover have "length (to_nl u') < length u"
          using Cons length_dropWhile_le [of "\<lambda>x. x \<noteq> NL" u'] by simp
        ultimately show ?thesis using True "1" m Cons by simp
      next
        case False
        then have "to_nl (u' @ NL # w) = NL # w" for w
          by (induction u') auto
        with True m Cons show ?thesis by simp
      qed
    next
      case False
      with "1" m Cons show ?thesis by auto
    qed
  qed simp
qed

lemma last_uncomment: "uncomment keep (u @ [NL]) \<noteq> [] \<and> last (uncomment keep (u @ [NL])) = NL"
proof (induction u rule: length_induct)
  case (1 u)
  show ?case
  proof (cases u)
    case (Cons c u')
    show ?thesis
    proof (cases "NL \<in> set u'")
      case True
      then have "to_nl (u' @ [NL]) = to_nl u' @ [NL]" by (induction u') auto
      moreover have "length (to_nl u') < length u"
        using Cons length_dropWhile_le [of "\<lambda>x. x \<noteq> NL" u'] by simp
      ultimately show ?thesis using "1" Cons by auto
    next
      case False
      then have "to_nl (u' @ [NL]) = [NL]" by (induction u') auto
      with "1" Cons show ?thesis by auto
    qed
  qed simp
qed

text \<open>The lines of a text that is split behind a newline.\<close>

lemma gcode_lines_append:
  assumes "u \<noteq> []" "last u = NL"
  shows "gcode_lines keep (u @ v) = gcode_lines keep u @ gcode_lines keep v"
proof -
  from assms obtain w where u: "u = w @ [NL]" by (metis append_butlast_last_id)
  have "map cr_to_nl (u @ v) = map cr_to_nl w @ NL # map cr_to_nl v"
    "map cr_to_nl u = map cr_to_nl w @ [NL]"
    by (simp_all add: u cr_to_nl_def)
  then show ?thesis
    unfolding gcode_lines_def
    by (metis last_uncomment text_lines_append uncomment_split)
qed

lemma gcode_lines_Nil [simp]: "gcode_lines keep [] = []"
  by (simp add: gcode_lines_def)

lemma gcode_lines_is_line [simp]: "l \<in> set (gcode_lines keep s) \<Longrightarrow> is_line l"
  by (simp add: gcode_lines_def)

section \<open>The code meets the specification\<close>

lemma to_nl_index:
  "to_nl s = (case index_of ((=) NL) s of None \<Rightarrow> [] | Some i \<Rightarrow> drop i s)"
  by (induction s) (auto split: option.splits)

lemma erase_to_nl:
  assumes "p < length b" "b ! p = CHR '';''"
  shows "(case find_char NL b p of None \<Rightarrow> take p b | Some e \<Rightarrow> take p b @ drop e b)
           = take p b @ to_nl (drop (Suc p) b)"
proof -
  have "drop p b = CHR '';'' # drop (Suc p) b" using assms by (metis Cons_nth_drop_Suc)
  then have "to_nl (drop (Suc p) b) = to_nl (drop p b)" by simp
  then show ?thesis
    by (auto simp: find_char_def to_nl_index add.commute split: option.splits)
qed

lemma strip_comments_erase:
  assumes "find_char (CHR '';'') b pc = Some p"
    "\<not> (keep \<and> p + 1 < length b \<and> b ! (p + 1) = CHR ''@'')"
    "b' = (case find_char NL b p of None \<Rightarrow> take p b | Some e \<Rightarrow> take p b @ drop e b)"
  shows "strip_comments keep pos b pc = (if b' = [] then (b', True) else strip_comments keep pos b' pos)"
  by (subst strip_comments.simps) (simp only: assms option.case if_False Let_def)

lemma strip_comments_uncomment:
  assumes "pos \<le> pc" "pos \<le> length b"
    and "\<forall>i. pos \<le> i \<and> i < pc \<and> i < length b \<and> b ! i = CHR '';'' \<longrightarrow> macro_at keep (drop (Suc i) b)"
  shows "fst (strip_comments keep pos b pc) = take pos b @ uncomment keep (drop pos b)"
  using assms
proof (induction keep pos b pc rule: strip_comments.induct)
  case (1 keep pos b pc)
  show ?case
  proof (cases "find_char (CHR '';'') b pc")
    case None
    have "uncomment keep (drop pos b) = drop pos b"
    proof (rule uncomment_id, intro allI impI)
      fix i assume i: "i < length (drop pos b)" "drop pos b ! i = CHR '';''"
      have "\<not> pc \<le> pos + i"
      proof
        assume "pc \<le> pos + i"
        then have "b ! (pos + i) \<in> set (drop pc b)"
          using i(1) by (intro nth_in_set_drop) auto
        with None i show False by (auto simp: find_char_None)
      qed
      with "1.prems"(3) i show "macro_at keep (drop (Suc i) (drop pos b))"
        by (auto simp: add.commute)
    qed
    with None show ?thesis by (simp add: strip_comments.simps [of keep pos b pc])
  next
    case (Some p)
    note p = find_char_Some [OF Some]
    have macro: "macro_at keep (drop (Suc p) b) \<longleftrightarrow> keep \<and> p + 1 < length b \<and> b ! (p + 1) = CHR ''@''"
      by (cases "p + 1 < length b") (auto simp: macro_at_def Cons_nth_drop_Suc [symmetric])
    show ?thesis
    proof (cases "keep \<and> p + 1 < length b \<and> b ! (p + 1) = CHR ''@''")
      case True
      have "\<forall>i. pos \<le> i \<and> i < p + 1 \<and> i < length b \<and> b ! i = CHR '';'' \<longrightarrow> macro_at keep (drop (Suc i) b)"
      proof (intro allI impI)
        fix i assume i: "pos \<le> i \<and> i < p + 1 \<and> i < length b \<and> b ! i = CHR '';''"
        then consider "i < pc" | "pc \<le> i" "i < p" | "i = p" by linarith
        then show "macro_at keep (drop (Suc i) b)"
          using i "1.prems"(3) p(4) True macro by cases auto
      qed
      with "1.IH"(1) [OF Some True] "1.prems" p(1)
      have "fst (strip_comments keep pos b (p + 1)) = take pos b @ uncomment keep (drop pos b)" by simp
      moreover have "strip_comments keep pos b pc = strip_comments keep pos b (p + 1)"
        using Some True by (subst strip_comments.simps) simp
      ultimately show ?thesis by simp
    next
      case False
      let ?b = "case find_char NL b p of None \<Rightarrow> take p b | Some e \<Rightarrow> take p b @ drop e b"
      have "pos \<le> p" using "1.prems"(1) p(1) by simp
      have b: "b = take p b @ CHR '';'' # drop (Suc p) b"
        using p(2,3) by (metis id_take_nth_drop)
      have nl: "?b = take p b @ to_nl (drop (Suc p) b)"
        by (rule erase_to_nl [OF p(2,3)])
      have eq: "take pos ?b = take pos b" "drop pos ?b = drop pos (take p b) @ to_nl (drop (Suc p) b)"
        using \<open>pos \<le> p\<close> p(2) by (simp_all add: nl)
      have "drop pos b = drop pos (take p b) @ CHR '';'' # drop (Suc p) b"
        using \<open>pos \<le> p\<close> p(2) b by (metis drop_append length_take min.absorb4 diff_is_0_eq drop_0)
      then have u: "uncomment keep (drop pos b) = uncomment keep (drop pos ?b)"
        using False macro by (simp add: eq uncomment_erase)
      show ?thesis
      proof (cases "?b = []")
        case True
        with strip_comments_erase [OF Some False refl, of pos]
        have "strip_comments keep pos b pc = ([], True)" by simp
        moreover have "take pos b = []" using eq(1) True by simp
        ultimately show ?thesis unfolding u True by simp
      next
        case ne: False
        have len: "pos \<le> length ?b" using \<open>pos \<le> p\<close> p(2) by (simp add: nl)
        have none: "\<forall>i. pos \<le> i \<and> i < pos \<and> i < length ?b \<and> ?b ! i = CHR '';'' \<longrightarrow>
            macro_at keep (drop (Suc i) ?b)" by auto
        note IH = "1.IH"(2) [OF Some False refl ne order_refl len none]
        with strip_comments_erase [OF Some False refl, of pos] ne u eq(1) IH show ?thesis by simp
      qed
    qed
  qed
qed

text \<open>The early return is taken exactly when a nonempty buffer becomes empty.\<close>

lemma strip_comments_returned:
  "snd (strip_comments keep pos b pc) \<longleftrightarrow> b \<noteq> [] \<and> fst (strip_comments keep pos b pc) = []"
proof (induction keep pos b pc rule: strip_comments.induct)
  case (1 keep pos b pc)
  show ?case
  proof (cases "find_char (CHR '';'') b pc")
    case None
    then show ?thesis by (simp add: strip_comments.simps [of keep pos b pc])
  next
    case (Some p)
    have ne: "b \<noteq> []" using find_char_Some(2) [OF Some] by auto
    show ?thesis
    proof (cases "keep \<and> p + 1 < length b \<and> b ! (p + 1) = CHR ''@''")
      case True
      have "strip_comments keep pos b pc = strip_comments keep pos b (p + 1)"
        using Some True by (subst strip_comments.simps) simp
      with "1.IH"(1) [OF Some True] show ?thesis by simp
    next
      case False
      let ?b = "case find_char NL b p of None \<Rightarrow> take p b | Some e \<Rightarrow> take p b @ drop e b"
      show ?thesis
      proof (cases "?b = []")
        case True
        with strip_comments_erase [OF Some False refl, of pos] ne show ?thesis by simp
      next
        case b: False
        from "1.IH"(2) [OF Some False refl b] b ne show ?thesis
          by (simp only: strip_comments_erase [OF Some False refl, of pos] if_False)
      qed
    qed
  qed
qed


fun squeeze :: "string \<Rightarrow> string" where
  "squeeze [] = []"
| "squeeze (c # cs) = (if take 2 (c # cs) = [NL, NL] then squeeze cs else c # squeeze cs)"

lemma squeeze_NL_NL [simp]: "squeeze (NL # NL # s) = squeeze (NL # s)"
  by (simp add: numeral_2_eq_2)

lemma squeeze_NL_other [simp]: "c \<noteq> NL \<Longrightarrow> squeeze (NL # c # s) = NL # squeeze (c # s)"
  by (simp add: numeral_2_eq_2)

lemma squeeze_other [simp]: "c \<noteq> NL \<Longrightarrow> squeeze (c # s) = c # squeeze s"
  by (simp add: numeral_2_eq_2)

lemma squeeze_single [simp]: "squeeze [NL] = [NL]"
  by simp

lemmas squeeze_step = squeeze.simps(2)
declare squeeze.simps(2) [simp del]

lemma squeeze_none: "find_prefix [NL, NL] s = None \<Longrightarrow> squeeze s = s"
  by (induction s) (auto split: if_splits simp: squeeze_step numeral_2_eq_2)

lemma squeeze_some:
  "find_prefix [NL, NL] s = Some j \<Longrightarrow> squeeze s = take j s @ squeeze (NL # drop (j + 2) s)"
proof (induction s arbitrary: j)
  case (Cons c s)
  show ?case
  proof (cases "take 2 (c # s) = [NL, NL]")
    case True
    with Cons.prems have "j = 0" by (simp add: numeral_2_eq_2)
    moreover from True obtain r where "s = NL # r" "c = NL"
      by (cases s) (auto simp: numeral_2_eq_2)
    ultimately show ?thesis by simp
  next
    case False
    with Cons.prems obtain k where "j = Suc k" "find_prefix [NL, NL] s = Some k"
      by (auto simp: numeral_2_eq_2)
    with False Cons.IH show ?thesis by (simp add: squeeze_step [of c s])
  qed
qed simp

lemma collapse_nl_squeeze:
  "p \<le> length b \<Longrightarrow> collapse_nl b p = take p b @ squeeze (drop p b)"
proof (induction b p rule: collapse_nl.induct)
  case (1 b p)
  show ?case
  proof (cases "find_str [NL, NL] b p")
    case None
    with "1.prems" have "find_prefix [NL, NL] (drop p b) = None" by (simp add: find_str_def)
    with None show ?thesis by (simp add: collapse_nl.simps [of b p] squeeze_none)
  next
    case (Some i)
    let ?b = "take i b @ [NL] @ drop (i + 2) b"
    from Some obtain j where j: "i = p + j" "find_prefix [NL, NL] (drop p b) = Some j"
      using "1.prems" by (auto simp: find_str_def)
    have i: "i \<le> length b" by (rule find_str_Some(2) [OF Some])
    have "collapse_nl b p = collapse_nl ?b i"
      using Some by (subst collapse_nl.simps) simp
    also have "\<dots> = take i b @ squeeze (NL # drop (i + 2) b)"
      using "1.IH" [OF Some] i by simp
    also have "\<dots> = take p b @ squeeze (drop p b)"
    proof -
      have "take i b = take p b @ take j (drop p b)" by (simp only: j(1) take_add)
      moreover have "drop (j + 2) (drop p b) = drop (i + 2) b" by (simp add: j(1) add.commute)
      ultimately show ?thesis by (simp only: squeeze_some [OF j(2)] append_assoc)
    qed
    finally show ?thesis .
  qed
qed

text \<open>Squeezed text with its final newline, against the lines of the text.\<close>

definition end_nl :: "string \<Rightarrow> string" where
  "end_nl s = (if s \<noteq> [] \<and> last s \<noteq> NL then s @ [NL] else s)"

lemma end_nl_append: "v \<noteq> [] \<Longrightarrow> end_nl (u @ v) = u @ end_nl v"
  by (simp add: end_nl_def)

lemma squeeze_NL: "\<exists>y. squeeze (NL # s) = NL # y"
proof (induction s)
  case (Cons c s)
  then show ?case by (cases "c = NL") auto
qed simp

lemma squeeze_ne: "s \<noteq> [] \<Longrightarrow> squeeze s \<noteq> []"
proof (cases s)
  case (Cons c r)
  then show ?thesis using squeeze_NL [of r] by (cases "c = NL") auto
qed simp

lemma squeeze_lines:
  "NL \<notin> set acc \<Longrightarrow> acc \<noteq> [] \<Longrightarrow> end_nl (acc @ squeeze s) = unlines (lines_acc acc s)"
  "end_nl (squeeze (NL # s)) = NL # unlines (lines_acc [] s)"
proof (induction s arbitrary: acc)
  case Nil
  case 1
  then have "last acc \<noteq> NL" by (metis last_in_set)
  with 1 show ?case by (simp add: end_nl_def)
next
  case Nil
  case 2
  show ?case by (simp add: end_nl_def)
next
  case (Cons c s)
  case 1
  show ?case
  proof (cases "c = NL")
    case True
    have "end_nl (acc @ squeeze (NL # s)) = acc @ end_nl (squeeze (NL # s))"
      by (intro end_nl_append squeeze_ne) simp
    with True 1 Cons.IH(2) show ?thesis by simp
  next
    case False
    then have "acc @ squeeze (c # s) = (acc @ [c]) @ squeeze s" by simp
    with False 1 Cons.IH(1) [of "acc @ [c]"] show ?thesis by simp
  qed
next
  case (Cons c s)
  case 2
  show ?case
  proof (cases "c = NL")
    case True
    with Cons.IH(2) show ?thesis by simp
  next
    case False
    then have "end_nl (squeeze (NL # c # s)) = [NL] @ end_nl ([c] @ squeeze s)"
      by (simp add: end_nl_def)
    with False Cons.IH(1) [of "[c]"] show ?thesis by simp
  qed
qed

definition drop_nl :: "string \<Rightarrow> string" where
  "drop_nl s = (case s of c # r \<Rightarrow> if c = NL then r else s | [] \<Rightarrow> s)"

lemma drop_nl_squeeze: "end_nl (drop_nl (squeeze s)) = unlines (text_lines s)"
proof (cases s)
  case (Cons c r)
  show ?thesis
  proof (cases "c = NL")
    case True
    obtain y where y: "squeeze (NL # r) = NL # y" using squeeze_NL by blast
    have "end_nl (NL # y) = NL # end_nl y" by (cases y) (auto simp: end_nl_def)
    with squeeze_lines(2) [of r] have "end_nl y = unlines (lines_acc [] r)" by (simp add: y)
    with True Cons y show ?thesis by (simp add: drop_nl_def text_lines_def)
  next
    case False
    then have "squeeze s = [c] @ squeeze r" by (simp add: Cons)
    with False Cons squeeze_lines(1) [of "[c]" r] show ?thesis
      by (simp add: drop_nl_def text_lines_def)
  qed
qed (simp add: drop_nl_def end_nl_def)

section \<open>Cleaning a bucket\<close>

text \<open>
  A bucket of whole lines with a piece of g-code appended becomes the bucket with the lines of the
  piece appended.
\<close>

lemma cleanupGCode_lines:
  assumes ls: "\<forall>l \<in> set ls. is_line l"
  shows "fst (cleanupGCode keep (unlines ls @ s) (length (unlines ls)) bs) = unlines (ls @ gcode_lines keep s)"
proof -
  let ?old = "unlines ls" and ?x = "uncomment keep (map cr_to_nl s)"
  let ?pos = "length ?old"
  let ?sc = "strip_comments keep ?pos (?old @ map cr_to_nl s) ?pos"
  have b2: "fst ?sc = ?old @ ?x"
    by (subst strip_comments_uncomment) auto
  show ?thesis
  proof (cases "snd ?sc")
    case True
    then have e: "?old @ ?x = []" using strip_comments_returned b2 by metis
    have "fst (cleanupGCode keep (?old @ s) ?pos bs) = fst ?sc"
      using True by (simp add: cleanupGCode_def Let_def split_beta)
    with b2 e show ?thesis by (simp add: gcode_lines_def)
  next
    case False
    let ?b3 = "collapse_nl (?old @ ?x) (if ?pos > 0 then ?pos - 1 else ?pos)"
    have b5: "fst (cleanupGCode keep (?old @ s) ?pos bs) = end_nl (drop_nl ?b3)"
      using False b2 by (simp add: cleanupGCode_def Let_def split_beta end_nl_def drop_nl_def)
    show ?thesis
    proof (cases "ls = []")
      case True
      then show ?thesis
        unfolding b5 by (simp add: collapse_nl_squeeze drop_nl_squeeze gcode_lines_def)
    next
      case ne: False
      then obtain u where u: "?old = u @ [NL]"
        by (metis append_butlast_last_id last_unlines unlines_eq_Nil)
      have "?b3 = u @ squeeze (NL # ?x)"
        by (simp add: u collapse_nl_squeeze)
      moreover have "drop_nl (u @ squeeze (NL # ?x)) = u @ squeeze (NL # ?x)"
      proof -
        have "hd (unlines ls) \<noteq> NL" using ne ls by (intro hd_unlines) auto
        then have "u \<noteq> [] \<and> hd u \<noteq> NL" using u by (cases u) auto
        then show ?thesis by (cases u) (auto simp: drop_nl_def)
      qed
      moreover have "end_nl (u @ squeeze (NL # ?x)) = u @ NL # unlines (lines_acc [] ?x)"
        by (simp only: end_nl_append squeeze_ne squeeze_lines(2) list.distinct not_False_eq_True)
      ultimately show ?thesis unfolding b5
        by (simp add: gcode_lines_def text_lines_def u)
    qed
  qed
qed

text \<open>
  The byte count follows the text, but for a piece that cleaning takes away altogether from an
  empty bucket by removing comments: then the count is left as it was.
\<close>

definition vanishes :: "bool \<Rightarrow> string \<Rightarrow> bool" where
  "vanishes keep s \<longleftrightarrow> s \<noteq> [] \<and> uncomment keep (map cr_to_nl s) = []"

lemma uncomment_Nil_no_NL: "uncomment keep s = [] \<Longrightarrow> NL \<notin> set s"
proof (induction keep s rule: uncomment.induct)
  case (2 keep c cs)
  then have c: "c = CHR '';'' \<and> \<not> macro_at keep cs" by (auto split: if_splits)
  with 2 have "NL \<notin> set (to_nl cs)" by simp
  then have "NL \<notin> set cs" by (induction cs) (auto split: if_splits)
  then show ?case using c by simp
qed simp

lemma vanishes_no_NL: "vanishes keep s \<Longrightarrow> NL \<notin> set s"
  using uncomment_Nil_no_NL [of keep "map cr_to_nl s"] by (force simp: vanishes_def cr_to_nl_def)

lemma cleanupGCode_size:
  assumes ls: "\<forall>l \<in> set ls. is_line l"
  shows "snd (cleanupGCode keep (unlines ls @ s) (length (unlines ls)) bs) =
    (if ls = [] \<and> vanishes keep s then bs
     else bs - int (length s) + int (length (unlines (gcode_lines keep s))))"
proof -
  let ?old = "unlines ls" and ?x = "uncomment keep (map cr_to_nl s)"
  let ?pos = "length ?old"
  let ?sc = "strip_comments keep ?pos (?old @ map cr_to_nl s) ?pos"
  let ?r = "cleanupGCode keep (?old @ s) ?pos bs"
  have b2: "fst ?sc = ?old @ ?x"
    by (subst strip_comments_uncomment) auto
  have ret: "snd ?sc \<longleftrightarrow> ls = [] \<and> vanishes keep s"
    by (auto simp: strip_comments_returned b2 vanishes_def)
  have "snd ?r = (if snd ?sc then bs else bs - (int (length (?old @ s)) - int (length (fst ?r))))"
    by (auto simp: cleanupGCode_def Let_def split_beta)
  then show ?thesis
    unfolding cleanupGCode_lines [OF ls] ret by simp
qed

section \<open>Properties\<close>

text \<open>C25: Cleaning a bucket that holds the lines \<open>ls\<close> and the bytes \<open>s\<close>
  behind them, from the end of the lines on, gives the bucket of these lines and the lines of
  \<open>s\<close>: the in-place loops of \<open>cleanupGCode\<close> compute what the one-pass
  definition does. The byte counter grows or shrinks by what the text did, except that it keeps the
  bytes of a piece that vanishes from an otherwise empty bucket.\<close>

theorem cleanup_meets_specification:
  assumes "\<forall>l \<in> set ls. is_line l"
  shows "cleanupGCode keep (unlines ls @ s) (length (unlines ls)) bs =
    (unlines (ls @ gcode_lines keep s),
     if ls = [] \<and> vanishes keep s then bs
     else bs - int (length s) + int (length (unlines (gcode_lines keep s))))"
  by (rule prod_eqI) (simp_all only: fst_conv snd_conv cleanupGCode_lines [OF assms] cleanupGCode_size [OF assms])

theorem cleanup_meets_specification_witness:
  "cleanupGCode True (unlines [''G28''] @ ''G1;c\<newline>\<newline>M1;@x;y'') 4 100 =
     (unlines [''G28'', ''G1'', ''M1;@x''], 96)"
proof -
  have l: "\<forall>l \<in> set [''G28'']. is_line l" by (simp add: is_line_def)
  have "gcode_lines True ''G1;c\<newline>\<newline>M1;@x;y'' = [''G1'', ''M1;@x'']" by code_simp
  moreover have n: "4 = length (unlines [''G28''])" by simp
  ultimately show ?thesis
    unfolding n
    using cleanup_meets_specification [OF l, of True "''G1;c\<newline>\<newline>M1;@x;y''" 100] by simp
qed

end
