(* ===== verification/GCodeBuffer.thy ===== *)
theory GCodeBuffer
  imports GCodeClean
begin

text \<open>
  The g-code buffer of the drivers, \<open>src/src/drivers/GCodeBuffer.cpp\<close> and
  \<open>GCodeBuffer.h\<close>: buckets of text with counters, the consistency checks on the meta
  data of each piece, appending, reading and erasing lines. The state \<open>GCodeBuffer\<close> has a
  field for each member; \<open>None\<close> is undefined behaviour. Counters are \<open>int\<close>, since
  every one of them is bounded by the number of bytes appended; the comparison with the maximum is
  done in \<open>size_t\<close>, as in the code.

  \<open>lines_of\<close> abstracts a buffer to the list of its lines; \<open>gcb_inv\<close> is the invariant
  every operation keeps; the interface \<open>line_queue\<close> is what a driver relies on.
\<close>

section \<open>State\<close>

datatype GCODE_SET_RESULT =
    GSR_OK | GSR_BUFFER_FULL | GSR_SEQ_NUM_MISSING | GSR_SEQ_NUM_MISMATCH | GSR_SEQ_TTL_MISSING
  | GSR_SEQ_TTL_MISMATCH | GSR_SRC_MISSING | GSR_SRC_MISMATCH

record MetaData =
  seqNumber :: int
  seqTotal :: int
  source :: "string option"

record GCodeBuffer =
  buckets :: "string list"
  currentLine :: int
  bufferedLines :: int
  totalLinesSent :: int
  explicitTotalLines :: int
  bufferSize :: int
  md :: MetaData
  keepGpxMacroComments :: bool

definition MAX_BUCKET_SIZE :: nat where
  "MAX_BUCKET_SIZE = 1024 * 50"

definition MAX_BUFFER_SIZE :: int where
  "MAX_BUFFER_SIZE = 1024 * (1024 * 3)"

definition BUFFER_SPLIT_SIZE :: nat where
  "BUFFER_SPLIT_SIZE = 1024 * 8"

definition MetaData_init :: MetaData where
  "MetaData_init = \<lparr>seqNumber = -1, seqTotal = -1, source = None\<rparr>"

definition GCodeBuffer_init :: GCodeBuffer where
  "GCodeBuffer_init = \<lparr>buckets = [], currentLine = 0, bufferedLines = 0, totalLinesSent = 0,
     explicitTotalLines = -1, bufferSize = 0, md = MetaData_init, keepGpxMacroComments = False\<rparr>"

fun getGcodeSetResultString :: "GCODE_SET_RESULT \<Rightarrow> string" where
  "getGcodeSetResultString GSR_OK = ''ok''"
| "getGcodeSetResultString GSR_BUFFER_FULL = ''buffer_full''"
| "getGcodeSetResultString GSR_SEQ_NUM_MISSING = ''seq_num_missing''"
| "getGcodeSetResultString GSR_SEQ_NUM_MISMATCH = ''seq_num_mismatch''"
| "getGcodeSetResultString GSR_SEQ_TTL_MISSING = ''seq_ttl_missing''"
| "getGcodeSetResultString GSR_SEQ_TTL_MISMATCH = ''seq_ttl_mismatch''"
| "getGcodeSetResultString GSR_SRC_MISSING = ''seq_src_missing''"
| "getGcodeSetResultString GSR_SRC_MISMATCH = ''seq_src_mismatch''"

section \<open>Getters and simple operations\<close>

definition setKeepGpxMacroComments :: "bool \<Rightarrow> GCodeBuffer \<Rightarrow> GCodeBuffer" where
  "setKeepGpxMacroComments keep g = g\<lparr>keepGpxMacroComments := keep\<rparr>"

definition getTotalLines :: "GCodeBuffer \<Rightarrow> int" where
  "getTotalLines g = (if explicitTotalLines g \<ge> 0 then explicitTotalLines g else totalLinesSent g)"

definition getMaxBufferSize :: int where
  "getMaxBufferSize = MAX_BUFFER_SIZE"

definition setCurrentLine :: "int \<Rightarrow> GCodeBuffer \<Rightarrow> GCodeBuffer" where
  "setCurrentLine line g = g\<lparr>currentLine := min line (totalLinesSent g)\<rparr>"

definition gcb_clear :: "GCodeBuffer \<Rightarrow> GCodeBuffer" where
  "gcb_clear g = g\<lparr>buckets := [], currentLine := 0, bufferedLines := 0, totalLinesSent := 0,
     explicitTotalLines := -1, bufferSize := 0, md := MetaData_init\<rparr>"

section \<open>Appending\<close>

definition updateStats :: "string \<Rightarrow> nat \<Rightarrow> GCodeBuffer \<Rightarrow> GCodeBuffer" where
  "updateStats buffer pos g =
     (let counted = int (count_list (drop pos buffer) NL);
          addedLineCount = (if length buffer > 0 \<and> last buffer \<noteq> NL then counted + 1 else counted);
          g1 = g\<lparr>bufferedLines := bufferedLines g + addedLineCount,
                 totalLinesSent := totalLinesSent g + addedLineCount\<rparr>
      in if currentLine g1 > totalLinesSent g1 then g1\<lparr>currentLine := totalLinesSent g1\<rparr> else g1)"

definition appendChunk :: "GCodeBuffer \<Rightarrow> string \<Rightarrow> GCodeBuffer" where
  "appendChunk g gcode =
     (let bs1 = (if buckets g = [] then [[]] else buckets g);
          bs2 = (if length (last bs1) \<ge> MAX_BUCKET_SIZE then bs1 @ [[]] else bs1);
          b = last bs2;
          pos = length b;
          (b', size') = cleanupGCode (keepGpxMacroComments g) (b @ gcode) pos (bufferSize g);
          g1 = g\<lparr>buckets := butlast bs2 @ [b'], bufferSize := size' + int (length gcode)\<rparr>
      in updateStats b' pos g1)"

text \<open>The checks before anything is changed.\<close>

definition append_sanity :: "GCodeBuffer \<Rightarrow> MetaData option \<Rightarrow> GCODE_SET_RESULT" where
  "append_sanity g metaData =
     (let own = md g;
          s1 = (if seqNumber own > -1 then
                  (case metaData of
                     None \<Rightarrow> GSR_SEQ_NUM_MISSING
                   | Some m \<Rightarrow> if seqNumber m < 0 then GSR_SEQ_NUM_MISSING
                               else if seqNumber own + 1 \<noteq> seqNumber m then GSR_SEQ_NUM_MISMATCH
                               else GSR_OK)
                else
                  (case metaData of
                     None \<Rightarrow> GSR_OK
                   | Some m \<Rightarrow> if seqNumber m \<ge> 0 then
                                 (if seqNumber m > 0 then GSR_SEQ_NUM_MISMATCH
                                  else if bufferSize g > 0 then GSR_SEQ_NUM_MISMATCH
                                  else GSR_OK)
                               else GSR_OK));
          s2 = (if s1 = GSR_OK \<and> seqTotal own > -1 then
                  (case metaData of
                     None \<Rightarrow> GSR_SEQ_TTL_MISSING
                   | Some m \<Rightarrow> if seqTotal m < 0 then GSR_SEQ_TTL_MISSING
                               else if seqTotal own \<noteq> seqTotal m then GSR_SEQ_TTL_MISMATCH
                               else if seqNumber m + 1 > seqTotal m then GSR_SEQ_NUM_MISMATCH
                               else s1)
                else s1)
      in (if s2 = GSR_OK \<and> source own \<noteq> None then
            (case metaData of
               None \<Rightarrow> GSR_SRC_MISSING
             | Some m \<Rightarrow> if source m = None then GSR_SRC_MISSING
                         else if source own \<noteq> source m then GSR_SRC_MISMATCH
                         else s2)
          else s2))"

text \<open>
  The loop that splits a piece at the first newline behind \<open>BUFFER_SPLIT_SIZE\<close> bytes.
\<close>

function append_loop :: "GCodeBuffer \<Rightarrow> string \<Rightarrow> nat \<Rightarrow> GCodeBuffer" where
  "append_loop g gcode start =
     (if start < length gcode then
        let len = (case find_char NL gcode (start + BUFFER_SPLIT_SIZE) of
                     Some nl \<Rightarrow> nl - start + 1
                   | None \<Rightarrow> length gcode - start)
        in append_loop (appendChunk g (take len (drop start gcode))) gcode (start + len)
      else g)"
  by pat_completeness auto
termination
  by (relation "measure (\<lambda>(g, gcode, start). length gcode - start)") (auto split: option.splits)

declare append_loop.simps [simp del]

text \<open>
  A rejected piece without meta data dereferences the null pointer in the log call:
  \<open>None\<close>. The size comparison is unsigned, in 64 bits.
\<close>

definition gcb_append ::
  "string \<Rightarrow> int \<Rightarrow> MetaData option \<Rightarrow> GCodeBuffer \<Rightarrow> (GCODE_SET_RESULT \<times> GCodeBuffer) option" where
  "gcb_append gcode totalLines metaData g =
     (let sanity = append_sanity g metaData
      in if sanity \<noteq> GSR_OK then (if metaData = None then None else Some (sanity, g))
         else if MAX_BUFFER_SIZE > 0 \<and>
                 (bufferSize g + int (length gcode)) mod 2 ^ 64 > MAX_BUFFER_SIZE
         then Some (GSR_BUFFER_FULL, g)
         else
           let g1 = (if totalLines \<ge> 0 then g\<lparr>explicitTotalLines := totalLines\<rparr> else g);
               g2 = (case metaData of
                       None \<Rightarrow> g1
                     | Some m \<Rightarrow> g1\<lparr>md := \<lparr>seqNumber = seqNumber m, seqTotal = seqTotal m,
                         source = (if source (md g1) = None then source m else source (md g1))\<rparr>\<rparr>)
           in Some (GSR_OK, append_loop g2 gcode 0))"

definition gcb_set ::
  "string \<Rightarrow> int \<Rightarrow> MetaData option \<Rightarrow> GCodeBuffer \<Rightarrow> (GCODE_SET_RESULT \<times> GCodeBuffer) option" where
  "gcb_set gcode totalLines metaData g = gcb_append gcode totalLines metaData (gcb_clear g)"

section \<open>Reading and erasing lines\<close>

text \<open>
  The loop over further newlines: position and counter. \<open>npos + 1\<close> is 0 in \<open>size_t\<close>.
\<close>

fun find_more :: "string \<Rightarrow> nat \<Rightarrow> nat option \<Rightarrow> int \<Rightarrow> nat option \<times> int" where
  "find_more b 0 pos counter = (pos, counter)"
| "find_more b (Suc i) pos counter =
     (case find_char NL b (case pos of None \<Rightarrow> 0 | Some p \<Rightarrow> p + 1) of
        None \<Rightarrow> (None, counter)
      | Some p \<Rightarrow> find_more b i (Some p) (counter + 1))"

definition getNextLine :: "nat \<Rightarrow> GCodeBuffer \<Rightarrow> int \<times> string" where
  "getNextLine amount g =
     (case buckets g of
        [] \<Rightarrow> (0, [])
      | b # _ \<Rightarrow>
          let pos = find_char NL b 0;
              counter = (if pos \<noteq> None then 1 else 0);
              (pos', counter') =
                (if amount > 1 \<and> pos \<noteq> None then
                   let (p, c) = find_more b (amount - 1) pos counter
                   in (p, if p = None \<and> last b \<noteq> NL then c + 1 else c)
                 else (pos, counter))
          in (counter', case pos' of None \<Rightarrow> b | Some p \<Rightarrow> take p b))"

text \<open>The last character of an empty bucket is read when several lines are to be erased.\<close>

definition eraseLine :: "nat \<Rightarrow> GCodeBuffer \<Rightarrow> (int \<times> GCodeBuffer) option" where
  "eraseLine amount g =
     (case buckets g of
        [] \<Rightarrow> Some (0, g)
      | b # bs \<Rightarrow>
          let pos = find_char NL b 0;
              (pos', counter) = (if amount > 1 then find_more b (amount - 1) pos 1 else (pos, 1))
          in if amount > 1 \<and> pos' = None \<and> b = [] then None
             else
               let counter' = (if amount > 1 \<and> pos' = None \<and> last b \<noteq> NL then counter + 1 else counter);
                   rest = (case pos' of None \<Rightarrow> [] | Some p \<Rightarrow> drop (p + 1) b)
               in Some (counter',
                    g\<lparr>bufferSize := bufferSize g - (int (length b) - int (length rest)),
                      buckets := (if rest = [] then bs else rest # bs),
                      bufferedLines := bufferedLines g - counter'\<rparr>))"

section \<open>The lines of a buffer\<close>

definition bucket_ok :: "string \<Rightarrow> bool" where
  "bucket_ok b \<longleftrightarrow> unlines (text_lines b) = b"

definition buckets_ok :: "string list \<Rightarrow> bool" where
  "buckets_ok bs \<longleftrightarrow> (\<forall>b \<in> set bs. bucket_ok b) \<and> (\<forall>b \<in> set (butlast bs). b \<noteq> [])"

definition lines_of :: "GCodeBuffer \<Rightarrow> string list" where
  "lines_of g = concat (map text_lines (buckets g))"

text \<open>
  Buckets hold whole lines and only the last may be empty, the counters count, and the byte counter
  is at least the number of bytes stored (it is more when a piece of comments was swallowed by an
  empty bucket).
\<close>

definition gcb_ok :: "GCodeBuffer \<Rightarrow> bool" where
  "gcb_ok g \<longleftrightarrow> buckets_ok (buckets g) \<and> bufferedLines g = int (length (lines_of g)) \<and>
     bufferedLines g \<le> totalLinesSent g \<and> currentLine g \<le> totalLinesSent g \<and>
     int (length (concat (buckets g))) \<le> bufferSize g"

definition gcb_inv :: "GCodeBuffer \<Rightarrow> bool" where
  "gcb_inv g \<longleftrightarrow> gcb_ok g \<and> bufferSize g \<le> MAX_BUFFER_SIZE + 1"

lemma text_lines_unlines0 [simp]: "\<forall>l \<in> set ls. is_line l \<Longrightarrow> text_lines (unlines ls) = ls"
  using text_lines_unlines [of ls "[]"] by simp

lemma bucket_ok_unlines: "\<forall>l \<in> set ls. is_line l \<Longrightarrow> bucket_ok (unlines ls)"
  by (simp add: bucket_ok_def)

lemma bucket_okE:
  assumes "bucket_ok b"
  obtains ls where "b = unlines ls" "\<forall>l \<in> set ls. is_line l" "text_lines b = ls"
  using assms by (metis bucket_ok_def text_lines_is_line)

lemma bucket_ok_Nil [simp]: "bucket_ok []"
  by (simp add: bucket_ok_def)

lemma bucket_ok_text_lines_Nil: "bucket_ok b \<Longrightarrow> text_lines b = [] \<longleftrightarrow> b = []"
  by (auto elim!: bucket_okE)

lemma buckets_ok_Nil [simp]: "buckets_ok []"
  by (simp add: buckets_ok_def)

lemma buckets_ok_snoc [simp]:
  "buckets_ok (bs @ [b]) \<longleftrightarrow> (\<forall>x \<in> set bs. bucket_ok x \<and> x \<noteq> []) \<and> bucket_ok b"
  by (auto simp: buckets_ok_def)

lemma buckets_ok_Cons:
  "buckets_ok (b # bs) \<longleftrightarrow> bucket_ok b \<and> (bs \<noteq> [] \<longrightarrow> b \<noteq> []) \<and> buckets_ok bs"
  by (auto simp: buckets_ok_def)

section \<open>Appending adds the lines of the piece\<close>

lemma updateStats_lines:
  assumes "b = unlines (ls @ new)" "\<forall>l \<in> set (ls @ new). is_line l" "pos = length (unlines ls)"
    "currentLine g \<le> totalLinesSent g"
  shows "updateStats b pos g = g\<lparr>bufferedLines := bufferedLines g + int (length new),
     totalLinesSent := totalLinesSent g + int (length new)\<rparr>"
proof -
  have "b \<noteq> [] \<Longrightarrow> last b = NL" using assms(1) last_unlines [of "ls @ new"] by auto
  moreover have "count_list (drop pos b) NL = length new"
    using assms by (simp add: count_NL_unlines)
  ultimately show ?thesis using assms(4) by (auto simp: updateStats_def Let_def)
qed

text \<open>The bucket a piece is added to: the last one, or a new one.\<close>

definition open_buckets :: "string list \<Rightarrow> string list" where
  "open_buckets bs = (if bs = [] then [[]]
     else if length (last bs) \<ge> MAX_BUCKET_SIZE then bs @ [[]] else bs)"

lemma open_buckets_snoc:
  assumes "buckets_ok bs"
  obtains init ls where "open_buckets bs = init @ [unlines ls]" "\<forall>b \<in> set init. bucket_ok b \<and> b \<noteq> []"
    "\<forall>l \<in> set ls. is_line l" "concat (map text_lines init) @ ls = concat (map text_lines bs)"
    "concat bs = concat init @ unlines ls"
proof (cases bs rule: rev_cases)
  case Nil
  then show ?thesis using that [of "[]" "[]"] by (simp add: open_buckets_def)
next
  case (snoc init b)
  with assms have b: "bucket_ok b" and i: "\<forall>b \<in> set init. bucket_ok b \<and> b \<noteq> []" by auto
  show ?thesis
  proof (cases "length b \<ge> MAX_BUCKET_SIZE")
    case True
    then have "b \<noteq> []" by (auto simp: MAX_BUCKET_SIZE_def)
    then show ?thesis using that [of bs "[]"] True snoc b i by (simp add: open_buckets_def)
  next
    case False
    then show ?thesis
      using that [of init "text_lines b"] snoc b i by (simp add: open_buckets_def bucket_ok_def)
  qed
qed

lemma appendChunk_open:
  "appendChunk g gcode =
     (let bs = open_buckets (buckets g); pos = length (last bs);
          r = cleanupGCode (keepGpxMacroComments g) (last bs @ gcode) pos (bufferSize g)
      in updateStats (fst r) pos
           (g\<lparr>buckets := butlast bs @ [fst r], bufferSize := snd r + int (length gcode)\<rparr>))"
  by (simp add: appendChunk_def open_buckets_def Let_def split_beta MAX_BUCKET_SIZE_def)

lemma appendChunk_effect:
  fixes s :: string
  assumes ok: "gcb_ok g"
  defines "new \<equiv> gcode_lines (keepGpxMacroComments g) s"
  obtains bs sz where
    "appendChunk g s = g\<lparr>buckets := bs, bufferSize := sz,
       bufferedLines := bufferedLines g + int (length new),
       totalLinesSent := totalLinesSent g + int (length new)\<rparr>"
    "buckets_ok bs" "concat (map text_lines bs) = lines_of g @ new"
    "concat bs = concat (buckets g) @ unlines new"
    "sz = bufferSize g + int (length (unlines new)) \<or>
     vanishes (keepGpxMacroComments g) s \<and> new = [] \<and> sz = bufferSize g + int (length s)"
proof -
  let ?k = "keepGpxMacroComments g"
  from ok have bo: "buckets_ok (buckets g)" and cl: "currentLine g \<le> totalLinesSent g"
    by (auto simp: gcb_ok_def)
  obtain init ls where o: "open_buckets (buckets g) = init @ [unlines ls]"
    and i: "\<forall>b \<in> set init. bucket_ok b \<and> b \<noteq> []" and ls: "\<forall>l \<in> set ls. is_line l"
    and cc: "concat (map text_lines init) @ ls = concat (map text_lines (buckets g))"
    and cb: "concat (buckets g) = concat init @ unlines ls"
    using open_buckets_snoc [OF bo] by metis
  let ?r = "cleanupGCode ?k (unlines ls @ s) (length (unlines ls)) (bufferSize g)"
  have r1: "fst ?r = unlines (ls @ new)"
    using cleanupGCode_lines [OF ls] by (simp add: new_def)
  have r2: "snd ?r = (if ls = [] \<and> vanishes ?k s then bufferSize g
              else bufferSize g - int (length s) + int (length (unlines new)))"
    using cleanupGCode_size [OF ls] by (simp add: new_def)
  have all: "\<forall>l \<in> set (ls @ new). is_line l" using ls by (auto simp: new_def)
  let ?g = "g\<lparr>buckets := init @ [fst ?r], bufferSize := snd ?r + int (length s)\<rparr>"
  have "appendChunk g s = updateStats (fst ?r) (length (unlines ls)) ?g"
    by (simp add: appendChunk_open o Let_def)
  also have "\<dots> = ?g\<lparr>bufferedLines := bufferedLines ?g + int (length new),
       totalLinesSent := totalLinesSent ?g + int (length new)\<rparr>"
    by (rule updateStats_lines [OF r1 all refl]) (use cl in simp)
  finally have e: "appendChunk g s = g\<lparr>buckets := init @ [unlines (ls @ new)],
       bufferSize := snd ?r + int (length s), bufferedLines := bufferedLines g + int (length new),
       totalLinesSent := totalLinesSent g + int (length new)\<rparr>"
    by (simp add: r1)
  have v: "vanishes ?k s \<Longrightarrow> new = []"
    by (simp add: vanishes_def new_def gcode_lines_def)
  show ?thesis
  proof (rule that [OF e])
    show "buckets_ok (init @ [unlines (ls @ new)])"
      using i all by (simp add: bucket_ok_unlines del: unlines_append)
    show "concat (map text_lines (init @ [unlines (ls @ new)])) = lines_of g @ new"
      using all cc by (simp add: lines_of_def del: unlines_append)
    show "concat (init @ [unlines (ls @ new)]) = concat (buckets g) @ unlines new"
      using cb by simp
    show "snd ?r + int (length s) = bufferSize g + int (length (unlines new)) \<or>
        vanishes ?k s \<and> new = [] \<and> snd ?r + int (length s) = bufferSize g + int (length s)"
      using r2 v by auto
  qed
qed

text \<open>What appending the lines \<open>new\<close> changes.\<close>

definition adds :: "GCodeBuffer \<Rightarrow> string list \<Rightarrow> GCodeBuffer \<Rightarrow> bool" where
  "adds g new g' \<longleftrightarrow> gcb_ok g' \<and> lines_of g' = lines_of g @ new \<and>
     concat (buckets g') = concat (buckets g) @ unlines new \<and>
     g' = g\<lparr>buckets := buckets g', bufferSize := bufferSize g',
       bufferedLines := bufferedLines g + int (length new),
       totalLinesSent := totalLinesSent g + int (length new)\<rparr>"

lemma adds_refl: "gcb_ok g \<Longrightarrow> adds g [] g"
  by (simp add: adds_def)

lemma adds_trans: "adds g a g' \<Longrightarrow> adds g' b g'' \<Longrightarrow> adds g (a @ b) g''"
  unfolding adds_def
  by (cases g; cases g'; cases g'') simp

lemma addsD:
  assumes "adds g a g'"
  shows "gcb_ok g'" "lines_of g' = lines_of g @ a" "concat (buckets g') = concat (buckets g) @ unlines a"
    "bufferedLines g' = bufferedLines g + int (length a)"
    "totalLinesSent g' = totalLinesSent g + int (length a)"
    "currentLine g' = currentLine g" "md g' = md g" "explicitTotalLines g' = explicitTotalLines g"
    "keepGpxMacroComments g' = keepGpxMacroComments g"
proof -
  from assms have g': "g' = g\<lparr>buckets := buckets g', bufferSize := bufferSize g',
      bufferedLines := bufferedLines g + int (length a), totalLinesSent := totalLinesSent g + int (length a)\<rparr>"
    by (simp only: adds_def)
  show "bufferedLines g' = bufferedLines g + int (length a)"
    "totalLinesSent g' = totalLinesSent g + int (length a)"
    "currentLine g' = currentLine g" "md g' = md g" "explicitTotalLines g' = explicitTotalLines g"
    "keepGpxMacroComments g' = keepGpxMacroComments g"
    by (subst g', simp)+
qed (use assms in \<open>simp_all only: adds_def\<close>)

lemma length_uncomment: "length (uncomment keep s) \<le> length s"
proof (induction keep s rule: uncomment.induct)
  case (2 keep c cs)
  show ?case
  proof (cases "c = CHR '';'' \<and> \<not> macro_at keep cs")
    case True
    with 2(1) have "length (uncomment keep (to_nl cs)) \<le> length (to_nl cs)" by simp
    also have "\<dots> \<le> length cs" by (rule length_dropWhile_le)
    finally show ?thesis using True by simp
  qed (use 2 in auto)
qed simp

lemma length_lines_acc:
  "length (unlines (lines_acc acc s)) \<le> length acc + length s + (if s \<noteq> [] \<and> last s = NL then 0 else 1)"
proof (induction s arbitrary: acc)
  case (Cons c s)
  show ?case
    using Cons.IH [of "[]"] Cons.IH [of "acc @ [c]"] by (cases "s = []") auto
qed simp

lemma length_gcode_lines:
  "length (unlines (gcode_lines keep s)) \<le> length s + (if s \<noteq> [] \<and> last s = NL then 0 else 1)"
proof -
  let ?x = "uncomment keep (map cr_to_nl s)"
  have x: "length ?x \<le> length s"
    using length_uncomment [of keep "map cr_to_nl s"] by simp
  show ?thesis
  proof (cases "s \<noteq> [] \<and> last s = NL")
    case True
    then have "map cr_to_nl s = map cr_to_nl (butlast s) @ [NL]"
      by (metis append_butlast_last_id cr_to_nl_def list.simps(8) list.simps(9) map_append)
    then have "?x \<noteq> [] \<and> last ?x = NL" by (metis last_uncomment)
    then show ?thesis
      using length_lines_acc [of "[]" ?x] x True by (simp add: gcode_lines_def text_lines_def)
  next
    case False
    then show ?thesis
      using length_lines_acc [of "[]" ?x] x
      by (auto simp: gcode_lines_def text_lines_def split: if_splits)
  qed
qed

lemma appendChunk_adds:
  assumes ok: "gcb_ok g"
  shows "adds g (gcode_lines (keepGpxMacroComments g) s) (appendChunk g s)"
    and "bufferSize (appendChunk g s) \<le> bufferSize g + int (length s) + (if s \<noteq> [] \<and> last s = NL then 0 else 1)"
proof -
  let ?new = "gcode_lines (keepGpxMacroComments g) s"
  obtain bs sz where e: "appendChunk g s = g\<lparr>buckets := bs, bufferSize := sz,
       bufferedLines := bufferedLines g + int (length ?new),
       totalLinesSent := totalLinesSent g + int (length ?new)\<rparr>"
    and bs: "buckets_ok bs" "concat (map text_lines bs) = lines_of g @ ?new"
    "concat bs = concat (buckets g) @ unlines ?new"
    and sz: "sz = bufferSize g + int (length (unlines ?new)) \<or>
     vanishes (keepGpxMacroComments g) s \<and> ?new = [] \<and> sz = bufferSize g + int (length s)"
    by (rule appendChunk_effect [OF ok])
  show "adds g ?new (appendChunk g s)"
    unfolding adds_def e
  proof (intro conjI)
    let ?g = "g\<lparr>buckets := bs, bufferSize := sz, bufferedLines := bufferedLines g + int (length ?new),
       totalLinesSent := totalLinesSent g + int (length ?new)\<rparr>"
    have "int (length (concat bs)) \<le> sz"
      using sz ok by (auto simp: bs(3) gcb_ok_def simp del: length_concat)
    then show "gcb_ok ?g"
      using ok bs(1,2) by (simp add: gcb_ok_def lines_of_def del: length_concat)
  qed (use bs in \<open>simp_all add: lines_of_def\<close>)
  show "bufferSize (appendChunk g s) \<le> bufferSize g + int (length s) + (if s \<noteq> [] \<and> last s = NL then 0 else 1)"
    using sz length_gcode_lines [of "keepGpxMacroComments g" s] by (auto simp: e)
qed

lemma append_loop_adds:
  "gcb_ok g \<Longrightarrow> start \<le> length gcode \<Longrightarrow>
     adds g (gcode_lines (keepGpxMacroComments g) (drop start gcode)) (append_loop g gcode start) \<and>
     bufferSize (append_loop g gcode start) \<le> bufferSize g + int (length gcode - start) + 1"
proof (induction g gcode start rule: append_loop.induct)
  case (1 g gcode start)
  show ?case
  proof (cases "start < length gcode")
    case False
    with "1.prems" show ?thesis by (subst (1 2) append_loop.simps) (simp add: adds_refl)
  next
    case True
    define len where "len = (case find_char NL gcode (start + BUFFER_SPLIT_SIZE) of
        Some nl \<Rightarrow> nl - start + 1 | None \<Rightarrow> length gcode - start)"
    let ?k = "keepGpxMacroComments g"
    define u where "u = take len (drop start gcode)"
    define v where "v = drop (start + len) gcode"
    let ?g = "appendChunk g u"
    have step: "append_loop g gcode start = append_loop ?g gcode (start + len)"
      using True by (subst append_loop.simps) (simp add: Let_def len_def u_def)
    have len: "start + len \<le> length gcode"
      using True by (auto simp: len_def dest: find_char_Some split: option.splits)
    have uv: "drop start gcode = u @ v"
      unfolding u_def v_def by (metis add.commute append_take_drop_id drop_drop)
    have lenu: "length u = len" using len by (simp add: u_def)
    have new: "gcode_lines ?k (u @ v) = gcode_lines ?k u @ gcode_lines ?k v \<and>
        (v = [] \<or> u \<noteq> [] \<and> last u = NL)"
    proof (cases "find_char NL gcode (start + BUFFER_SPLIT_SIZE)")
      case None
      then have "v = []" by (simp add: v_def len_def)
      then show ?thesis by simp
    next
      case (Some nl)
      note nl = find_char_Some(1-3) [OF Some]
      have l: "len = Suc (nl - start)" using Some by (simp add: len_def)
      have ne: "u \<noteq> []" using l nl by (simp add: u_def)
      have "last u = u ! (length u - 1)" using ne by (rule last_conv_nth)
      also have "\<dots> = NL" using l nl lenu by (simp add: u_def)
      finally show ?thesis using ne gcode_lines_append by blast
    qed
    note c = appendChunk_adds [OF "1.prems"(1), of u]
    have ok: "gcb_ok ?g" using c(1) by (simp add: adds_def)
    have IH: "adds ?g (gcode_lines (keepGpxMacroComments ?g) v) (append_loop ?g gcode (start + len)) \<and>
      bufferSize (append_loop ?g gcode (start + len)) \<le> bufferSize ?g + int (length gcode - (start + len)) + 1"
      using "1.IH" [OF True len_def] ok len by (simp add: u_def v_def)
    have "adds g (gcode_lines ?k u @ gcode_lines ?k v) (append_loop ?g gcode (start + len))"
      by (rule adds_trans [OF c(1)]) (use IH addsD(9) [OF c(1)] in simp)
    moreover have "bufferSize (append_loop ?g gcode (start + len)) \<le> bufferSize g + int (length gcode - start) + 1"
    proof (cases "v = []")
      case True
      then have "append_loop ?g gcode (start + len) = ?g"
        using len by (subst append_loop.simps) (simp add: v_def)
      then show ?thesis using c(2) len lenu by (auto split: if_splits)
    next
      case False
      then show ?thesis using IH c(2) new len lenu by auto
    qed
    ultimately show ?thesis using new by (simp add: step uv)
  qed
qed

text \<open>An accepted piece.\<close>

definition accept_meta :: "int \<Rightarrow> MetaData option \<Rightarrow> GCodeBuffer \<Rightarrow> GCodeBuffer" where
  "accept_meta totalLines metaData g =
     g\<lparr>explicitTotalLines := (if totalLines \<ge> 0 then totalLines else explicitTotalLines g),
       md := (case metaData of None \<Rightarrow> md g
              | Some m \<Rightarrow> m\<lparr>source := (if source (md g) = None then source m else source (md g))\<rparr>)\<rparr>"

lemma accept_meta_simps [simp]:
  "gcb_ok (accept_meta n m g) = gcb_ok g" "lines_of (accept_meta n m g) = lines_of g"
  "keepGpxMacroComments (accept_meta n m g) = keepGpxMacroComments g"
  "bufferSize (accept_meta n m g) = bufferSize g" "buckets (accept_meta n m g) = buckets g"
  "currentLine (accept_meta n m g) = currentLine g" "totalLinesSent (accept_meta n m g) = totalLinesSent g"
  "bufferedLines (accept_meta n m g) = bufferedLines g"
  by (simp_all add: accept_meta_def gcb_ok_def lines_of_def)

lemma gcb_append_Some:
  "gcb_append gcode n m g = Some (r, g') \<longleftrightarrow>
     (if append_sanity g m \<noteq> GSR_OK then m \<noteq> None \<and> r = append_sanity g m \<and> g' = g
      else if (bufferSize g + int (length gcode)) mod 2 ^ 64 > MAX_BUFFER_SIZE
      then r = GSR_BUFFER_FULL \<and> g' = g
      else r = GSR_OK \<and> g' = append_loop (accept_meta n m g) gcode 0)"
proof -
  have a: "(case m of None \<Rightarrow> g1 | Some m \<Rightarrow> g1\<lparr>md := \<lparr>seqNumber = seqNumber m, seqTotal = seqTotal m,
             source = (if source (md g1) = None then source m else source (md g1))\<rparr>\<rparr>) = accept_meta n m g"
    if "g1 = (if n \<ge> 0 then g\<lparr>explicitTotalLines := n\<rparr> else g)" for g1
    using that by (cases g; cases m; cases "the m") (auto simp: accept_meta_def)
  have "MAX_BUFFER_SIZE > 0" by (simp add: MAX_BUFFER_SIZE_def)
  then show ?thesis by (auto simp: gcb_append_def Let_def a)
qed

lemma gcb_append_lines:
  assumes ok: "gcb_ok g" and s: "append_sanity g m = GSR_OK"
    and r: "gcb_append gcode n m g = Some (GSR_OK, g')"
  shows "adds (accept_meta n m g) (gcode_lines (keepGpxMacroComments g) gcode) g'"
    and "bufferSize g' \<le> bufferSize g + int (length gcode) + 1"
  using append_loop_adds [of "accept_meta n m g" 0 gcode] ok s r
  by (auto simp: gcb_append_Some split: if_splits)

lemma gcb_append_inv:
  assumes inv: "gcb_inv g" and len: "int (length gcode) < 2 ^ 63"
    and r: "gcb_append gcode n m g = Some (r, g')"
  shows "gcb_inv g'"
proof (cases "r = GSR_OK")
  case False
  with r inv show ?thesis by (auto simp: gcb_append_Some split: if_splits)
next
  case True
  with r have s: "append_sanity g m = GSR_OK" by (auto simp: gcb_append_Some split: if_splits)
  have ok: "gcb_ok g" and b: "0 \<le> bufferSize g" "bufferSize g \<le> MAX_BUFFER_SIZE + 1"
    using inv by (auto simp: gcb_inv_def gcb_ok_def)
  note l = gcb_append_lines [OF ok s r [unfolded True]]
  have "(bufferSize g + int (length gcode)) mod 2 ^ 64 = bufferSize g + int (length gcode)"
    using b len by (intro mod_pos_pos_trivial) (auto simp: MAX_BUFFER_SIZE_def)
  moreover have "\<not> (bufferSize g + int (length gcode)) mod 2 ^ 64 > MAX_BUFFER_SIZE"
    using r s True by (auto simp: gcb_append_Some split: if_splits)
  ultimately show ?thesis using l by (simp add: gcb_inv_def adds_def)
qed

section \<open>Reading and erasing lines\<close>

lemma find_char_end:
  assumes "is_line l"
  shows "find_char NL (a @ l @ NL # r) (length a) = Some (length a + length l)"
  using find_char_unlines [OF assms] by (simp add: find_char_def)

lemma find_more_lines:
  assumes "\<forall>l \<in> set ls. is_line l"
  shows "find_more (a @ NL # unlines ls) i (Some (length a)) c =
     (if i \<le> length ls then (Some (length a + length (unlines (take i ls))), c + int i)
      else (None, c + int (length ls)))"
  using assms
proof (induction i arbitrary: a ls c)
  case (Suc i)
  show ?case
  proof (cases ls)
    case Nil
    moreover have "find_char NL (a @ [NL]) (Suc (length a)) = None" by (simp add: find_char_None)
    ultimately show ?thesis by simp
  next
    case (Cons l ms)
    with Suc.prems have l: "is_line l" and ms: "\<forall>m \<in> set ms. is_line m" by auto
    have f: "find_char NL (a @ NL # unlines ls) (Suc (length a)) = Some (Suc (length a) + length l)"
      using find_char_end [OF l, of "a @ [NL]" "unlines ms"] Cons by simp
    have "find_more (a @ NL # unlines ls) (Suc i) (Some (length a)) c =
        find_more ((a @ NL # l) @ NL # unlines ms) i (Some (length (a @ NL # l))) (c + 1)"
      using f Cons by simp
    also have "\<dots> = (if i \<le> length ms then (Some (length (a @ NL # l) + length (unlines (take i ms))), c + 1 + int i)
        else (None, c + 1 + int (length ms)))"
      by (rule Suc.IH [OF ms])
    finally show ?thesis using Cons by simp
  qed
qed simp

text \<open>The position behind the first \<open>max 1 k\<close> lines, and the count.\<close>

lemma find_lines:
  assumes ls: "\<forall>l \<in> set ls. is_line l" and ne: "ls \<noteq> []"
  defines "b \<equiv> unlines ls"
  shows "find_char NL b 0 = Some (length (hd ls))"
    and "k > 1 \<Longrightarrow> find_more b (k - 1) (Some (length (hd ls))) 1 =
      (if k \<le> length ls then Some (length (unlines (take k ls)) - 1) else None, int (min k (length ls)))"
proof -
  from ne obtain l ms where l: "ls = l # ms" by (cases ls) auto
  show "find_char NL b 0 = Some (length (hd ls))"
    using find_char_end [of l "[]"] ls l by (simp add: b_def)
  assume k: "k > 1"
  then obtain i where i: "k = Suc i" by (cases k) auto
  show "find_more b (k - 1) (Some (length (hd ls))) 1 =
      (if k \<le> length ls then Some (length (unlines (take k ls)) - 1) else None, int (min k (length ls)))"
    using find_more_lines [of ms l i 1] ls l i by (auto simp: b_def)
qed

text \<open>The text \<open>getNextLine\<close> returns for lines of one bucket.\<close>

definition next_text :: "nat \<Rightarrow> string list \<Rightarrow> string" where
  "next_text k ls = (if k \<le> length ls then butlast (unlines (take k ls)) else unlines ls)"

abbreviation head_lines :: "GCodeBuffer \<Rightarrow> string list" where
  "head_lines g \<equiv> text_lines (hd (buckets g))"

definition taken :: "nat \<Rightarrow> GCodeBuffer \<Rightarrow> nat" where
  "taken k g = min (max 1 k) (length (head_lines g))"

lemma head_bucketE:
  assumes "gcb_ok g" "lines_of g \<noteq> []"
  obtains bs ls where "buckets g = unlines ls # bs" "\<forall>l \<in> set ls. is_line l" "ls \<noteq> []"
    "head_lines g = ls" "lines_of g = ls @ concat (map text_lines bs)" "buckets_ok bs"
proof -
  from assms obtain b bs where b: "buckets g = b # bs" by (cases "buckets g") (auto simp: lines_of_def)
  with assms have bo: "bucket_ok b" "buckets_ok bs" "bs \<noteq> [] \<longrightarrow> b \<noteq> []"
    by (auto simp: gcb_ok_def buckets_ok_Cons)
  then obtain ls where ls: "b = unlines ls" "\<forall>l \<in> set ls. is_line l" "text_lines b = ls"
    by (metis bucket_okE)
  have "ls \<noteq> []" using assms(2) bo(3) ls b by (auto simp: lines_of_def)
  then show ?thesis using that [of ls bs] b ls bo by (simp add: lines_of_def)
qed

lemma butlast_unlines: "ls \<noteq> [] \<Longrightarrow> butlast (unlines ls) = take (length (unlines ls) - 1) (unlines ls)"
  by (simp add: butlast_conv_take)

lemma getNextLine_lines:
  assumes ok: "gcb_ok g" and ne: "lines_of g \<noteq> []"
  shows "getNextLine k g = (int (taken k g), next_text (max 1 k) (head_lines g))"
proof -
  obtain bs ls where b: "buckets g = unlines ls # bs" "\<forall>l \<in> set ls. is_line l" "ls \<noteq> []" "head_lines g = ls"
    using head_bucketE [OF ok ne] by metis
  note f = find_lines [OF b(2,3)]
  from b(3) obtain l ms where l: "ls = l # ms" by (cases ls) auto
  show ?thesis
  proof (cases "k > 1")
    case False
    then have "max 1 k = 1" by simp
    then show ?thesis
      using b f(1) l False by (simp add: getNextLine_def taken_def next_text_def)
  next
    case True
    have t: "take (length (unlines (take k ls)) - 1) (unlines ls) = butlast (unlines (take k ls))"
      if "k \<le> length ls"
    proof -
      have "unlines ls = unlines (take k ls) @ unlines (drop k ls)"
        by (metis append_take_drop_id unlines_append)
      then show ?thesis using butlast_unlines [of "take k ls"] True b(3) by simp
    qed
    from True have "max 1 k = k" by simp
    then show ?thesis
      using b f(1) f(2) [OF True] last_unlines [OF b(3)] True t
      by (auto simp: getNextLine_def taken_def next_text_def Let_def)
  qed
qed

lemma getNextLine_none:
  assumes ok: "gcb_ok g" and ne: "lines_of g = []"
  shows "getNextLine k g = (0, [])"
proof (cases "buckets g")
  case (Cons b bs)
  then have "b = []" "bs = []"
    using ok ne by (auto simp: gcb_ok_def buckets_ok_Cons lines_of_def bucket_ok_text_lines_Nil)
  then show ?thesis using Cons by (simp add: getNextLine_def find_char_def)
qed (simp add: getNextLine_def)

lemma taken_bounds:
  "gcb_ok g \<Longrightarrow> lines_of g \<noteq> [] \<Longrightarrow> 1 \<le> taken k g \<and> taken k g \<le> length (lines_of g) \<and> taken k g \<le> max 1 k"
  by (elim head_bucketE) (auto simp: taken_def Suc_le_eq)

lemma taken_1: "gcb_ok g \<Longrightarrow> lines_of g \<noteq> [] \<Longrightarrow> taken 1 g = 1"
  using taken_bounds [of g 1] by simp

lemma getNextLine_1:
  assumes ok: "gcb_ok g" and ne: "lines_of g \<noteq> []"
  shows "getNextLine 1 g = (1, hd (lines_of g))"
  using getNextLine_lines [OF ok ne, of 1] taken_1 [OF ok ne] ok ne
  by (elim head_bucketE) (auto simp: next_text_def Suc_le_eq neq_Nil_conv)

text \<open>What erasing \<open>j\<close> lines changes.\<close>

definition erases :: "GCodeBuffer \<Rightarrow> nat \<Rightarrow> GCodeBuffer \<Rightarrow> bool" where
  "erases g j g' \<longleftrightarrow> gcb_ok g' \<and> lines_of g' = drop j (lines_of g) \<and> bufferSize g' \<le> bufferSize g \<and>
     g' = g\<lparr>buckets := buckets g', bufferSize := bufferSize g', bufferedLines := bufferedLines g - int j\<rparr>"

lemma eraseLine_erases:
  assumes ok: "gcb_ok g" and ne: "lines_of g \<noteq> []"
  shows "\<exists>g'. eraseLine k g = Some (int (taken k g), g') \<and> erases g (taken k g) g'"
proof -
  obtain bs ls where b: "buckets g = unlines ls # bs" "\<forall>l \<in> set ls. is_line l" "ls \<noteq> []"
      "head_lines g = ls" "lines_of g = ls @ concat (map text_lines bs)" "buckets_ok bs"
    using head_bucketE [OF ok ne] by metis
  let ?b = "unlines ls" and ?j = "taken k g"
  note f = find_lines [OF b(2,3)]
  define rest where "rest = unlines (drop ?j ls)"
  define g' where "g' = g\<lparr>bufferSize := bufferSize g - (int (length ?b) - int (length rest)),
      buckets := (if rest = [] then bs else rest # bs), bufferedLines := bufferedLines g - int ?j\<rparr>"
  have sp: "?b = unlines (take i ls) @ unlines (drop i ls)" for i
    by (metis append_take_drop_id unlines_append)
  have j: "?j = min (max 1 k) (length ls)" "1 \<le> ?j" "?j \<le> length ls"
    using b taken_bounds [OF ok ne, of k] by (auto simp: taken_def)
  have e: "eraseLine k g = Some (int ?j, g')"
  proof (cases "k > 1")
    case False
    from b(3) obtain l ms where "ls = l # ms" by (cases ls) auto
    then show ?thesis
      using b f(1) False j by (simp add: eraseLine_def g'_def rest_def)
  next
    case True
    have d: "drop (length (unlines (take k ls))) ?b = unlines (drop k ls)"
      using sp [of k] by (metis append_eq_conv_conj)
    have p: "Suc (length (unlines (take k ls)) - 1) = length (unlines (take k ls))"
      using b(3) True by (simp add: Suc_leI length_greater_0_conv)
    show ?thesis
      using b(1,3) f(1) f(2) [OF True] True d p last_unlines [OF b(3)] j
      by (auto simp: eraseLine_def g'_def rest_def Let_def)
  qed
  have dl: "drop ?j (lines_of g) = drop ?j ls @ concat (map text_lines bs)"
    using b j by simp
  have ds: "\<forall>l \<in> set (drop ?j ls). is_line l" using b(2) by (meson in_set_dropD)
  have lg: "lines_of g' = drop ?j (lines_of g)"
    using ds unfolding dl by (auto simp: g'_def lines_of_def rest_def)
  have le: "length rest \<le> length ?b" using sp [of ?j] by (simp add: rest_def)
  have "buckets_ok (buckets g')"
    using b(6) ds by (auto simp: g'_def rest_def buckets_ok_Cons bucket_ok_unlines)
  moreover have "int (length (concat (buckets g'))) \<le> bufferSize g'"
    using ok b(1) le by (auto simp: g'_def gcb_ok_def simp del: length_concat)
  moreover have "bufferedLines g' = int (length (lines_of g'))"
    using ok lg taken_bounds [OF ok ne, of k] by (simp add: g'_def gcb_ok_def of_nat_diff)
  moreover have "bufferedLines g' \<le> totalLinesSent g'" "currentLine g' \<le> totalLinesSent g'"
    using ok by (auto simp: g'_def gcb_ok_def)
  ultimately have "gcb_ok g'" by (simp add: gcb_ok_def)
  moreover have "bufferSize g' \<le> bufferSize g" using le by (simp add: g'_def)
  moreover have "g' = g\<lparr>buckets := buckets g', bufferSize := bufferSize g', bufferedLines := bufferedLines g - int ?j\<rparr>"
    by (simp add: g'_def)
  ultimately show ?thesis using e lg by (auto simp: erases_def)
qed

lemma text_lines_last: "\<forall>l \<in> set ls. is_line l \<Longrightarrow> ls \<noteq> [] \<Longrightarrow> text_lines (butlast (unlines ls)) = ls"
proof (induction ls rule: rev_induct)
  case (snoc l ls)
  then have "\<forall>l \<in> set ls. is_line l" "is_line l" by auto
  then show ?case
    using text_lines_unlines [of ls l] lines_acc_line [of l "[]" "[]"]
    by (simp add: butlast_append text_lines_single)
qed simp

lemma text_lines_next_text:
  assumes "\<forall>l \<in> set ls. is_line l" "ls \<noteq> []"
  shows "text_lines (next_text (max 1 k) ls) = take (max 1 k) ls"
proof -
  have "\<forall>l \<in> set (take (max 1 k) ls). is_line l" using assms(1) by (meson in_set_takeD)
  then show ?thesis using assms by (auto simp: next_text_def text_lines_last Suc_le_eq)
qed

lemma getNextLine_text:
  assumes ok: "gcb_ok g" and ne: "lines_of g \<noteq> []"
  shows "text_lines (snd (getNextLine k g)) = take (taken k g) (lines_of g)"
proof -
  obtain bs ls where b: "\<forall>l \<in> set ls. is_line l" "ls \<noteq> []" "head_lines g = ls"
      "lines_of g = ls @ concat (map text_lines bs)"
    using head_bucketE [OF ok ne] by metis
  have "taken k g = min (max 1 k) (length ls)" using b(3) by (simp add: taken_def)
  then have "take (taken k g) (lines_of g) = take (max 1 k) ls"
    using b(4) by (simp only: take_append) (auto simp: min_def Suc_le_eq)
  then show ?thesis
    using text_lines_next_text [OF b(1,2), of k] b(3) by (simp only: getNextLine_lines [OF ok ne] snd_conv)
qed

lemma erasesD:
  assumes "erases g j g'"
  shows "gcb_ok g'" "lines_of g' = drop j (lines_of g)" "bufferSize g' \<le> bufferSize g"
    "bufferedLines g' = bufferedLines g - int j" "totalLinesSent g' = totalLinesSent g"
    "currentLine g' = currentLine g"
proof -
  from assms have g': "g' = g\<lparr>buckets := buckets g', bufferSize := bufferSize g',
      bufferedLines := bufferedLines g - int j\<rparr>"
    by (simp only: erases_def)
  show "bufferedLines g' = bufferedLines g - int j" "totalLinesSent g' = totalLinesSent g"
    "currentLine g' = currentLine g"
    by (subst g', simp)+
qed (use assms in \<open>simp_all only: erases_def\<close>)

section \<open>The interface of a queue of lines\<close>

text \<open>
  What the drivers rely on: looking at the next lines and erasing them agree on their number, which
  is at least one when there are any, and the text looked at consists of the lines erased.
\<close>

locale line_queue =
  fixes lines :: "'s \<Rightarrow> string list"
    and inv :: "'s \<Rightarrow> bool"
    and nxt :: "nat \<Rightarrow> 's \<Rightarrow> int \<times> string"
    and ers :: "nat \<Rightarrow> 's \<Rightarrow> (int \<times> 's) option"
  assumes nxt_none: "inv s \<Longrightarrow> lines s = [] \<Longrightarrow> nxt k s = (0, [])"
    and nxt_one: "inv s \<Longrightarrow> lines s \<noteq> [] \<Longrightarrow> nxt 1 s = (1, hd (lines s))"
    and nxt_ers: "inv s \<Longrightarrow> lines s \<noteq> [] \<Longrightarrow>
      \<exists>j t s'. nxt k s = (int j, t) \<and> ers k s = Some (int j, s') \<and> 1 \<le> j \<and> j \<le> length (lines s) \<and>
        inv s' \<and> lines s' = drop j (lines s) \<and> text_lines t = take j (lines s)"

text \<open>Reading and erasing up to \<open>k\<close> lines at a time, \<open>n\<close> times or until none are left.\<close>

fun drain :: "(nat \<Rightarrow> 's \<Rightarrow> int \<times> string) \<Rightarrow> (nat \<Rightarrow> 's \<Rightarrow> (int \<times> 's) option) \<Rightarrow>
    nat \<Rightarrow> nat \<Rightarrow> 's \<Rightarrow> (string list \<times> 's) option" where
  "drain nxt ers k 0 s = Some ([], s)"
| "drain nxt ers k (Suc n) s =
     (let (c, t) = nxt k s
      in if c \<le> 0 then Some ([], s)
         else case ers k s of
                None \<Rightarrow> None
              | Some (d, s') \<Rightarrow> map_option (\<lambda>(ts, s''). (t # ts, s'')) (drain nxt ers k n s'))"

context line_queue begin

lemma ers_one:
  assumes "inv s" "lines s = l # ls"
  shows "\<exists>s'. ers 1 s = Some (1, s') \<and> inv s' \<and> lines s' = ls"
  using nxt_ers [of s 1] nxt_one [of s] assms by fastforce

lemma drain_all:
  assumes "inv s" "length (lines s) \<le> n"
  shows "\<exists>ts s'. drain nxt ers k n s = Some (ts, s') \<and> inv s' \<and> lines s' = [] \<and>
           concat (map text_lines ts) = lines s"
  using assms
proof (induction n arbitrary: s)
  case (Suc n)
  show ?case
  proof (cases "lines s = []")
    case True
    with Suc.prems show ?thesis by (simp add: nxt_none)
  next
    case False
    from nxt_ers [OF Suc.prems(1) False, of k] obtain j t s' where
      j: "nxt k s = (int j, t)" "ers k s = Some (int j, s')" "1 \<le> j" "inv s'"
         "lines s' = drop j (lines s)" "text_lines t = take j (lines s)" by blast
    with Suc.prems(2) have "length (lines s') \<le> n" by simp
    from Suc.IH [OF j(4) this] show ?thesis using j by auto
  qed
qed simp

lemma drain_one:
  assumes "inv s" "n \<le> length (lines s)"
  shows "\<exists>s'. drain nxt ers 1 n s = Some (take n (lines s), s') \<and> inv s' \<and> lines s' = drop n (lines s)"
  using assms
proof (induction n arbitrary: s)
  case (Suc n)
  then obtain l ls where l: "lines s = l # ls" by (cases "lines s") auto
  obtain s' where s': "ers 1 s = Some (1, s')" "inv s'" "lines s' = ls"
    using ers_one [OF Suc.prems(1) l] by blast
  have "n \<le> length (lines s')" using Suc.prems(2) l s'(3) by simp
  from Suc.IH [OF s'(2) this] show ?case
    using nxt_one [OF Suc.prems(1)] l s' by auto
qed simp

end

interpretation gq: line_queue lines_of gcb_ok getNextLine eraseLine
proof unfold_locales
  fix g k assume ok: "gcb_ok g" and ne: "lines_of g \<noteq> []"
  obtain g' where g': "eraseLine k g = Some (int (taken k g), g')" "erases g (taken k g) g'"
    using eraseLine_erases [OF ok ne] by blast
  then show "\<exists>j t s'. getNextLine k g = (int j, t) \<and> eraseLine k g = Some (int j, s') \<and> 1 \<le> j \<and>
      j \<le> length (lines_of g) \<and> gcb_ok s' \<and> lines_of s' = drop j (lines_of g) \<and>
      text_lines t = take j (lines_of g)"
    using getNextLine_lines [OF ok ne, of k] getNextLine_text [OF ok ne, of k] taken_bounds [OF ok ne, of k]
    by (auto simp: erases_def)
qed (simp_all add: getNextLine_none getNextLine_1 [unfolded One_nat_def])

text \<open>A queue that text can be appended to.\<close>

locale text_queue = line_queue lines inv nxt ers
  for lines :: "'s \<Rightarrow> string list" and inv :: "'s \<Rightarrow> bool"
    and nxt :: "nat \<Rightarrow> 's \<Rightarrow> int \<times> string" and ers :: "nat \<Rightarrow> 's \<Rightarrow> (int \<times> 's) option" +
  fixes app :: "'m \<Rightarrow> string \<Rightarrow> 's \<Rightarrow> ('r \<times> 's) option"
    and accepted :: "'r \<Rightarrow> bool"
    and clean :: "'s \<Rightarrow> string \<Rightarrow> string list"
  assumes app_ok: "inv s \<Longrightarrow> app m t s = Some (r, s') \<Longrightarrow> accepted r \<Longrightarrow>
      inv s' \<and> lines s' = lines s @ clean s t \<and> clean s' = clean s"
    and app_rejected: "inv s \<Longrightarrow> app m t s = Some (r, s') \<Longrightarrow> \<not> accepted r \<Longrightarrow> s' = s"

text \<open>Appending pieces one after the other; \<open>None\<close> when one is not accepted.\<close>

fun append_all :: "('m \<Rightarrow> string \<Rightarrow> 's \<Rightarrow> ('r \<times> 's) option) \<Rightarrow> ('r \<Rightarrow> bool) \<Rightarrow>
    ('m \<times> string) list \<Rightarrow> 's \<Rightarrow> 's option" where
  "append_all app accepted [] s = Some s"
| "append_all app accepted ((m, t) # ps) s =
     (case app m t s of
        None \<Rightarrow> None
      | Some (r, s') \<Rightarrow> if accepted r then append_all app accepted ps s' else None)"

context text_queue begin

lemma append_all_lines:
  "inv s \<Longrightarrow> append_all app accepted ps s = Some s' \<Longrightarrow>
     inv s' \<and> lines s' = lines s @ concat (map (\<lambda>p. clean s (snd p)) ps) \<and> clean s' = clean s"
proof (induction ps arbitrary: s)
  case (Cons p ps)
  obtain m t where p: "p = (m, t)" by (cases p)
  from Cons.prems(2) obtain r s1 where
    r: "app m t s = Some (r, s1)" "accepted r" "append_all app accepted ps s1 = Some s'"
    by (auto simp: p split: option.splits if_splits)
  from app_ok [OF Cons.prems(1) r(1,2)] Cons.IH [OF _ r(3)] show ?case by (auto simp: p)
qed simp

lemma append_all_drain:
  assumes "inv s" "lines s = []" "append_all app accepted ps s = Some s'"
    and "length (concat (map (\<lambda>p. clean s (snd p)) ps)) \<le> n"
  shows "\<exists>ts s''. drain nxt ers k n s' = Some (ts, s'') \<and> lines s'' = [] \<and>
    concat (map text_lines ts) = concat (map (\<lambda>p. clean s (snd p)) ps)"
  using append_all_lines [OF assms(1,3)] drain_all [of s' n k] assms(2,4) by auto

end

interpretation gt: text_queue lines_of gcb_ok getNextLine eraseLine
  "\<lambda>m t. gcb_append t (fst m) (snd m)" "\<lambda>r. r = GSR_OK"
  "\<lambda>g. gcode_lines (keepGpxMacroComments g)"
proof unfold_locales
  fix g m t r g'
  assume ok: "gcb_ok g" and a: "gcb_append t (fst m) (snd m) g = Some (r, g')"
  {
    assume r: "r = GSR_OK"
    with a have s: "append_sanity g (snd m) = GSR_OK" by (auto simp: gcb_append_Some split: if_splits)
    have "adds (accept_meta (fst m) (snd m) g) (gcode_lines (keepGpxMacroComments g) t) g'"
      using gcb_append_lines(1) [OF ok s] a r by blast
    then show "gcb_ok g' \<and> lines_of g' = lines_of g @ gcode_lines (keepGpxMacroComments g) t \<and>
        gcode_lines (keepGpxMacroComments g') = gcode_lines (keepGpxMacroComments g)"
      by (simp add: addsD(1) addsD(2,9) [of "accept_meta (fst m) (snd m) g"])
  next
    assume "r \<noteq> GSR_OK"
    with a show "g' = g" by (auto simp: gcb_append_Some split: if_splits)
  }
qed

section \<open>Meta data\<close>

lemma append_sanity_OK:
  "append_sanity g m = GSR_OK \<longleftrightarrow>
     (seqNumber (md g) > -1 \<longrightarrow> (\<exists>m'. m = Some m' \<and> seqNumber m' \<ge> 0 \<and> seqNumber m' = seqNumber (md g) + 1)) \<and>
     (seqNumber (md g) \<le> -1 \<longrightarrow> (\<forall>m'. m = Some m' \<and> seqNumber m' \<ge> 0 \<longrightarrow> seqNumber m' = 0 \<and> bufferSize g \<le> 0)) \<and>
     (seqTotal (md g) > -1 \<longrightarrow> (\<exists>m'. m = Some m' \<and> seqTotal m' = seqTotal (md g) \<and> seqNumber m' < seqTotal m')) \<and>
     (source (md g) \<noteq> None \<longrightarrow> (\<exists>m'. m = Some m' \<and> source m' = source (md g)))"
  by (cases m) (auto simp: append_sanity_def Let_def)

lemma gcb_append_md:
  assumes "gcb_ok g" "gcb_append gcode n m g = Some (GSR_OK, g')"
  shows "append_sanity g m = GSR_OK" "md g' = md (accept_meta n m g)"
    "explicitTotalLines g' = explicitTotalLines (accept_meta n m g)" "currentLine g' = currentLine g"
proof -
  show s: "append_sanity g m = GSR_OK" using assms(2) by (auto simp: gcb_append_Some split: if_splits)
  have "adds (accept_meta n m g) (gcode_lines (keepGpxMacroComments g) gcode) g'"
    by (rule gcb_append_lines(1) [OF assms(1) s assms(2)])
  from addsD(6-8) [OF this] show "md g' = md (accept_meta n m g)"
    "explicitTotalLines g' = explicitTotalLines (accept_meta n m g)" "currentLine g' = currentLine g"
    by simp_all
qed

section \<open>Properties\<close>

text \<open>C23: Appending a piece of g-code keeps the invariant of the buffer (whole lines in the
  buckets, exact counters, at most one byte more than the maximum size). If the piece is accepted,
  exactly its lines (\<open>gcode_lines\<close>: comments and empty lines removed, carriage returns as
  newlines) come behind the buffered ones, both counters grow by their number and the current line
  stays; if it is rejected, nothing changes.\<close>

theorem append_adds_lines:
  assumes "gcb_inv g" "int (length gcode) < 2 ^ 63" "gcb_append gcode n m g = Some (r, g')"
  shows "gcb_inv g' \<and>
    (if r = GSR_OK then
       lines_of g' = lines_of g @ gcode_lines (keepGpxMacroComments g) gcode \<and>
       bufferedLines g' = int (length (lines_of g')) \<and>
       totalLinesSent g' = totalLinesSent g + int (length (gcode_lines (keepGpxMacroComments g) gcode)) \<and>
       currentLine g' = currentLine g
     else g' = g)"
proof (cases "r = GSR_OK")
  case True
  have ok: "gcb_ok g" using assms(1) by (simp add: gcb_inv_def)
  note r = assms(3) [unfolded True]
  note a = addsD [OF gcb_append_lines(1) [OF ok gcb_append_md(1) [OF ok r] r]]
  from a(1) have "bufferedLines g' = int (length (lines_of g'))" by (simp add: gcb_ok_def)
  then show ?thesis using True a gcb_append_inv [OF assms] by simp
next
  case False
  then show ?thesis
    using gcb_append_inv [OF assms] gt.app_rejected [where s = g and m = "(n, m)" and s' = g'] assms
    by (auto simp: gcb_inv_def)
qed

lemma GCodeBuffer_init_inv: "gcb_inv GCodeBuffer_init"
  by (simp add: gcb_inv_def gcb_ok_def GCodeBuffer_init_def lines_of_def MAX_BUFFER_SIZE_def)

lemma append_init_OK:
  assumes "int (length gcode) \<le> MAX_BUFFER_SIZE"
  shows "\<exists>g'. gcb_append gcode n None GCodeBuffer_init = Some (GSR_OK, g')"
proof -
  have "append_sanity GCodeBuffer_init None = GSR_OK"
    by (simp add: append_sanity_def GCodeBuffer_init_def MetaData_init_def)
  moreover have "(bufferSize GCodeBuffer_init + int (length gcode)) mod 2 ^ 64 = int (length gcode)"
    using assms by (simp add: GCodeBuffer_init_def MAX_BUFFER_SIZE_def)
  ultimately show ?thesis using assms by (simp add: gcb_append_Some)
qed

theorem append_adds_lines_witness:
  "\<exists>g'. gcb_append ''G1 X2;move\<newline>'' (-1) None GCodeBuffer_init = Some (GSR_OK, g') \<and>
     lines_of g' = [''G1 X2'']"
proof -
  obtain g' where g': "gcb_append ''G1 X2;move\<newline>'' (-1) None GCodeBuffer_init = Some (GSR_OK, g')"
    using append_init_OK [of "''G1 X2;move\<newline>''"] by (auto simp: MAX_BUFFER_SIZE_def)
  have "gcode_lines False ''G1 X2;move\<newline>'' = [''G1 X2'']" by code_simp
  then show ?thesis
    using append_adds_lines [OF GCodeBuffer_init_inv _ g'] g'
    by (auto simp: GCodeBuffer_init_def lines_of_def)
qed

lemma gcb_clear_inv: "gcb_inv (gcb_clear g)"
  by (simp add: gcb_inv_def gcb_ok_def gcb_clear_def lines_of_def MAX_BUFFER_SIZE_def)

lemma gcb_clear_simps [simp]:
  "lines_of (gcb_clear g) = []" "keepGpxMacroComments (gcb_clear g) = keepGpxMacroComments g"
  by (simp_all add: gcb_clear_def lines_of_def)

text \<open>The text appended by a list of pieces, each with its line total and its meta data.\<close>

abbreviation append_pieces where
  "append_pieces \<equiv> append_all (\<lambda>m t. gcb_append t (fst m) (snd m)) (\<lambda>r. r = GSR_OK)"

definition piece_text :: "((int \<times> MetaData option) \<times> string) list \<Rightarrow> string" where
  "piece_text ps = concat (map snd ps)"

lemma gcode_lines_pieces:
  assumes "\<forall>p \<in> set (butlast ps). snd p \<noteq> [] \<and> last (snd p) = NL"
  shows "gcode_lines k (piece_text ps) = concat (map (\<lambda>p. gcode_lines k (snd p)) ps)"
  using assms
proof (induction ps)
  case (Cons p ps)
  show ?case
  proof (cases "ps = []")
    case False
    with Cons.prems have "snd p \<noteq> [] \<and> last (snd p) = NL" by simp
    from gcode_lines_append [of "snd p" k "piece_text ps"] this
    show ?thesis using Cons False by (simp add: piece_text_def)
  qed (simp add: piece_text_def)
qed (simp add: piece_text_def)

lemma append_pieces_lines:
  assumes "gcb_ok g" "append_pieces ps g = Some g'"
    and "\<forall>p \<in> set (butlast ps). snd p \<noteq> [] \<and> last (snd p) = NL"
  shows "gcb_ok g' \<and> lines_of g' = lines_of g @ gcode_lines (keepGpxMacroComments g) (piece_text ps)"
  using gt.append_all_lines [OF assms(1,2)] gcode_lines_pieces [OF assms(3)] by simp

lemma append_pieces_numbers:
  assumes "gcb_ok g" "seqNumber (md g) \<ge> 0" "append_pieces ps g = Some g'" "i < length ps"
  shows "\<exists>m. snd (fst (ps ! i)) = Some m \<and> seqNumber m = seqNumber (md g) + 1 + int i \<and>
    (seqTotal (md g) \<ge> 0 \<longrightarrow> seqTotal m = seqTotal (md g) \<and> seqNumber m < seqTotal m) \<and>
    (source (md g) \<noteq> None \<longrightarrow> source m = source (md g))"
  using assms
proof (induction ps arbitrary: g i)
  case (Cons p ps)
  obtain n mo t where p: "p = ((n, mo), t)" by (metis surj_pair)
  from Cons.prems(3) obtain g1 where g1: "gcb_append t n mo g = Some (GSR_OK, g1)" "append_pieces ps g1 = Some g'"
    by (auto simp: p split: option.splits if_splits)
  note a = gcb_append_md [OF Cons.prems(1) g1(1)]
  from a(1) Cons.prems(2) obtain m where m: "mo = Some m" "seqNumber m = seqNumber (md g) + 1"
    "seqTotal (md g) \<ge> 0 \<longrightarrow> seqTotal m = seqTotal (md g) \<and> seqNumber m < seqTotal m"
    "source (md g) \<noteq> None \<longrightarrow> source m = source (md g)"
    by (auto simp: append_sanity_OK)
  have ok: "gcb_ok g1" using gt.app_ok [where m = "(n, mo)" and t = t] Cons.prems(1) g1(1) by auto
  have md1: "seqNumber (md g1) = seqNumber m" "seqTotal (md g1) = seqTotal m"
    "source (md g) \<noteq> None \<Longrightarrow> source (md g1) = source (md g)"
    using a(2) m(1) by (auto simp: accept_meta_def)
  show ?case
  proof (cases i)
    case 0
    then show ?thesis using m p by auto
  next
    case (Suc j)
    have "\<exists>m. snd (fst (ps ! j)) = Some m \<and> seqNumber m = seqNumber (md g1) + 1 + int j \<and>
      (seqTotal (md g1) \<ge> 0 \<longrightarrow> seqTotal m = seqTotal (md g1) \<and> seqNumber m < seqTotal m) \<and>
      (source (md g1) \<noteq> None \<longrightarrow> source m = source (md g1))"
      by (rule Cons.IH) (use ok md1 m Cons.prems(2,4) g1(2) Suc in auto)
    then show ?thesis using Suc md1 m by auto
  qed
qed simp

text \<open>C22: Whatever pieces were appended to a cleared buffer, all ended by a newline but the last:
  reading and erasing up to \<open>k\<close> lines at a time never meets undefined behaviour, ends, and
  hands out exactly the lines of the whole text, in order and once each, leaving nothing; how the
  text was cut, how it was spread over buckets and how many lines are read at once makes no
  difference.\<close>

theorem pieces_delivered:
  assumes "append_pieces ps (gcb_clear g) = Some g'"
    and "\<forall>p \<in> set (butlast ps). snd p \<noteq> [] \<and> last (snd p) = NL"
  shows "\<exists>ts g''. drain getNextLine eraseLine k (length (lines_of g')) g' = Some (ts, g'') \<and>
    concat (map text_lines ts) = gcode_lines (keepGpxMacroComments g) (piece_text ps) \<and>
    lines_of g'' = [] \<and> bufferedLines g'' = 0"
proof -
  have "gcb_ok (gcb_clear g)" using gcb_clear_inv by (simp add: gcb_inv_def)
  from append_pieces_lines [OF this assms] have g': "gcb_ok g'"
    "lines_of g' = gcode_lines (keepGpxMacroComments g) (piece_text ps)" by simp_all
  from gq.drain_all [OF g'(1) order_refl, of k] show ?thesis
    using g'(2) by (auto simp: gcb_ok_def)
qed

text \<open>C28: Once a cleared buffer has accepted a first piece with a sequence number, the accepted
  pieces are numbered 0, 1, 2, ... without gap or repetition, and the total and the source given
  with the first piece are the same on each further one, its number being below the total.\<close>

theorem accepted_numbers:
  assumes "append_pieces (((n, Some m0), t) # ps) (gcb_clear g) = Some g'" "seqNumber m0 \<ge> 0"
  shows "seqNumber m0 = 0 \<and>
    (\<forall>i < length ps. \<exists>m. snd (fst (ps ! i)) = Some m \<and> seqNumber m = 1 + int i \<and>
       (seqTotal m0 \<ge> 0 \<longrightarrow> seqTotal m = seqTotal m0 \<and> seqNumber m < seqTotal m) \<and>
       (source m0 \<noteq> None \<longrightarrow> source m = source m0))"
proof -
  have ok: "gcb_ok (gcb_clear g)" using gcb_clear_inv by (simp add: gcb_inv_def)
  from assms(1) obtain g1 where g1: "gcb_append t n (Some m0) (gcb_clear g) = Some (GSR_OK, g1)"
    "append_pieces ps g1 = Some g'" by (auto split: option.splits if_splits)
  note a = gcb_append_md [OF ok g1(1)]
  have m0: "seqNumber m0 = 0"
    using a(1) assms(2) by (auto simp: append_sanity_OK gcb_clear_def MetaData_init_def)
  have ok1: "gcb_ok g1" using gt.app_ok [where m = "(n, Some m0)" and t = t] ok g1(1) by auto
  have "md g1 = m0"
    using a(2) by (simp add: accept_meta_def gcb_clear_def MetaData_init_def)
  then show ?thesis using append_pieces_numbers [OF ok1 _ g1(2)] m0 by auto
qed

text \<open>C24: Looking at up to \<open>k\<close> lines and erasing up to \<open>k\<close> lines agree: with lines
  in the buffer neither is undefined, both give the same count, between one and \<open>k\<close> (one for
  \<open>k = 0\<close>), the text looked at consists of exactly the lines erased, and erasing keeps the
  invariant, takes them off the count of buffered lines and leaves the other counters.\<close>

theorem erase_what_was_read:
  assumes "gcb_inv g" "lines_of g \<noteq> []"
  shows "\<exists>j t g'. getNextLine k g = (int j, t) \<and> eraseLine k g = Some (int j, g') \<and> gcb_inv g' \<and>
    1 \<le> j \<and> j \<le> max 1 k \<and> text_lines t = take j (lines_of g) \<and> lines_of g' = drop j (lines_of g) \<and>
    bufferedLines g' = bufferedLines g - int j \<and> totalLinesSent g' = totalLinesSent g \<and>
    currentLine g' = currentLine g"
proof -
  have ok: "gcb_ok g" using assms(1) by (simp add: gcb_inv_def)
  obtain g' where g': "eraseLine k g = Some (int (taken k g), g')" "erases g (taken k g) g'"
    using eraseLine_erases [OF ok assms(2)] by blast
  note e = erasesD [OF g'(2)]
  show ?thesis
    using getNextLine_lines [OF ok assms(2), of k] getNextLine_text [OF ok assms(2), of k]
      taken_bounds [OF ok assms(2), of k] g'(1) e assms(1)
    by (auto simp: gcb_inv_def)
qed

text \<open>C39: A piece that is only comment without a newline, appended to a cleared buffer, is
  accepted and leaves an empty bucket whose bytes stay counted for ever; erasing a line from it
  is not refused and makes the number of buffered lines negative.\<close>

theorem comment_only_piece:
  assumes "vanishes (keepGpxMacroComments g) s" "int (length s) \<le> MAX_BUFFER_SIZE"
  shows "\<exists>g'. gcb_append s (-1) None (gcb_clear g) = Some (GSR_OK, g') \<and> buckets g' = [[]] \<and>
    bufferSize g' = int (length s) \<and> (\<exists>g''. eraseLine 1 g' = Some (1, g'') \<and> bufferedLines g'' = -1)"
proof -
  let ?c = "gcb_clear g" and ?k = "keepGpxMacroComments g"
  let ?a = "accept_meta (-1) None ?c"
  have "append_sanity ?c None = GSR_OK"
    by (simp add: append_sanity_def gcb_clear_def MetaData_init_def)
  moreover have "(bufferSize ?c + int (length s)) mod 2 ^ 64 = int (length s)"
    using assms(2) by (simp add: gcb_clear_def MAX_BUFFER_SIZE_def)
  ultimately have a: "gcb_append s (-1) None ?c = Some (GSR_OK, append_loop ?a s 0)"
    using assms(2) by (simp add: gcb_append_Some)
  have new: "gcode_lines ?k s = []" using assms(1) by (simp add: vanishes_def gcode_lines_def)
  have "NL \<notin> set s" by (rule vanishes_no_NL [OF assms(1)])
  then have "find_char NL s BUFFER_SPLIT_SIZE = None" by (auto simp: find_char_None dest: in_set_dropD)
  moreover have "s \<noteq> []" using assms(1) by (simp add: vanishes_def)
  ultimately have l: "append_loop ?a s 0 = appendChunk ?a s"
    by (subst append_loop.simps) (simp add: append_loop.simps [of _ s "length s"])
  have f: "fst (cleanupGCode ?k s 0 0) = []" "snd (cleanupGCode ?k s 0 0) = 0"
    using cleanupGCode_lines [of "[]" ?k s 0] cleanupGCode_size [of "[]" ?k s 0] assms(1) new by simp_all
  let ?g = "append_loop ?a s 0"
  have "?g = ?a\<lparr>buckets := [[]], bufferSize := int (length s)\<rparr>"
    unfolding l appendChunk_open
    by (simp add: open_buckets_def Let_def gcb_clear_def accept_meta_def f updateStats_def)
  then show ?thesis
    using a by (simp add: eraseLine_def find_char_def gcb_clear_def accept_meta_def)
qed

section \<open>Witnesses\<close>

lemma gcb_append_accepts:
  assumes "gcb_ok g" "append_sanity g m = GSR_OK" "bufferSize g + int (length t) \<le> MAX_BUFFER_SIZE"
  shows "\<exists>g'. gcb_append t n m g = Some (GSR_OK, g') \<and> gcb_ok g' \<and>
     bufferSize g' \<le> bufferSize g + int (length t) + 1 \<and> md g' = md (accept_meta n m g)"
proof -
  have "0 \<le> bufferSize g" using assms(1) by (auto simp: gcb_ok_def)
  then have "(bufferSize g + int (length t)) mod 2 ^ 64 = bufferSize g + int (length t)"
    using assms(3) by (intro mod_pos_pos_trivial) (auto simp: MAX_BUFFER_SIZE_def)
  then obtain g' where g': "gcb_append t n m g = Some (GSR_OK, g')"
    using assms by (auto simp: gcb_append_Some)
  then show ?thesis
    using gcb_append_lines [OF assms(1,2) g'] gcb_append_md [OF assms(1) g'] addsD(1) by blast
qed

definition two_pieces :: "((int \<times> MetaData option) \<times> string) list" where
  "two_pieces = [((3, Some \<lparr>seqNumber = 0, seqTotal = 2, source = Some ''a''\<rparr>), ''G28\<newline>G1 X2;c\<newline>''),
                 ((-1, Some \<lparr>seqNumber = 1, seqTotal = 2, source = Some ''a''\<rparr>), ''G1 Y3'')]"

lemma two_pieces_accepted: "\<exists>g'. append_pieces two_pieces (gcb_clear g) = Some g'"
proof -
  let ?c = "gcb_clear g"
  let ?m = "\<lambda>n. Some \<lparr>seqNumber = n, seqTotal = 2, source = Some ''a''\<rparr>"
  have ok: "gcb_ok ?c" using gcb_clear_inv by (simp add: gcb_inv_def)
  have c: "md ?c = MetaData_init" "bufferSize ?c = 0" by (simp_all add: gcb_clear_def)
  obtain g1 where g1: "gcb_append ''G28\<newline>G1 X2;c\<newline>'' 3 (?m 0) ?c = Some (GSR_OK, g1)" "gcb_ok g1"
    "bufferSize g1 \<le> 100" "md g1 = the (?m 0)"
    using gcb_append_accepts [OF ok, of "?m 0" "''G28\<newline>G1 X2;c\<newline>''" 3]
    by (auto simp: append_sanity_def c MetaData_init_def MAX_BUFFER_SIZE_def accept_meta_def)
  obtain g2 where "gcb_append ''G1 Y3'' (-1) (?m 1) g1 = Some (GSR_OK, g2)"
    using gcb_append_accepts [OF g1(2), of "?m 1" "''G1 Y3''" "-1"] g1(3,4)
    by (auto simp: append_sanity_def MAX_BUFFER_SIZE_def)
  then show ?thesis using g1(1) by (simp add: two_pieces_def)
qed

lemma two_pieces_ended: "\<forall>p \<in> set (butlast two_pieces). snd p \<noteq> [] \<and> last (snd p) = NL"
  by (simp add: two_pieces_def)

theorem pieces_delivered_witness:
  "\<exists>g' ts g''. append_pieces two_pieces (gcb_clear GCodeBuffer_init) = Some g' \<and>
     drain getNextLine eraseLine 2 (length (lines_of g')) g' = Some (ts, g'') \<and>
     concat (map text_lines ts) = [''G28'', ''G1 X2'', ''G1 Y3'']"
proof -
  obtain g' where g': "append_pieces two_pieces (gcb_clear GCodeBuffer_init) = Some g'"
    using two_pieces_accepted by blast
  have "gcode_lines False (piece_text two_pieces) = [''G28'', ''G1 X2'', ''G1 Y3'']" by code_simp
  then show ?thesis
    using pieces_delivered [OF g' two_pieces_ended, of 2] g' by (auto simp: GCodeBuffer_init_def)
qed

theorem accepted_numbers_witness:
  "\<exists>g'. append_pieces two_pieces (gcb_clear GCodeBuffer_init) = Some g' \<and>
     (\<exists>m. snd (fst (two_pieces ! 1)) = Some m \<and> seqNumber m = 1 \<and> seqTotal m = 2)"
proof -
  obtain g' where g': "append_pieces two_pieces (gcb_clear GCodeBuffer_init) = Some g'"
    using two_pieces_accepted by blast
  from accepted_numbers [OF g' [unfolded two_pieces_def]] show ?thesis
    using g' by (auto simp: two_pieces_def)
qed

definition split_buffer :: GCodeBuffer where
  "split_buffer = GCodeBuffer_init\<lparr>buckets := [unlines [''G28'', ''M105''], unlines [''G1 X2'']],
     bufferedLines := 3, totalLinesSent := 3, bufferSize := 16\<rparr>"

lemma split_buffer_inv: "gcb_inv split_buffer"
  unfolding gcb_inv_def gcb_ok_def MAX_BUFFER_SIZE_def buckets_ok_def bucket_ok_def by code_simp

theorem erase_what_was_read_witness:
  "gcb_inv split_buffer \<and> lines_of split_buffer = [''G28'', ''M105'', ''G1 X2''] \<and>
     (\<exists>g'. eraseLine 5 split_buffer = Some (2, g') \<and> lines_of g' = [''G1 X2''])"
proof -
  have l: "lines_of split_buffer = [''G28'', ''M105'', ''G1 X2'']" by code_simp
  have n: "fst (getNextLine 5 split_buffer) = 2" by code_simp
  show ?thesis using erase_what_was_read [OF split_buffer_inv, of 5] l n split_buffer_inv by auto
qed

theorem comment_only_piece_witness:
  "vanishes False '';foo'' \<and>
     (\<exists>g'. gcb_append '';foo'' (-1) None (gcb_clear GCodeBuffer_init) = Some (GSR_OK, g') \<and> bufferSize g' = 4)"
proof -
  have v: "vanishes False '';foo''" by code_simp
  then show ?thesis
    using comment_only_piece [of GCodeBuffer_init "'';foo''"]
    by (auto simp: GCodeBuffer_init_def MAX_BUFFER_SIZE_def)
qed

end
