(* ===== verification/SerialPort.thy ===== *)
theory SerialPort
  imports Utils
begin

text \<open>
  The serial port, \<open>src/src/drivers/Serial.cpp\<close> and \<open>Serial.h\<close>: the descriptor,
  the receive buffer and the operations on them. What the operating system returns is an argument:
  the descriptor of \<open>open\<close>, the results of the \<open>ioctl\<close> calls, the events of
  \<open>read\<close>. \<open>written\<close> records the calls of \<open>write\<close>, whose result the
  code does not look at.
\<close>

record Serial =
  portFd :: int
  sbuf :: bytes
  written :: "bytes list"

definition Serial_init :: Serial where
  "Serial_init = \<lparr>portFd = -1, sbuf = [], written = []\<rparr>"

section \<open>Opening and closing\<close>

definition serial_open :: "int \<Rightarrow> Serial \<Rightarrow> int \<times> Serial" where
  "serial_open fd s = (if fd < 0 then fd else 0, s\<lparr>portFd := fd\<rparr>)"

definition serial_close :: "int \<Rightarrow> Serial \<Rightarrow> int \<times> Serial" where
  "serial_close os_rv s = (if portFd s \<ge> 0 then (os_rv, s\<lparr>portFd := -1\<rparr>) else (0, s))"

definition serial_isOpen :: "Serial \<Rightarrow> bool" where
  "serial_isOpen s \<longleftrightarrow> portFd s > -1"

section \<open>Speed\<close>

datatype SET_SPEED_RESULT =
  SSR_OK | SSR_IO_GET | SSR_IO_IOSSIOSPEED | SSR_IO_SET | SSR_IO_MGET | SSR_IO_MSET1 | SSR_IO_MSET2

record termios2 =
  c_cflag :: "32 word"
  c_ispeed :: int
  c_ospeed :: int

unbundle bit_operations_syntax

definition CREAD :: "32 word" where "CREAD = 0x80"
definition CLOCAL :: "32 word" where "CLOCAL = 0x800"
definition CRTSCTS :: "32 word" where "CRTSCTS = 0x80000000"
definition PARENB :: "32 word" where "PARENB = 0x100"
definition CSTOPB :: "32 word" where "CSTOPB = 0x40"
definition CSIZE :: "32 word" where "CSIZE = 0x30"
definition CS8 :: "32 word" where "CS8 = 0x30"
definition CBAUD :: "32 word" where "CBAUD = 0x100F"
definition BOTHER :: "32 word" where "BOTHER = 0x1000"
definition TIOCM_DTR :: "32 word" where "TIOCM_DTR = 2"

text \<open>
  What the \<open>ioctl\<close> calls of the Linux build answer, in their order: the settings read (or a
  failure), whether writing them works, the modem bits read, whether the two writes of the modem
  bits work. \<open>cfmakeraw\<close> is a parameter.
\<close>

record ioctls =
  tcgets2 :: "termios2 option"
  tcsets2 :: bool
  tiocmget :: "32 word option"
  tiocmset1 :: bool
  tiocmset2 :: bool

definition speed_options :: "(termios2 \<Rightarrow> termios2) \<Rightarrow> int \<Rightarrow> termios2 \<Rightarrow> termios2" where
  "speed_options cfmakeraw speed t =
     (let t = cfmakeraw t;
          f = c_cflag t OR CREAD;
          f = f AND NOT CLOCAL;
          f = f AND NOT CRTSCTS;
          f = f AND NOT PARENB;
          f = f AND NOT CSTOPB;
          f = f AND NOT CSIZE;
          f = f OR CS8;
          f = f OR CLOCAL;
          f = f AND NOT CBAUD;
          f = f OR BOTHER
      in t\<lparr>c_ospeed := speed, c_ispeed := speed, c_cflag := f\<rparr>)"

text \<open>The result with the settings and the modem bits handed to the kernel.\<close>

definition setSpeed ::
  "(termios2 \<Rightarrow> termios2) \<Rightarrow> ioctls \<Rightarrow> int \<Rightarrow> SET_SPEED_RESULT \<times> termios2 option \<times> 32 word list" where
  "setSpeed cfmakeraw io speed =
     (case tcgets2 io of
        None \<Rightarrow> (SSR_IO_GET, None, [])
      | Some t \<Rightarrow>
          let t' = speed_options cfmakeraw speed t
          in if \<not> tcsets2 io then (SSR_IO_SET, Some t', [])
             else case tiocmget io of
                    None \<Rightarrow> (SSR_IO_MGET, Some t', [])
                  | Some bits \<Rightarrow>
                      let on = bits OR TIOCM_DTR; off = on AND NOT TIOCM_DTR
                      in if \<not> tiocmset1 io then (SSR_IO_MSET1, Some t', [on])
                         else if \<not> tiocmset2 io then (SSR_IO_MSET2, Some t', [on, off])
                         else (SSR_OK, Some t', [on, off]))"

section \<open>Writing\<close>

definition serial_send :: "bytes \<Rightarrow> Serial \<Rightarrow> bool \<times> Serial" where
  "serial_send code s =
     (if portFd s \<ge> 0 then (True, s\<lparr>written := written s @ [cstr code]\<rparr>) else (False, s))"

definition serial_write :: "bytes \<Rightarrow> Serial \<Rightarrow> bool \<times> Serial" where
  "serial_write data s =
     (if portFd s \<ge> 0 then (True, s\<lparr>written := written s @ [data]\<rparr>) else (False, s))"

definition serial_write_byte :: "char \<Rightarrow> Serial \<Rightarrow> bool \<times> Serial" where
  "serial_write_byte b s = serial_write [b] s"

section \<open>Reading\<close>

text \<open>The results are the return value, \<open>errno\<close>, the port and the events left.\<close>

definition serial_readData ::
  "read_ev list \<Rightarrow> int \<Rightarrow> bool \<Rightarrow> Serial \<Rightarrow> int \<times> int \<times> Serial \<times> read_ev list" where
  "serial_readData es timeout onlyOnce s =
     (let (rv, buf, e, es') = readAndAppendAvailableData es (sbuf s) timeout onlyOnce
      in (rv, e, s\<lparr>sbuf := buf\<rparr>, es'))"

lemma serial_readData_grows:
  assumes "serial_readData es t n s = (rv, e, s', es')"
  shows "\<exists>new. sbuf s' = sbuf s @ new \<and> (rv \<ge> 0 \<longrightarrow> rv = int (length new))"
    "portFd s' = portFd s" "written s' = written s"
  using assms by (auto simp: serial_readData_def readAndAppendAvailableData_def
      split: prod.splits dest!: read_loop_appends)

function readDataWithLen ::
  "nat \<Rightarrow> int \<Rightarrow> nat \<Rightarrow> read_ev list \<Rightarrow> Serial \<Rightarrow> int \<times> Serial \<times> read_ev list" where
  "readDataWithLen len timeout startSize es s =
     (if length (sbuf s) < startSize + len then
        let (rv, e, s', es') = serial_readData es timeout True s
        in if rv < 0 then (rv, s', es')
           else if rv = 0 then (int (length (sbuf s')) - int startSize, s', es')
           else readDataWithLen len timeout startSize es' s'
      else (int (length (sbuf s)) - int startSize, s, es))"
  by pat_completeness auto
termination
  by (relation "measure (\<lambda>(len, timeout, startSize, es, s). startSize + len - length (sbuf s))")
     (auto dest!: sym [of "(_, _)" "serial_readData _ _ _ _"] serial_readData_grows(1) intro!: diff_less_mono2)

declare readDataWithLen.simps [simp del]

text \<open>
  Reading past the buffer; the result is the return value, \<open>errno\<close> and the bytes read.
\<close>

fun readBytesDirect :: "nat \<Rightarrow> int \<Rightarrow> read_ev list \<Rightarrow> int \<times> int \<times> bytes \<times> read_ev list" where
  "readBytesDirect buflen timeout [] = (0, 0, [], [])"
| "readBytesDirect buflen timeout (RdBlock pollin # es) =
     (if 0 < timeout \<and> pollin then readBytesDirect buflen timeout es else (0, 0, [], es))"
| "readBytesDirect buflen timeout (RdIntr # es) = readBytesDirect buflen timeout es"
| "readBytesDirect buflen timeout (RdErr e # es) = (-1, e, [], es)"
| "readBytesDirect buflen timeout (RdEOF # es) = (-2, 0, [], es)"
| "readBytesDirect buflen timeout (RdData d # es) =
     (let got = take buflen d; rest = drop buflen d
      in if got = [] then (-2, 0, [], es)
         else (int (length got), 0, got, if rest = [] then es else RdData rest # es))"

definition readByteDirect :: "int \<Rightarrow> read_ev list \<Rightarrow> int \<times> int \<times> read_ev list" where
  "readByteDirect timeout es =
     (let (rv, e, d, es') = readBytesDirect 1 timeout es
      in (if rv = 0 then -2 else if rv < 0 then rv else of_char (hd d), e, es'))"

section \<open>The receive buffer\<close>

definition clearBuffer :: "Serial \<Rightarrow> Serial" where
  "clearBuffer s = s\<lparr>sbuf := []\<rparr>"

definition extractByte :: "Serial \<Rightarrow> int \<times> Serial" where
  "extractByte s = (case sbuf s of [] \<Rightarrow> (-1, s) | c # r \<Rightarrow> (of_char c, s\<lparr>sbuf := r\<rparr>))"

definition extractBytes :: "nat \<Rightarrow> Serial \<Rightarrow> int \<times> bytes \<times> Serial" where
  "extractBytes buflen s =
     (if length (sbuf s) < buflen then (-1, [], s)
      else (int buflen, take buflen (sbuf s), s\<lparr>sbuf := drop buflen (sbuf s)\<rparr>))"

text \<open>
  A line without its newline and a carriage return before it, as a C string. On an empty line the
  code reads the byte in front of its copy: undefined.
\<close>

definition strip_cr :: "string \<Rightarrow> string" where
  "strip_cr l = (if l \<noteq> [] \<and> last l = CR then butlast l else l)"

definition extractLine :: "Serial \<Rightarrow> (string option \<times> Serial) option" where
  "extractLine s =
     (case index_of ((=) NL) (sbuf s) of
        None \<Rightarrow> Some (None, s)
      | Some n \<Rightarrow>
          if n = 0 then None
          else Some (Some (cstr (strip_cr (take n (sbuf s)))), s\<lparr>sbuf := drop (n + 1) (sbuf s)\<rparr>))"

lemma extractLine_line:
  assumes "NL \<notin> set l" "l \<noteq> []" "sbuf s = l @ NL # r"
  shows "extractLine s = Some (Some (cstr (strip_cr l)), s\<lparr>sbuf := r\<rparr>)"
  using find_char_unlines [of l r] assms by (simp add: extractLine_def is_line_def)

lemma extractLine_none: "NL \<notin> set (sbuf s) \<Longrightarrow> extractLine s = Some (None, s)"
  by (auto simp: extractLine_def index_of_None split: option.splits dest!: index_of_Some)

lemma extractLine_shorter:
  assumes "extractLine s = Some (Some l, s')"
  shows "length (sbuf s') < length (sbuf s)" "portFd s' = portFd s" "written s' = written s"
  using assms by (auto simp: extractLine_def split: option.splits if_splits dest!: index_of_Some)

end
