(* ===== verification/Atof.thy ===== *)
theory Atof
  imports Utils
begin

text \<open>
  What the drivers use of \<open>atof\<close> of the C library, in the C locale: the text is read as a
  decimal or hexadecimal floating-point constant, rounded to the nearest \<open>double\<close>, and the
  caller converts it to \<open>int\<close>. The conversion truncates; it is undefined (\<open>None\<close>)
  when the number is not finite or does not fit in 32 bits.
\<close>

section \<open>Reading a constant\<close>

definition isspace :: "char \<Rightarrow> bool" where
  "isspace c \<longleftrightarrow> c = CHR '' '' \<or> (9 \<le> (of_char c :: nat) \<and> (of_char c :: nat) \<le> 13)"

definition digit_of :: "nat \<Rightarrow> char \<Rightarrow> nat option" where
  "digit_of base c =
     (let n = of_char c in
      if 48 \<le> n \<and> n < 58 then Some (n - 48)
      else if base = 16 \<and> 97 \<le> n \<and> n < 103 then Some (n - 87)
      else if base = 16 \<and> 65 \<le> n \<and> n < 71 then Some (n - 55)
      else None)"

definition is_digit :: "nat \<Rightarrow> char \<Rightarrow> bool" where
  "is_digit base c \<longleftrightarrow> digit_of base c \<noteq> None"

definition digits_val :: "nat \<Rightarrow> string \<Rightarrow> nat" where
  "digits_val base ds = foldl (\<lambda>a c. base * a + the (digit_of base c)) 0 ds"

text \<open>Digits with an optional point: the value without the point, the number of digits behind it,
  the rest; \<open>None\<close> without any digit.\<close>

definition mantissa :: "nat \<Rightarrow> string \<Rightarrow> (nat \<times> nat \<times> string) option" where
  "mantissa base s =
     (let ip = takeWhile (is_digit base) s;
          r = dropWhile (is_digit base) s;
          (fp, r') = (case r of
              [] \<Rightarrow> ([], r)
            | c # t \<Rightarrow> if c = CHR ''.'' then (takeWhile (is_digit base) t, dropWhile (is_digit base) t)
                       else ([], r))
      in if ip = [] \<and> fp = [] then None else Some (digits_val base (ip @ fp), length fp, r'))"

definition sign :: "string \<Rightarrow> bool \<times> string" where
  "sign s = (case s of [] \<Rightarrow> (False, s)
     | c # t \<Rightarrow> if c = CHR ''-'' then (True, t) else if c = CHR ''+'' then (False, t) else (False, s))"

definition exponent :: "char list \<Rightarrow> string \<Rightarrow> int" where
  "exponent letters s =
     (case s of
        [] \<Rightarrow> 0
      | c # t \<Rightarrow>
          if c \<in> set letters then
            let (neg, t') = sign t; ds = takeWhile (is_digit 10) t'
            in if ds = [] then 0
               else if neg then - int (digits_val 10 ds) else int (digits_val 10 ds)
          else 0)"

definition lower :: "char \<Rightarrow> char" where
  "lower c = (if 65 \<le> (of_char c :: nat) \<and> (of_char c :: nat) < 91 then char_of ((of_char c :: nat) + 32) else c)"

text \<open>A constant is a sign, a numerator and a denominator, or not finite.\<close>

datatype numconst = Const bool nat nat | Non_finite

definition strtod :: "string \<Rightarrow> numconst" where
  "strtod s =
     (let (neg, t) = sign (dropWhile isspace s);
          t3 = map lower (take 3 t)
      in if t3 = ''inf'' \<or> t3 = ''nan'' then Non_finite
         else case (if map lower (take 2 t) = ''0x'' then mantissa 16 (drop 2 t) else None) of
                Some (v, k, r) \<Rightarrow>
                  let e = exponent ''pP'' r
                  in Const neg (v * 2 ^ nat e) (16 ^ k * 2 ^ nat (- e))
              | None \<Rightarrow>
                  (case mantissa 10 t of
                     None \<Rightarrow> Const False 0 1
                   | Some (v, k, r) \<Rightarrow>
                       let e = exponent ''eE'' r
                       in Const neg (v * 10 ^ nat e) (10 ^ k * 10 ^ nat (- e))))"

section \<open>Rounding to double and truncating\<close>

definition round_even :: "nat \<Rightarrow> nat \<Rightarrow> nat" where
  "round_even n d =
     (let q = n div d; r = n mod d
      in if 2 * r > d \<or> (2 * r = d \<and> odd q) then q + 1 else q)"

text \<open>
  A number with an integer part of \<open>b \<le> 53\<close> bits is rounded to \<open>53 - b\<close> binary
  places; a number below 1/2 has more places in a \<open>double\<close>, but cannot be rounded up to 1.
\<close>

definition trunc_double :: "nat \<Rightarrow> nat \<Rightarrow> nat" where
  "trunc_double n d =
     (let s = 53 - floorlog 2 (n div d) in round_even (n * 2 ^ s) d div 2 ^ s)"

definition atof_int :: "string \<Rightarrow> int option" where
  "atof_int s =
     (case strtod s of
        Non_finite \<Rightarrow> None
      | Const neg n d \<Rightarrow>
          let v = trunc_double n d
          in if neg then (if v \<le> 2 ^ 31 then Some (- int v) else None)
             else if v < 2 ^ 31 then Some (int v) else None)"

section \<open>Reading what was printed\<close>

lemma digit_of_digit: "d < 10 \<Longrightarrow> digit_of 10 (digit d) = Some d"
  by (auto simp: digit_of_def digit_def Let_def of_char_of)

lemma digits_dec: "digits_val 10 (u @ dec n) = digits_val 10 u * 10 ^ length (dec n) + n"
proof (induction n arbitrary: u rule: dec.induct)
  case (1 n)
  show ?case
  proof (cases "n < 10")
    case True
    then show ?thesis by (simp add: dec.simps [of n] digits_val_def digit_of_digit)
  next
    case False
    have "dec n = dec (n div 10) @ [digit (n mod 10)]" using False by (subst dec.simps) simp
    moreover have "digits_val 10 (v @ [digit (n mod 10)]) = 10 * digits_val 10 v + n mod 10" for v
      by (simp add: digits_val_def digit_of_digit)
    ultimately show ?thesis using "1" [of u] False
      by (simp flip: append_assoc)
  qed
qed

lemma is_digit_dec: "c \<in> set (dec n) \<Longrightarrow> is_digit 10 c"
  by (auto dest!: dec_chars simp: is_digit_def digit_of_digit)

lemma dec_not_Nil [simp]: "dec n \<noteq> []"
  by (subst dec.simps) auto

lemma trunc_double_int:
  assumes "n < 2 ^ 53"
  shows "trunc_double n 1 = n"
  by (simp add: trunc_double_def round_even_def Let_def)

text \<open>What may follow a number so that it ends there.\<close>

definition ends_number :: "string \<Rightarrow> bool" where
  "ends_number r \<longleftrightarrow> (case r of [] \<Rightarrow> True
     | c # _ \<Rightarrow> \<not> is_digit 10 c \<and> c \<noteq> CHR ''.'' \<and> lower c \<noteq> CHR ''e'' \<and> lower c \<noteq> CHR ''x'')"

lemma lower_digit: "d < 10 \<Longrightarrow> lower (digit d) = digit d"
  by (simp add: lower_def digit_def of_char_of)

lemma digit_neq: "d < 10 \<Longrightarrow> digit d \<notin> {CHR ''i'', CHR ''n'', CHR ''-'', CHR ''+'', CHR '' '', CHR ''x''}"
proof -
  have "\<forall>d \<in> set [0..<10]. digit d \<notin> {CHR ''i'', CHR ''n'', CHR ''-'', CHR ''+'', CHR '' '', CHR ''x''}"
    by code_simp
  then show "d < 10 \<Longrightarrow> ?thesis" by simp
qed

lemma strtod_dec:
  assumes "ends_number r"
  shows "strtod (dec n @ r) = Const False n 1"
proof -
  obtain c t where ct: "dec n = c # t" by (cases "dec n") simp_all
  then obtain d where d: "d < 10" "c = digit d" using dec_chars [of c n] by auto
  note dn = digit_neq [OF d(1), folded d(2)]
  have sp: "\<not> isspace c"
    using d dn by (auto simp: isspace_def digit_def of_char_of)
  have tw: "takeWhile (is_digit 10) (dec n @ r) = dec n" "dropWhile (is_digit 10) (dec n @ r) = r"
    using assms is_digit_dec by (cases r; auto simp: ends_number_def takeWhile_append2 dropWhile_append2)+
  have m: "mantissa 10 (dec n @ r) = Some (n, 0, r)"
    unfolding mantissa_def tw Let_def
    using assms digits_dec [of "[]" n] by (cases r) (simp_all add: ends_number_def digits_val_def)
  have lw: "lower CHR ''E'' = CHR ''e''" "lower CHR ''e'' = CHR ''e''" by code_simp+
  have e: "exponent ''eE'' r = 0"
    using assms lw by (cases r) (auto simp: exponent_def ends_number_def)
  have sg: "sign (dropWhile isspace (dec n @ r)) = (False, dec n @ r)"
    using sp dn by (simp add: ct sign_def)
  have x: "map lower (take 2 (dec n @ r)) \<noteq> ''0x''"
  proof (cases t)
    case Nil
    then show ?thesis using assms by (cases r) (auto simp: ct ends_number_def)
  next
    case (Cons c2 t2)
    then have "c2 \<in> set (dec n)" using ct by simp
    then obtain d2 where "d2 < 10" "c2 = digit d2" using dec_chars by blast
    then have "lower c2 \<noteq> CHR ''x''" using digit_neq [of d2] lower_digit [of d2] by auto
    then show ?thesis by (simp add: ct Cons)
  qed
  have "lower c = c" using lower_digit [OF d(1)] d(2) by simp
  then have t3: "map lower (take 3 (dec n @ r)) \<noteq> ''inf''" "map lower (take 3 (dec n @ r)) \<noteq> ''nan''"
    using dn by (auto simp: ct)
  show ?thesis
    unfolding strtod_def by (simp only: sg Let_def prod.case t3 x m) (simp add: e)
qed

lemma atof_dec:
  assumes "ends_number r" "n < 2 ^ 31"
  shows "atof_int (dec n @ r) = Some (int n)"
  using assms trunc_double_int [of n] by (simp add: atof_int_def strtod_dec)

end
