(* ===== verification/Driver.thy ===== *)
theory Driver
  imports GCodeBuffer SerialPort Atof
begin

text \<open>
  The common part of the printer drivers, \<open>src/src/drivers/AbstractDriver.cpp\<close> and
  \<open>AbstractDriver.h\<close>: the record \<open>AbstractDriver\<close> with the members of the class,
  and one function per method. The methods a driver may override are arguments of the methods that
  call them (\<open>sendCode\<close>, \<open>resetPrint\<close>, \<open>setGCode\<close>,
  \<open>startPrint\<close>), so that a driver is an extension of the record with its own versions.
  \<open>None\<close> is an uncaught exception or undefined behaviour.
\<close>

section \<open>State\<close>

datatype STATE = UNKNOWN | DISCONNECTED | CONNECTING | IDLE | BUFFERING | PRINTING | STOPPING

text \<open>The order of the values of the enumeration.\<close>

fun state_value :: "STATE \<Rightarrow> nat" where
  "state_value UNKNOWN = 0"
| "state_value DISCONNECTED = 1"
| "state_value CONNECTING = 2"
| "state_value IDLE = 3"
| "state_value BUFFERING = 4"
| "state_value PRINTING = 5"
| "state_value STOPPING = 6"

lemma state_value_inject: "state_value s = state_value t \<Longrightarrow> s = t"
  by (cases s; cases t) simp_all

instantiation STATE :: linorder
begin

definition less_eq_STATE :: "STATE \<Rightarrow> STATE \<Rightarrow> bool" where
  "less_eq_STATE s t \<longleftrightarrow> state_value s \<le> state_value t"

definition less_STATE :: "STATE \<Rightarrow> STATE \<Rightarrow> bool" where
  "less_STATE s t \<longleftrightarrow> state_value s < state_value t"

instance
  by standard (auto simp: less_eq_STATE_def less_STATE_def intro: state_value_inject)

end

fun getStateString :: "STATE \<Rightarrow> string" where
  "getStateString UNKNOWN = ''unknown''"
| "getStateString DISCONNECTED = ''disconnected''"
| "getStateString CONNECTING = ''connecting''"
| "getStateString IDLE = ''idle''"
| "getStateString BUFFERING = ''buffering''"
| "getStateString PRINTING = ''printing''"
| "getStateString STOPPING = ''stopping''"

text \<open>
  \<open>registeredFds\<close> is the server's set of descriptors, which the driver changes through
  \<open>registerFileDescriptor\<close> and \<open>unregisterFileDescriptor\<close>.
\<close>

record AbstractDriver =
  heating :: bool
  temperature :: "16 word"
  targetTemperature :: "16 word"
  bedTemperature :: "16 word"
  targetBedTemperature :: "16 word"
  dstate :: STATE
  gcodeBuffer :: GCodeBuffer
  serial :: Serial
  registeredFds :: "int set"
  serialPortPath :: string
  baudrate :: "32 word"

definition B115200 :: "32 word" where "B115200 = 115200"
definition B250000 :: "32 word" where "B250000 = 250000"

definition AbstractDriver_init :: "string \<Rightarrow> 32 word \<Rightarrow> AbstractDriver" where
  "AbstractDriver_init path baud =
     \<lparr>heating = False, temperature = 0, targetTemperature = 0, bedTemperature = 0,
      targetBedTemperature = 0, dstate = DISCONNECTED, gcodeBuffer = GCodeBuffer_init,
      serial = Serial_init, registeredFds = {}, serialPortPath = path, baudrate = baud\<rparr>"

definition setState :: "STATE \<Rightarrow> 'a AbstractDriver_scheme \<Rightarrow> 'a AbstractDriver_scheme" where
  "setState st d = d\<lparr>dstate := st\<rparr>"

definition isConnected :: "'a AbstractDriver_scheme \<Rightarrow> bool" where
  "isConnected d = serial_isOpen (serial d)"

definition isPrinterOnline :: "'a AbstractDriver_scheme \<Rightarrow> bool" where
  "isPrinterOnline d \<longleftrightarrow> dstate d \<noteq> UNKNOWN \<and> dstate d \<noteq> DISCONNECTED \<and> dstate d \<noteq> CONNECTING"

lemma isPrinterOnline_iff: "isPrinterOnline d \<longleftrightarrow> IDLE \<le> dstate d"
  by (cases "dstate d") (simp_all add: isPrinterOnline_def less_eq_STATE_def)

section \<open>The connection\<close>

definition registerFileDescriptor :: "int \<Rightarrow> int set \<Rightarrow> bool \<times> int set" where
  "registerFileDescriptor fd fds = (fd \<notin> fds, insert fd fds)"

definition unregisterFileDescriptor :: "int \<Rightarrow> int set \<Rightarrow> bool \<times> int set" where
  "unregisterFileDescriptor fd fds = (fd \<in> fds, fds - {fd})"

definition setBaudrate ::
  "(termios2 \<Rightarrow> termios2) \<Rightarrow> ioctls \<Rightarrow> 32 word \<Rightarrow> 'a AbstractDriver_scheme \<Rightarrow> 'a AbstractDriver_scheme" where
  "setBaudrate raw io baud d =
     (let d1 = d\<lparr>baudrate := baud\<rparr>
      in if fst (setSpeed raw io (sint baud)) = SSR_OK then setState CONNECTING d1 else d1)"

definition switchBaudrate ::
  "(termios2 \<Rightarrow> termios2) \<Rightarrow> ioctls \<Rightarrow> 'a AbstractDriver_scheme \<Rightarrow> 'a AbstractDriver_scheme" where
  "switchBaudrate raw io d = setBaudrate raw io (if baudrate d = B250000 then B115200 else B250000) d"

text \<open>\<open>os_open\<close> gives the descriptor (negative on failure) for a path.\<close>

definition openConnection ::
  "(string \<Rightarrow> int) \<Rightarrow> (termios2 \<Rightarrow> termios2) \<Rightarrow> ioctls \<Rightarrow> 'a AbstractDriver_scheme \<Rightarrow>
     int \<times> 'a AbstractDriver_scheme" where
  "openConnection os_open raw io d =
     (let (rv, s) = serial_open (os_open (cstr (serialPortPath d))) (serial d); d1 = d\<lparr>serial := s\<rparr>
      in if rv < 0 then (rv, d1)
         else let d2 = d1\<lparr>registeredFds := snd (registerFileDescriptor (portFd s) (registeredFds d1))\<rparr>
              in (0, setBaudrate raw io (baudrate d2) d2))"

definition closeConnection :: "int \<Rightarrow> 'a AbstractDriver_scheme \<Rightarrow> int \<times> 'a AbstractDriver_scheme" where
  "closeConnection os_rv d =
     (let d1 = setState DISCONNECTED d;
          d2 = d1\<lparr>registeredFds := snd (unregisterFileDescriptor (portFd (serial d1)) (registeredFds d1))\<rparr>;
          (rv, s) = serial_close os_rv (serial d2)
      in (rv, d2\<lparr>serial := s\<rparr>))"

text \<open>The result of an operation that may end the process (\<open>Server::requestExit\<close>).\<close>

datatype 'a outcome = Go 'a | Exit int

definition ENXIO :: int where "ENXIO = 6"
definition EBADF :: int where "EBADF = 9"

definition driver_readData ::
  "read_ev list \<Rightarrow> 'a AbstractDriver_scheme \<Rightarrow> (int \<times> 'a AbstractDriver_scheme) outcome" where
  "driver_readData es d =
     (let (rv, errno, s, es') = serial_readData es 0 False (serial d); d1 = d\<lparr>serial := s\<rparr>
      in if rv = -2 \<or> rv = -1 \<and> errno = ENXIO \<or> rv = -1 \<and> errno = EBADF
         then Exit 1
         else Go (rv, d1))"

section \<open>Numbers in g-code\<close>

text \<open>
  The text between \<open>startPos\<close> and the next newline, or without one the next space, as a
  number. A start behind the end of the text makes \<open>substr\<close> throw.
\<close>

definition findNumber :: "string \<Rightarrow> nat \<Rightarrow> int option" where
  "findNumber code startPos =
     (let posEnd = (case find_char NL code startPos of
                      Some p \<Rightarrow> Some p
                    | None \<Rightarrow> find_char (CHR '' '') code startPos)
      in if startPos > length code then None
         else atof_int (cstr (case posEnd of
                                None \<Rightarrow> drop startPos code
                              | Some e \<Rightarrow> take (e - startPos) (drop startPos code))))"

text \<open>Storing the number at a position, if there is one, in a member.\<close>

definition store_number ::
  "string \<Rightarrow> nat option \<Rightarrow> (16 word \<Rightarrow> 'd \<Rightarrow> 'd) \<Rightarrow> 'd \<Rightarrow> 'd option" where
  "store_number code pos upd d =
     (case pos of
        None \<Rightarrow> Some d
      | Some p \<Rightarrow> map_option (\<lambda>n. upd (word_of_int n) d) (findNumber code p))"

definition extractGCodeInfo :: "string \<Rightarrow> 'a AbstractDriver_scheme \<Rightarrow> 'a AbstractDriver_scheme option" where
  "extractGCodeInfo gcode d = do {
     d1 \<leftarrow> store_number gcode (map_option ((+) 6) (rfind_prefix ''M109'' gcode))
             (\<lambda>n d. d\<lparr>targetTemperature := n\<rparr>) d;
     store_number gcode (map_option ((+) 6) (rfind_prefix ''M190'' gcode))
       (\<lambda>n d. d\<lparr>targetBedTemperature := n\<rparr>) d1
   }"

lemma store_number_frame: "store_number code pos upd d = Some d' \<Longrightarrow> d' = d \<or> (\<exists>n. d' = upd n d)"
  by (auto simp: store_number_def split: option.splits)

lemma extractGCodeInfo_frame:
  assumes "extractGCodeInfo code d = Some d'"
  shows "\<exists>t b. d' = d\<lparr>targetTemperature := t, targetBedTemperature := b\<rparr>"
proof -
  obtain d1 where 1: "d1 = d \<or> (\<exists>n. d1 = d\<lparr>targetTemperature := n\<rparr>)"
    and 2: "d' = d1 \<or> (\<exists>n. d' = d1\<lparr>targetBedTemperature := n\<rparr>)"
    using assms by (auto simp: extractGCodeInfo_def bind_eq_Some_conv dest!: store_number_frame)
  from 1 obtain t where t: "d1 = d\<lparr>targetTemperature := t\<rparr>" by (cases d) auto
  from 2 obtain b where "d' = d1\<lparr>targetBedTemperature := b\<rparr>" by (cases d1) auto
  then show ?thesis unfolding t by blast
qed

section \<open>The g-code buffer\<close>

definition buffered :: "STATE \<Rightarrow> STATE" where
  "buffered st = (if st = IDLE then BUFFERING else st)"

definition AD_setGCode ::
  "string \<Rightarrow> int \<Rightarrow> MetaData option \<Rightarrow> 'a AbstractDriver_scheme \<Rightarrow>
     (GCODE_SET_RESULT \<times> 'a AbstractDriver_scheme) option" where
  "AD_setGCode gcode totalLines metaData d = do {
     (gsr, g) \<leftarrow> gcb_set gcode totalLines metaData (gcodeBuffer d);
     let d1 = d\<lparr>gcodeBuffer := g\<rparr>;
     if gsr = GSR_OK then do {
       d2 \<leftarrow> extractGCodeInfo gcode d1;
       Some (gsr, setState (buffered (dstate d2)) d2)
     } else Some (gsr, d1)
   }"

definition AD_appendGCode ::
  "string \<Rightarrow> int \<Rightarrow> MetaData option \<Rightarrow> 'a AbstractDriver_scheme \<Rightarrow>
     (GCODE_SET_RESULT \<times> 'a AbstractDriver_scheme) option" where
  "AD_appendGCode gcode totalLines metaData d = do {
     (gsr, g) \<leftarrow> gcb_append gcode totalLines metaData (gcodeBuffer d);
     let d1 = d\<lparr>gcodeBuffer := g\<rparr>;
     if gsr = GSR_OK then do {
       d2 \<leftarrow> extractGCodeInfo gcode d1;
       Some (gsr, setState (buffered (dstate d2)) d2)
     } else Some (gsr, d1)
   }"

lemma AD_append_Some:
  assumes "AD_appendGCode code n m d = Some (gsr, d')"
  obtains g where "gcb_append code n m (gcodeBuffer d) = Some (gsr, g)"
    "if gsr = GSR_OK then \<exists>d2. extractGCodeInfo code (d\<lparr>gcodeBuffer := g\<rparr>) = Some d2 \<and>
       d' = setState (buffered (dstate d2)) d2 else d' = d\<lparr>gcodeBuffer := g\<rparr>"
  using assms by (auto simp: AD_appendGCode_def bind_eq_Some_conv Let_def split: if_splits)

lemma AD_set_Some:
  assumes "AD_setGCode code n m d = Some (gsr, d')"
  obtains g where "gcb_append code n m (gcb_clear (gcodeBuffer d)) = Some (gsr, g)"
    "if gsr = GSR_OK then \<exists>d2. extractGCodeInfo code (d\<lparr>gcodeBuffer := g\<rparr>) = Some d2 \<and>
       d' = setState (buffered (dstate d2)) d2 else d' = d\<lparr>gcodeBuffer := g\<rparr>" "gcb_ok g"
proof -
  obtain g where g: "gcb_append code n m (gcb_clear (gcodeBuffer d)) = Some (gsr, g)"
    "if gsr = GSR_OK then \<exists>d2. extractGCodeInfo code (d\<lparr>gcodeBuffer := g\<rparr>) = Some d2 \<and>
       d' = setState (buffered (dstate d2)) d2 else d' = d\<lparr>gcodeBuffer := g\<rparr>"
    using assms by (auto simp: AD_setGCode_def gcb_set_def bind_eq_Some_conv Let_def split: if_splits)
  have okc: "gcb_ok (gcb_clear (gcodeBuffer d))" using gcb_clear_inv by (simp add: gcb_inv_def)
  have "gcb_ok g"
    using gt.app_ok [where m = "(n, m)" and t = code, OF okc] gt.app_rejected [where m = "(n, m)" and t = code, OF okc] g(1) okc
    by (cases "gsr = GSR_OK") auto
  then show ?thesis using that g by blast
qed

definition AD_clearGCode :: "'a AbstractDriver_scheme \<Rightarrow> 'a AbstractDriver_scheme" where
  "AD_clearGCode d =
     (let d1 = d\<lparr>gcodeBuffer := gcb_clear (gcodeBuffer d)\<rparr>
      in if dstate d1 \<in> {BUFFERING, PRINTING, STOPPING} then setState IDLE d1 else d1)"

section \<open>Printing\<close>

definition heatup ::
  "(string \<Rightarrow> 'a AbstractDriver_scheme \<Rightarrow> 'a AbstractDriver_scheme option) \<Rightarrow> int \<Rightarrow>
     'a AbstractDriver_scheme \<Rightarrow> 'a AbstractDriver_scheme option" where
  "heatup sendCode temp d = sendCode (''M104 S'' @ itoa temp) d"

definition AD_resetPrint :: "'a AbstractDriver_scheme \<Rightarrow> bool \<times> 'a AbstractDriver_scheme" where
  "AD_resetPrint d =
     (if \<not> isPrinterOnline d then (False, d)
      else let d1 = setState IDLE d in (True, d1\<lparr>gcodeBuffer := setCurrentLine 0 (gcodeBuffer d1)\<rparr>))"

definition printNextLine ::
  "(string \<Rightarrow> 'a AbstractDriver_scheme \<Rightarrow> 'a AbstractDriver_scheme option) \<Rightarrow>
     ('a AbstractDriver_scheme \<Rightarrow> bool \<times> 'a AbstractDriver_scheme) \<Rightarrow>
     'a AbstractDriver_scheme \<Rightarrow> 'a AbstractDriver_scheme option" where
  "printNextLine sendCode resetPrint d =
     (let (n, line) = getNextLine 1 (gcodeBuffer d)
      in if n > 0 then
           map_option (\<lambda>d1. d1\<lparr>gcodeBuffer := setCurrentLine (currentLine (gcodeBuffer d1) + 1) (gcodeBuffer d1)\<rparr>)
             (sendCode line d)
         else Some (snd (resetPrint d)))"

definition AD_startPrint ::
  "('a AbstractDriver_scheme \<Rightarrow> bool \<times> 'a AbstractDriver_scheme) \<Rightarrow> STATE \<Rightarrow>
     'a AbstractDriver_scheme \<Rightarrow> bool \<times> 'a AbstractDriver_scheme" where
  "AD_startPrint resetPrint st d =
     (let s = dstate d
      in if \<not> isPrinterOnline d then (False, d)
         else let d1 = (if s \<noteq> PRINTING \<and> s \<noteq> STOPPING then snd (resetPrint d) else d)
              in (True, setState st d1))"

definition AD_startPrintCode ::
  "(string \<Rightarrow> int \<Rightarrow> MetaData option \<Rightarrow> 'a AbstractDriver_scheme \<Rightarrow>
      (GCODE_SET_RESULT \<times> 'a AbstractDriver_scheme) option) \<Rightarrow>
     (STATE \<Rightarrow> 'a AbstractDriver_scheme \<Rightarrow> (bool \<times> 'a AbstractDriver_scheme) option) \<Rightarrow>
     string \<Rightarrow> STATE \<Rightarrow> 'a AbstractDriver_scheme \<Rightarrow> (bool \<times> 'a AbstractDriver_scheme) option" where
  "AD_startPrintCode setGCode startPrint gcode st d = do {
     d1 \<leftarrow> (if length gcode > 0 then map_option snd (setGCode gcode (-1) None d) else Some d);
     startPrint st d1
   }"

definition AD_stopPrintCode ::
  "('a AbstractDriver_scheme \<Rightarrow> bool \<times> 'a AbstractDriver_scheme) \<Rightarrow>
     (string \<Rightarrow> int \<Rightarrow> MetaData option \<Rightarrow> 'a AbstractDriver_scheme \<Rightarrow>
      (GCODE_SET_RESULT \<times> 'a AbstractDriver_scheme) option) \<Rightarrow>
     (STATE \<Rightarrow> 'a AbstractDriver_scheme \<Rightarrow> (bool \<times> 'a AbstractDriver_scheme) option) \<Rightarrow>
     string \<Rightarrow> 'a AbstractDriver_scheme \<Rightarrow> (bool \<times> 'a AbstractDriver_scheme) option" where
  "AD_stopPrintCode resetPrint setGCode startPrint endcode d = do {
     let d1 = snd (resetPrint d);
     d2 \<leftarrow> map_option snd (setGCode endcode (-1) None d1);
     startPrint STOPPING d2
   }"

end
