(* ===== verification/Marlin.thy ===== *)
theory Marlin
  imports Driver
begin

text \<open>
  The driver of Marlin printers, \<open>src/src/drivers/MarlinDriver.cpp\<close> with its timers
  (\<open>src/src/Timer.cpp\<close>): the record of \<open>AbstractDriver\<close> extended by the members
  of the class, the handling of the printer's responses, the periodic \<open>update\<close>. Time is
  in microseconds; the readings of the clock and the events of \<open>read\<close> are arguments.

  The second half is the protocol: an abstract printer queue (\<open>proto\<close>), the simulation by
  the driver, the inductive relation of everything that can happen to a driver and the invariant
  of the reachable drivers.
\<close>

section \<open>State\<close>

record MarlinDriver = AbstractDriver +
  timer_start :: int
  temperatureTimer_start :: int
  checkTemperatureInterval :: int
  checkConnection :: bool
  checkTemperatureAttempt :: int
  maxCheckTemperatureAttempts :: int

definition UPDATE_INTERVAL :: int where "UPDATE_INTERVAL = 200"

definition MarlinDriver_init :: "string \<Rightarrow> 32 word \<Rightarrow> MarlinDriver" where
  "MarlinDriver_init path baud = AbstractDriver.extend (AbstractDriver_init path baud)
     \<lparr>timer_start = 0, temperatureTimer_start = 0, checkTemperatureInterval = 5000,
      checkConnection = True, checkTemperatureAttempt = 0, maxCheckTemperatureAttempts = 3\<rparr>"

text \<open>\<open>Timer::getElapsedTimeInMilliSec() > ms\<close>, exact since the microseconds are.\<close>

definition elapsed_more :: "int \<Rightarrow> int \<Rightarrow> int \<Rightarrow> bool" where
  "elapsed_more now start ms \<longleftrightarrow> now - start > ms * 1000"

text \<open>\<open>UPDATE_INTERVAL - getElapsedTimeInMilliSec()\<close> converted to \<open>int\<close>.\<close>

definition time_left :: "int \<Rightarrow> int \<Rightarrow> int" where
  "time_left now start =
     (let x = UPDATE_INTERVAL * 1000 - (now - start) in if x \<ge> 0 then x div 1000 else - ((- x) div 1000))"

section \<open>Sending and receiving\<close>

definition M_sendCode :: "string \<Rightarrow> MarlinDriver \<Rightarrow> MarlinDriver option" where
  "M_sendCode code d =
     (if isConnected d then
        map_option (\<lambda>d1. d1\<lparr>serial := snd (serial_send (code @ [NL]) (serial d1))\<rparr>) (extractGCodeInfo code d)
      else Some d)"

abbreviation M_printNextLine :: "MarlinDriver \<Rightarrow> MarlinDriver option" where
  "M_printNextLine \<equiv> printNextLine M_sendCode AD_resetPrint"

definition M_startPrint :: "STATE \<Rightarrow> MarlinDriver \<Rightarrow> (bool \<times> MarlinDriver) option" where
  "M_startPrint st d =
     (let (ok, d1) = AD_startPrint AD_resetPrint st d
      in if \<not> ok then Some (False, d1) else map_option (Pair True) (M_printNextLine d1))"

definition M_startPrintCode :: "string \<Rightarrow> STATE \<Rightarrow> MarlinDriver \<Rightarrow> (bool \<times> MarlinDriver) option" where
  "M_startPrintCode = AD_startPrintCode AD_setGCode M_startPrint"

definition M_stopPrintCode :: "string \<Rightarrow> MarlinDriver \<Rightarrow> (bool \<times> MarlinDriver) option" where
  "M_stopPrintCode = AD_stopPrintCode AD_resetPrint AD_setGCode M_startPrint"

definition M_stopPrint :: "MarlinDriver \<Rightarrow> (bool \<times> MarlinDriver) option" where
  "M_stopPrint d = M_stopPrintCode [] d"

definition M_checkTemperature :: "MarlinDriver \<Rightarrow> MarlinDriver option" where
  "M_checkTemperature d = M_sendCode ''M105'' d"

definition parseTemperatures :: "string \<Rightarrow> MarlinDriver \<Rightarrow> MarlinDriver option" where
  "parseTemperatures code d = do {
     let posT = find_str ''T:'' code 0;
     let posB = find_str ''B:'' code 0;
     d1 \<leftarrow> store_number code (Some (case posT of Some p \<Rightarrow> p + 2 | None \<Rightarrow> 1))
             (\<lambda>n d. d\<lparr>temperature := n\<rparr>) (d\<lparr>heating := (posT = Some 0)\<rparr>);
     d2 \<leftarrow> store_number code (map_option Suc (Option.bind posT (find_char (CHR ''/'') code)))
             (\<lambda>n d. d\<lparr>targetTemperature := n\<rparr>) d1;
     d3 \<leftarrow> store_number code (map_option ((+) 2) posB) (\<lambda>n d. d\<lparr>bedTemperature := n\<rparr>) d2;
     store_number code (map_option Suc (Option.bind posB (find_char (CHR ''/'') code)))
       (\<lambda>n d. d\<lparr>targetBedTemperature := n\<rparr>) d3
   }"

definition is_printing :: "'a AbstractDriver_scheme \<Rightarrow> bool" where
  "is_printing d \<longleftrightarrow> dstate d = PRINTING \<or> dstate d = STOPPING"

lemma is_printing_iff: "is_printing d \<longleftrightarrow> PRINTING \<le> dstate d"
  by (cases "dstate d") (simp_all add: is_printing_def less_eq_STATE_def)

lemma printing_online: "is_printing d \<Longrightarrow> isPrinterOnline d"
  using order_trans [of IDLE PRINTING "dstate d"] by (simp add: is_printing_iff isPrinterOnline_iff less_eq_STATE_def)

definition M_readResponseCode :: "string \<Rightarrow> MarlinDriver \<Rightarrow> MarlinDriver option" where
  "M_readResponseCode code d =
     (if take 5 code = ''ok T:'' \<or> take 2 code = ''T:'' then do {
        d1 \<leftarrow> parseTemperatures code d;
        let d2 = (if checkConnection d1 then setState IDLE (d1\<lparr>checkConnection := False\<rparr>) else d1);
        Some (d2\<lparr>checkTemperatureInterval := (if is_printing d2 then 5000 else 1500)\<rparr>)
      }
      else if take 2 code = ''ok'' then
        (if is_printing d then do {
           (n, g) \<leftarrow> eraseLine 1 (gcodeBuffer d);
           M_printNextLine (d\<lparr>gcodeBuffer := g\<rparr>)
         } else Some d)
      else if find_str ''start'' code 0 \<noteq> None then Some d
      else if find_str ''Resend:'' code 0 \<noteq> None then
        M_printNextLine (d\<lparr>gcodeBuffer := setCurrentLine (currentLine (gcodeBuffer d) - 1) (gcodeBuffer d)\<rparr>)
      else Some d)"

text \<open>The kinds of responses the driver tells apart.\<close>

datatype resp = R_temp | R_ok | R_resend | R_none

definition classify :: "string \<Rightarrow> resp" where
  "classify code =
     (if take 5 code = ''ok T:'' \<or> take 2 code = ''T:'' then R_temp
      else if take 2 code = ''ok'' then R_ok
      else if find_str ''start'' code 0 \<noteq> None then R_none
      else if find_str ''Resend:'' code 0 \<noteq> None then R_resend
      else R_none)"

definition temp_seen :: "MarlinDriver \<Rightarrow> MarlinDriver" where
  "temp_seen d =
     (let d2 = (if checkConnection d then setState IDLE (d\<lparr>checkConnection := False\<rparr>) else d)
      in d2\<lparr>checkTemperatureInterval := (if is_printing d2 then 5000 else 1500)\<rparr>)"

definition resend_line :: "MarlinDriver \<Rightarrow> MarlinDriver" where
  "resend_line d = d\<lparr>gcodeBuffer := setCurrentLine (currentLine (gcodeBuffer d) - 1) (gcodeBuffer d)\<rparr>"

lemma readResponse_temp:
  "classify code = R_temp \<Longrightarrow> M_readResponseCode code d = map_option temp_seen (parseTemperatures code d)"
  unfolding classify_def M_readResponseCode_def temp_seen_def
  by (cases "parseTemperatures code d") (auto simp: Let_def split: if_split_asm)

lemma readResponse_ok:
  assumes "classify code = R_ok"
  shows "M_readResponseCode code d =
    (if is_printing d
     then Option.bind (eraseLine 1 (gcodeBuffer d)) (\<lambda>(n, g). M_printNextLine (d\<lparr>gcodeBuffer := g\<rparr>))
     else Some d)"
proof -
  have "\<not> (take 5 code = ''ok T:'' \<or> take 2 code = ''T:'')" "take 2 code = ''ok''"
    using assms unfolding classify_def by (metis resp.distinct)+
  then show ?thesis unfolding M_readResponseCode_def by (simp only: if_False if_True refl simp_thms)
qed

lemma readResponse_resend:
  assumes "classify code = R_resend"
  shows "M_readResponseCode code d = M_printNextLine (resend_line d)"
proof -
  have "\<not> (take 5 code = ''ok T:'' \<or> take 2 code = ''T:'')" "take 2 code \<noteq> ''ok''"
    "\<not> find_str ''start'' code 0 \<noteq> None" "find_str ''Resend:'' code 0 \<noteq> None"
    using assms unfolding classify_def by (metis resp.distinct)+
  then show ?thesis unfolding M_readResponseCode_def resend_line_def by (simp only: if_False if_True refl simp_thms)
qed

lemma readResponse_none:
  assumes "classify code = R_none"
  shows "M_readResponseCode code d = Some d"
proof -
  have "\<not> (take 5 code = ''ok T:'' \<or> take 2 code = ''T:'')" "take 2 code \<noteq> ''ok''"
    "find_str ''start'' code 0 \<noteq> None \<or> \<not> find_str ''Resend:'' code 0 \<noteq> None"
    using assms unfolding classify_def by (metis resp.distinct)+
  then show ?thesis unfolding M_readResponseCode_def by (auto simp only: if_False if_True split: if_split)
qed

section \<open>What the operations leave alone\<close>

lemma M_sendCode_frame:
  assumes "M_sendCode code d = Some d'"
  shows "\<exists>t b. d' = d\<lparr>targetTemperature := t, targetBedTemperature := b,
    serial := (if isConnected d then (serial d)\<lparr>written := written (serial d) @ [cstr (code @ [NL])]\<rparr> else serial d)\<rparr>"
proof (cases "isConnected d")
  case True
  with assms obtain d1 where d1: "extractGCodeInfo code d = Some d1"
    "d' = d1\<lparr>serial := snd (serial_send (code @ [NL]) (serial d1))\<rparr>" by (auto simp: M_sendCode_def)
  from extractGCodeInfo_frame [OF d1(1)] obtain t b
    where "d1 = d\<lparr>targetTemperature := t, targetBedTemperature := b\<rparr>" by blast
  then show ?thesis
    using True by (intro exI [of _ t] exI [of _ b]) (simp add: d1(2) serial_send_def isConnected_def serial_isOpen_def)
next
  case False
  with assms show ?thesis by (cases d) (auto simp: M_sendCode_def)
qed

lemma parseTemperatures_frame:
  assumes "parseTemperatures code d = Some d'"
  shows "\<exists>h t tt b bt. d' = d\<lparr>heating := h, temperature := t, targetTemperature := tt,
    bedTemperature := b, targetBedTemperature := bt\<rparr>"
proof -
  define posT where "posT = find_str ''T:'' code 0"
  define posB where "posB = find_str ''B:'' code 0"
  define d0 where "d0 = d\<lparr>heating := (posT = Some 0)\<rparr>"
  from assms obtain d1 d2 d3 where
    "store_number code (Some (case posT of Some p \<Rightarrow> p + 2 | None \<Rightarrow> 1)) (\<lambda>n d. d\<lparr>temperature := n\<rparr>) d0 = Some d1"
    "store_number code (map_option Suc (Option.bind posT (find_char (CHR ''/'') code)))
       (\<lambda>n d. d\<lparr>targetTemperature := n\<rparr>) d1 = Some d2"
    "store_number code (map_option ((+) 2) posB) (\<lambda>n d. d\<lparr>bedTemperature := n\<rparr>) d2 = Some d3"
    "store_number code (map_option Suc (Option.bind posB (find_char (CHR ''/'') code)))
       (\<lambda>n d. d\<lparr>targetBedTemperature := n\<rparr>) d3 = Some d'"
    unfolding parseTemperatures_def Let_def bind_eq_Some_conv posT_def posB_def d0_def by blast
  note this [THEN store_number_frame]
  then have 1: "d1 = d0 \<or> (\<exists>n. d1 = d0\<lparr>temperature := n\<rparr>)"
    and 2: "d2 = d1 \<or> (\<exists>n. d2 = d1\<lparr>targetTemperature := n\<rparr>)"
    and 3: "d3 = d2 \<or> (\<exists>n. d3 = d2\<lparr>bedTemperature := n\<rparr>)"
    and 4: "d' = d3 \<or> (\<exists>n. d' = d3\<lparr>targetBedTemperature := n\<rparr>)" .
  from 1 obtain t where 1: "d1 = d0\<lparr>temperature := t\<rparr>" by (cases d0) auto
  from 2 obtain tt where 2: "d2 = d1\<lparr>targetTemperature := tt\<rparr>" by (cases d1) auto
  from 3 obtain b where 3: "d3 = d2\<lparr>bedTemperature := b\<rparr>" by (cases d2) auto
  from 4 obtain bt where "d' = d3\<lparr>targetBedTemperature := bt\<rparr>" by (cases d3) auto
  then show ?thesis unfolding d0_def 1 2 3 by blast
qed

lemma AD_resetPrint_sbuf [simp]: "serial (snd (AD_resetPrint d)) = serial d"
  by (simp add: AD_resetPrint_def setState_def Let_def)

lemma M_printNextLine_sbuf: "M_printNextLine d = Some d' \<Longrightarrow> sbuf (serial d') = sbuf (serial d)"
  by (auto simp: printNextLine_def split: prod.splits if_splits dest!: M_sendCode_frame)

lemma M_readResponseCode_sbuf: "M_readResponseCode code d = Some d' \<Longrightarrow> sbuf (serial d') = sbuf (serial d)"
  by (auto simp: M_readResponseCode_def bind_eq_Some_conv setState_def Let_def
      split: if_splits prod.splits dest!: M_printNextLine_sbuf parseTemperatures_frame)

section \<open>The periodic update\<close>

text \<open>The loop over the complete lines of the receive buffer.\<close>

function lines_loop :: "MarlinDriver \<Rightarrow> MarlinDriver option" where
  "lines_loop d =
     (case extractLine (serial d) of
        None \<Rightarrow> None
      | Some (None, s) \<Rightarrow> Some (d\<lparr>serial := s\<rparr>)
      | Some (Some line, s) \<Rightarrow>
          (case M_readResponseCode line (d\<lparr>serial := s\<rparr>) of
             None \<Rightarrow> None
           | Some d' \<Rightarrow> lines_loop d'))"
  by pat_completeness auto
termination
  by (relation "measure (\<lambda>d. length (sbuf (serial d)))")
     (auto dest!: M_readResponseCode_sbuf extractLine_shorter(1))

declare lines_loop.simps [simp del]

text \<open>The readings of the clock in one call of \<open>update\<close>, in their order.\<close>

record clock =
  t_temperature :: int
  t_temperature_start :: int
  t_timer :: int
  t_timer_start :: int
  t_return :: int

definition update_temperature :: "clock \<Rightarrow> MarlinDriver \<Rightarrow> MarlinDriver option" where
  "update_temperature clk d =
     (if checkTemperatureInterval d \<noteq> -1 \<and>
         elapsed_more (t_temperature clk) (temperatureTimer_start d) (checkTemperatureInterval d) then
        let d1 = d\<lparr>temperatureTimer_start := t_temperature_start clk\<rparr>
        in if checkConnection d1 then
             if checkTemperatureAttempt d1 < maxCheckTemperatureAttempts d1
             then Some (d1\<lparr>checkTemperatureAttempt := checkTemperatureAttempt d1 + 1\<rparr>)
             else M_checkTemperature d1
           else M_checkTemperature d1
      else Some d)"

definition update_read :: "read_ev list \<Rightarrow> clock \<Rightarrow> MarlinDriver \<Rightarrow> MarlinDriver outcome option" where
  "update_read es clk d =
     (if is_printing d \<or> elapsed_more (t_timer clk) (timer_start d) UPDATE_INTERVAL then
        (case driver_readData es d of
           Exit rv \<Rightarrow> Some (Exit rv)
         | Go (rv, d1) \<Rightarrow>
             map_option (\<lambda>d2. Go (d2\<lparr>timer_start := t_timer_start clk\<rparr>))
               (if rv > 0 then lines_loop d1 else Some d1))
      else Some (Go d))"

definition M_update :: "read_ev list \<Rightarrow> clock \<Rightarrow> MarlinDriver \<Rightarrow> (int \<times> MarlinDriver) outcome option" where
  "M_update es clk d =
     (if \<not> isConnected d then Some (Go (-1, d))
      else Option.bind (update_temperature clk d) (\<lambda>d1.
        Option.bind (update_read es clk d1) (\<lambda>r.
          Some (case r of Exit rv \<Rightarrow> Exit rv | Go d2 \<Rightarrow> Go (time_left (t_return clk) (timer_start d2), d2)))))"

section \<open>Sending lines of the buffer\<close>

text \<open>What goes over the wire for a line.\<close>

definition wire :: "string \<Rightarrow> bytes" where
  "wire l = cstr (l @ [NL])"

abbreviation mlines :: "MarlinDriver \<Rightarrow> string list" where
  "mlines d \<equiv> lines_of (gcodeBuffer d)"

lemma setCurrentLine_ok [simp]:
  "lines_of (setCurrentLine n g) = lines_of g" "gcb_ok (setCurrentLine n g) = gcb_ok (g\<lparr>currentLine := min n (totalLinesSent g)\<rparr>)"
  by (simp_all add: setCurrentLine_def lines_of_def)

lemma currentLine_setCurrentLine [simp]: "currentLine (setCurrentLine n g) = min n (totalLinesSent g)"
  by (simp add: setCurrentLine_def)

lemma gcb_ok_currentLine: "gcb_ok g \<Longrightarrow> gcb_ok (g\<lparr>currentLine := min n (totalLinesSent g)\<rparr>)"
  by (simp add: gcb_ok_def lines_of_def)

lemma AD_resetPrint_effect:
  "gcb_ok (gcodeBuffer d) \<Longrightarrow> gcb_ok (gcodeBuffer (snd (AD_resetPrint d)))"
  "lines_of (gcodeBuffer (snd (AD_resetPrint d))) = lines_of (gcodeBuffer d)"
  "dstate (snd (AD_resetPrint d)) = (if isPrinterOnline d then IDLE else dstate d)"
  "fst (AD_resetPrint d) = isPrinterOnline d"
  by (simp_all add: AD_resetPrint_def setState_def Let_def gcb_ok_currentLine)

lemma AD_resetPrint_check [simp]: "checkConnection (snd (AD_resetPrint d)) = checkConnection d"
  by (simp add: AD_resetPrint_def setState_def Let_def)

lemma printNextLine_lines:
  assumes ok: "gcb_ok (gcodeBuffer d)" and ne: "mlines d \<noteq> []" and r: "M_printNextLine d = Some d'"
  shows "\<exists>t b. d' = d\<lparr>targetTemperature := t, targetBedTemperature := b,
    serial := (if isConnected d then (serial d)\<lparr>written := written (serial d) @ [wire (hd (mlines d))]\<rparr> else serial d),
    gcodeBuffer := setCurrentLine (currentLine (gcodeBuffer d) + 1) (gcodeBuffer d)\<rparr>"
proof -
  note n = getNextLine_1 [OF ok ne]
  from r n obtain d1 where d1: "M_sendCode (hd (mlines d)) d = Some d1"
    "d' = d1\<lparr>gcodeBuffer := setCurrentLine (currentLine (gcodeBuffer d1) + 1) (gcodeBuffer d1)\<rparr>"
    by (auto simp: printNextLine_def)
  from M_sendCode_frame [OF d1(1)] obtain t b where
    "d1 = d\<lparr>targetTemperature := t, targetBedTemperature := b,
      serial := (if isConnected d then (serial d)\<lparr>written := written (serial d) @ [wire (hd (mlines d))]\<rparr> else serial d)\<rparr>"
    unfolding wire_def by blast
  then show ?thesis unfolding d1(2) by (intro exI [of _ t] exI [of _ b]) simp
qed

lemma printNextLine_none:
  assumes ok: "gcb_ok (gcodeBuffer d)" and e: "mlines d = []"
  shows "M_printNextLine d = Some (snd (AD_resetPrint d))"
  using getNextLine_none [OF ok e, of 1] by (simp add: printNextLine_def)

text \<open>A line or a code whose numbers can be read.\<close>

definition readable :: "string \<Rightarrow> bool" where
  "readable code \<longleftrightarrow> (\<forall>d :: MarlinDriver. extractGCodeInfo code d \<noteq> None)"

lemma M_sendCode_total: "readable code \<Longrightarrow> M_sendCode code d \<noteq> None"
  by (simp add: M_sendCode_def readable_def)

lemma printNextLine_total:
  assumes "gcb_ok (gcodeBuffer d)" "mlines d \<noteq> [] \<Longrightarrow> readable (hd (mlines d))"
  shows "M_printNextLine d \<noteq> None"
proof (cases "mlines d = []")
  case True
  with printNextLine_none [OF assms(1)] show ?thesis by simp
next
  case False
  with getNextLine_1 [OF assms(1)] assms(2) M_sendCode_total show ?thesis
    by (simp add: printNextLine_def)
qed

section \<open>The invariant of the driver\<close>

text \<open>
  Without the clause on printing: what holds in the middle of an operation. A driver that has not
  seen a temperature yet is not online.
\<close>

definition M_pre :: "MarlinDriver \<Rightarrow> bool" where
  "M_pre d \<longleftrightarrow> gcb_ok (gcodeBuffer d) \<and> (checkConnection d \<longrightarrow> \<not> isPrinterOnline d)"

definition M_inv :: "MarlinDriver \<Rightarrow> bool" where
  "M_inv d \<longleftrightarrow> M_pre d \<and> (is_printing d \<longrightarrow> mlines d \<noteq> [])"

lemma is_printing_online: "is_printing d \<Longrightarrow> isPrinterOnline d"
  by (auto simp: is_printing_def isPrinterOnline_def)

lemma M_inv_pre: "M_inv d \<Longrightarrow> M_pre d"
  by (simp add: M_inv_def)

lemma M_pre_not_printing: "M_pre d \<Longrightarrow> \<not> is_printing d \<Longrightarrow> M_inv d"
  by (simp add: M_inv_def)

lemma printNextLine_inv:
  assumes pre: "M_pre d" and r: "M_printNextLine d = Some d'"
  shows "M_inv d'"
proof (cases "mlines d = []")
  case True
  have ok: "gcb_ok (gcodeBuffer d)" using pre by (simp add: M_pre_def)
  have d': "d' = snd (AD_resetPrint d)" using printNextLine_none [OF ok True] r by simp
  have "isPrinterOnline d' = isPrinterOnline d" "\<not> is_printing d'"
    using is_printing_online [of d]
    by (auto simp: d' isPrinterOnline_def [of "snd _"] is_printing_def [of "snd _"] AD_resetPrint_effect is_printing_def
        isPrinterOnline_def)
  then show ?thesis using pre by (auto simp: M_inv_def M_pre_def d' AD_resetPrint_effect)
next
  case False
  have ok: "gcb_ok (gcodeBuffer d)" using pre by (simp add: M_pre_def)
  from printNextLine_lines [OF ok False r] pre False show ?thesis
    by (auto simp: M_inv_def M_pre_def isPrinterOnline_def gcb_ok_currentLine)
qed

lemma M_startPrint_inv:
  assumes inv: "M_pre d" and r: "M_startPrint st d = Some (b, d')"
  shows "M_inv d'"
proof (cases "isPrinterOnline d")
  case False
  then have "d' = d" using r by (simp add: M_startPrint_def AD_startPrint_def)
  then show ?thesis using False inv is_printing_online [of d] M_pre_not_printing by auto
next
  case True
  define d1 where "d1 = (if is_printing d then d else snd (AD_resetPrint d))"
  have d1: "AD_startPrint AD_resetPrint st d = (True, setState st d1)"
    using True by (auto simp: AD_startPrint_def d1_def is_printing_def Let_def)
  then have p: "M_printNextLine (setState st d1) = Some d'" using r by (auto simp: M_startPrint_def)
  have "\<not> checkConnection d" using inv True by (simp add: M_pre_def)
  then have "M_pre (setState st d1)"
    using inv by (simp add: M_pre_def d1_def setState_def AD_resetPrint_effect)
  then show ?thesis by (rule printNextLine_inv [OF _ p])
qed

lemma buffered_inv:
  assumes ok: "gcb_ok g" and pre: "M_pre d" and x: "extractGCodeInfo code (d\<lparr>gcodeBuffer := g\<rparr>) = Some d1"
    and p: "is_printing d \<Longrightarrow> lines_of g \<noteq> []"
  shows "M_inv (setState (buffered (dstate d1)) d1)" "mlines d1 = lines_of g" "dstate d1 = dstate d"
proof -
  from extractGCodeInfo_frame [OF x] obtain t b where
    d1: "d1 = d\<lparr>gcodeBuffer := g, targetTemperature := t, targetBedTemperature := b\<rparr>" by auto
  then show "mlines d1 = lines_of g" "dstate d1 = dstate d" by simp_all
  show "M_inv (setState (buffered (dstate d1)) d1)"
    using ok pre p by (auto simp: d1 M_inv_def M_pre_def setState_def buffered_def is_printing_def isPrinterOnline_def)
qed

lemma M_append_inv:
  assumes inv: "M_inv d" and r: "AD_appendGCode code n m d = Some (gsr, d')"
  shows "M_inv d'"
proof -
  have pre: "M_pre d" and ok: "gcb_ok (gcodeBuffer d)" using inv by (auto simp: M_inv_def M_pre_def)
  obtain g where g: "gcb_append code n m (gcodeBuffer d) = Some (gsr, g)"
    and d': "if gsr = GSR_OK then \<exists>d2. extractGCodeInfo code (d\<lparr>gcodeBuffer := g\<rparr>) = Some d2 \<and>
                d' = setState (buffered (dstate d2)) d2 else d' = d\<lparr>gcodeBuffer := g\<rparr>"
    by (rule AD_append_Some [OF r])
  show ?thesis
  proof (cases "gsr = GSR_OK")
    case True
    from gt.app_ok [where m = "(n, m)" and t = code, OF ok _ True] g
    have g': "gcb_ok g" "lines_of g = mlines d @ gcode_lines (keepGpxMacroComments (gcodeBuffer d)) code" by auto
    show ?thesis
      using d' True buffered_inv(1) [OF g'(1) pre] inv g'(2) by (auto simp: M_inv_def)
  next
    case False
    then have "g = gcodeBuffer d" using gt.app_rejected [where m = "(n, m)" and t = code, OF ok _ False] g by auto
    then show ?thesis using False d' inv by simp
  qed
qed

lemma M_set_pre:
  assumes pre: "M_pre d" and np: "\<not> is_printing d" and r: "AD_setGCode code n m d = Some (gsr, d')"
  shows "M_inv d'" "\<not> is_printing d'"
proof -
  obtain g where d': "if gsr = GSR_OK then \<exists>d2. extractGCodeInfo code (d\<lparr>gcodeBuffer := g\<rparr>) = Some d2 \<and>
       d' = setState (buffered (dstate d2)) d2 else d' = d\<lparr>gcodeBuffer := g\<rparr>" and okg: "gcb_ok g"
    by (rule AD_set_Some [OF r])
  have "M_inv d' \<and> \<not> is_printing d'"
  proof (cases "gsr = GSR_OK")
    case True
    with d' obtain d2 where d2: "extractGCodeInfo code (d\<lparr>gcodeBuffer := g\<rparr>) = Some d2"
      "d' = setState (buffered (dstate d2)) d2" by auto
    show ?thesis
      using buffered_inv [OF okg pre d2(1)] np d2(2)
      by (auto simp: is_printing_def setState_def buffered_def)
  next
    case False
    then show ?thesis
      using d' pre np okg by (auto simp: M_inv_def M_pre_def is_printing_def isPrinterOnline_def)
  qed
  then show "M_inv d'" "\<not> is_printing d'" by simp_all
qed

lemma M_set_printing:
  assumes inv: "M_inv d" and r: "AD_setGCode code n m d = Some (gsr, d')"
  shows "M_pre d'"
proof -
  have pre: "M_pre d" using inv by (simp add: M_inv_def)
  obtain g where d': "if gsr = GSR_OK then \<exists>d2. extractGCodeInfo code (d\<lparr>gcodeBuffer := g\<rparr>) = Some d2 \<and>
       d' = setState (buffered (dstate d2)) d2 else d' = d\<lparr>gcodeBuffer := g\<rparr>" and okg: "gcb_ok g"
    by (rule AD_set_Some [OF r])
  show ?thesis
    using d' pre okg
    by (auto simp: M_pre_def isPrinterOnline_def setState_def buffered_def split: if_splits
        dest!: extractGCodeInfo_frame)
qed

lemma M_startPrintCode_inv:
  assumes inv: "M_inv d" and r: "M_startPrintCode code PRINTING d = Some (b, d')"
  shows "M_inv d'"
proof -
  from r obtain d1 where
    d1: "(if length code > 0 then map_option snd (AD_setGCode code (-1) None d) else Some d) = Some d1"
      "M_startPrint PRINTING d1 = Some (b, d')"
    by (auto simp: M_startPrintCode_def AD_startPrintCode_def bind_eq_Some_conv)
  have "M_pre d1" using d1(1) M_set_printing [OF inv] inv by (auto simp: M_inv_def split: if_splits)
  then show ?thesis using M_startPrint_inv d1(2) by blast
qed

lemma M_stopPrintCode_inv:
  assumes inv: "M_inv d" and r: "M_stopPrintCode code d = Some (b, d')"
  shows "M_inv d'"
proof -
  let ?r = "snd (AD_resetPrint d)"
  from r obtain gsr d1 where d1: "AD_setGCode code (-1) None ?r = Some (gsr, d1)" "M_startPrint STOPPING d1 = Some (b, d')"
    by (auto simp: M_stopPrintCode_def AD_stopPrintCode_def bind_eq_Some_conv)
  have "M_pre ?r" "\<not> is_printing ?r"
    using inv is_printing_online [of d]
    by (auto simp: M_inv_def M_pre_def AD_resetPrint_effect is_printing_def isPrinterOnline_def)
  then have "M_inv d1" using M_set_pre(1) [OF _ _ d1(1)] by blast
  then show ?thesis using M_startPrint_inv d1(2) M_inv_pre by blast
qed

lemma M_clear_inv: "M_inv d \<Longrightarrow> M_inv (AD_clearGCode d)"
  using gcb_clear_inv [of "gcodeBuffer d"]
  by (auto simp: AD_clearGCode_def M_inv_def M_pre_def gcb_inv_def is_printing_def isPrinterOnline_def setState_def Let_def)

lemma M_sendCode_inv:
  assumes "M_inv d" "M_sendCode code d = Some d'"
  shows "M_inv d'"
  using M_sendCode_frame [OF assms(2)] assms(1)
  by (auto simp: M_inv_def M_pre_def is_printing_def isPrinterOnline_def)

lemma M_pre_resend: "M_pre d \<Longrightarrow> M_pre (resend_line d)"
  by (simp add: resend_line_def M_pre_def isPrinterOnline_def gcb_ok_currentLine)

lemma ok_erases:
  assumes "gcb_ok (gcodeBuffer d)" "mlines d \<noteq> []"
  obtains g where "eraseLine 1 (gcodeBuffer d) = Some (1, g)" "erases (gcodeBuffer d) 1 g"
  using eraseLine_erases [OF assms, of 1] taken_1 [OF assms] by auto

lemma M_readResponseCode_inv:
  assumes inv: "M_inv d" and r: "M_readResponseCode code d = Some d'"
  shows "M_inv d'"
proof (cases "classify code")
  case R_temp
  with r obtain d1 where d1: "parseTemperatures code d = Some d1" "d' = temp_seen d1"
    by (auto simp: readResponse_temp)
  from parseTemperatures_frame [OF d1(1)] show ?thesis
    using inv unfolding d1(2) temp_seen_def
    by (auto simp: M_inv_def M_pre_def is_printing_def isPrinterOnline_def setState_def Let_def)
next
  case R_ok
  show ?thesis
  proof (cases "is_printing d")
    case True
    have ok: "gcb_ok (gcodeBuffer d)" and ne: "mlines d \<noteq> []" using inv True by (auto simp: M_inv_def M_pre_def)
    obtain g where g: "eraseLine 1 (gcodeBuffer d) = Some (1, g)" "erases (gcodeBuffer d) 1 g"
      using ok_erases [OF ok ne] by blast
    from r g True have p: "M_printNextLine (d\<lparr>gcodeBuffer := g\<rparr>) = Some d'"
      by (simp add: readResponse_ok [OF R_ok])
    have "M_pre (d\<lparr>gcodeBuffer := g\<rparr>)"
      using inv erasesD(1) [OF g(2)] by (simp add: M_inv_def M_pre_def isPrinterOnline_def)
    then show ?thesis by (rule printNextLine_inv [OF _ p])
  next
    case False
    with r inv show ?thesis by (simp add: readResponse_ok [OF R_ok])
  qed
next
  case R_resend
  with r M_pre_resend [OF M_inv_pre [OF inv]] show ?thesis
    by (simp add: readResponse_resend printNextLine_inv)
next
  case R_none
  with r inv show ?thesis by (simp add: readResponse_none)
qed

lemma serial_inv: "M_inv d \<Longrightarrow> M_inv (d\<lparr>serial := s\<rparr>)"
  by (simp add: M_inv_def M_pre_def is_printing_def isPrinterOnline_def)

lemma lines_loop_inv: "M_inv d \<Longrightarrow> lines_loop d = Some d' \<Longrightarrow> M_inv d'"
proof (induction d rule: lines_loop.induct)
  case (1 d)
  obtain l s where e: "extractLine (serial d) = Some (l, s)"
    using "1.prems"(2) by (subst (asm) lines_loop.simps) (auto split: option.splits)
  show ?case
  proof (cases l)
    case None
    with e "1.prems" show ?thesis by (subst (asm) lines_loop.simps) (auto simp: serial_inv)
  next
    case (Some line)
    with e "1.prems"(2) obtain d1 where d1: "M_readResponseCode line (d\<lparr>serial := s\<rparr>) = Some d1" "lines_loop d1 = Some d'"
      by (subst (asm) lines_loop.simps) (auto split: option.splits)
    have "M_inv d1" by (rule M_readResponseCode_inv [OF serial_inv [OF "1.prems"(1)] d1(1)])
    then show ?thesis using "1.IH" [OF e refl Some d1(1)] d1(2) by blast
  qed
qed

lemma M_update_inv:
  assumes inv: "M_inv d" and r: "M_update es clk d = Some (Go (n, d'))"
  shows "M_inv d'"
proof (cases "isConnected d")
  case False
  with r inv show ?thesis by (simp add: M_update_def)
next
  case True
  with r obtain d1 ro where "update_temperature clk d = Some d1" "update_read es clk d1 = Some ro"
    "(case ro of Exit rv \<Rightarrow> Exit rv | Go d2 \<Rightarrow> Go (time_left (t_return clk) (timer_start d2), d2)) = Go (n, d')"
    by (auto simp: M_update_def bind_eq_Some_conv)
  then have d1: "update_temperature clk d = Some d1" "update_read es clk d1 = Some (Go d')"
    by (cases ro; simp)+
  have x: "M_inv (d\<lparr>temperatureTimer_start := t\<rparr>)" "M_inv (d\<lparr>temperatureTimer_start := t, checkTemperatureAttempt := a\<rparr>)"
    for t a using inv by (simp_all add: M_inv_def M_pre_def is_printing_def isPrinterOnline_def)
  have i1: "M_inv d1"
    using d1(1) inv x M_sendCode_inv [OF x(1)]
    by (auto simp: update_temperature_def M_checkTemperature_def Let_def split: if_splits)
  have t: "M_inv d2 \<Longrightarrow> M_inv (d2\<lparr>timer_start := t\<rparr>)" for d2 t
    by (simp add: M_inv_def M_pre_def is_printing_def isPrinterOnline_def)
  have ll: "lines_loop (d1\<lparr>serial := s\<rparr>) = Some z \<Longrightarrow> M_inv z" for s z
    by (rule lines_loop_inv [OF serial_inv [OF i1]])
  show ?thesis
    using d1(2) i1 serial_inv [OF i1]
    by (auto simp: update_read_def driver_readData_def Let_def intro!: t dest: ll
        split: if_splits outcome.splits prod.splits)
qed

end
