(* ===== verification/MarlinProtocol.thy ===== *)
theory MarlinProtocol
  imports Marlin
begin

text \<open>
  What the Marlin driver (\<open>Marlin.thy\<close>) guarantees as a whole. \<open>proto\<close> is the
  abstract printer queue: the lines still to be acknowledged, the state, the bytes sent;
  responses of the printer act on it as the protocol says, and the driver simulates it.
  \<open>marlin_step\<close> is the relation of everything the server and the printer can do to a
  driver, \<open>reachable\<close> the drivers it leads to from a new one.
\<close>

section \<open>The abstract protocol\<close>

record proto =
  p_lines :: "string list"
  p_state :: STATE
  p_log :: "bytes list"
  p_check :: bool

definition abs_driver :: "MarlinDriver \<Rightarrow> proto" where
  "abs_driver d = \<lparr>p_lines = mlines d, p_state = dstate d, p_log = written (serial d), p_check = checkConnection d\<rparr>"

definition online :: "STATE \<Rightarrow> bool" where
  "online st \<longleftrightarrow> st \<noteq> UNKNOWN \<and> st \<noteq> DISCONNECTED \<and> st \<noteq> CONNECTING"

definition printing :: "STATE \<Rightarrow> bool" where
  "printing st \<longleftrightarrow> st = PRINTING \<or> st = STOPPING"

text \<open>The front line is sent; with no line left the print is over.\<close>

definition proto_next :: "proto \<Rightarrow> proto" where
  "proto_next p =
     (case p_lines p of
        [] \<Rightarrow> if online (p_state p) then p\<lparr>p_state := IDLE\<rparr> else p
      | l # _ \<Rightarrow> p\<lparr>p_log := p_log p @ [wire l]\<rparr>)"

definition proto_start :: "STATE \<Rightarrow> proto \<Rightarrow> proto" where
  "proto_start st p = (if online (p_state p) then proto_next (p\<lparr>p_state := st\<rparr>) else p)"

text \<open>An acknowledgement takes the front line off while printing; a request sends it again.\<close>

fun proto_resp :: "resp \<Rightarrow> proto \<Rightarrow> proto" where
  "proto_resp R_none p = p"
| "proto_resp R_temp p = (if p_check p then p\<lparr>p_state := IDLE, p_check := False\<rparr> else p)"
| "proto_resp R_ok p = (if printing (p_state p) then proto_next (p\<lparr>p_lines := tl (p_lines p)\<rparr>) else p)"
| "proto_resp R_resend p = proto_next p"

section \<open>The driver simulates it\<close>

lemma online_driver: "isPrinterOnline d = online (dstate d)"
  by (auto simp: isPrinterOnline_def online_def)

lemma printing_driver: "is_printing d = printing (dstate d)"
  by (simp add: is_printing_def printing_def)

lemma printNextLine_abs:
  assumes ok: "gcb_ok (gcodeBuffer d)" and c: "isConnected d" and r: "M_printNextLine d = Some d'"
  shows "abs_driver d' = proto_next (abs_driver d)" "isConnected d'"
proof -
  have "abs_driver d' = proto_next (abs_driver d) \<and> isConnected d'"
  proof (cases "mlines d = []")
    case True
    have d': "d' = snd (AD_resetPrint d)" using printNextLine_none [OF ok True] r by simp
    then show ?thesis
      using True c by (simp add: abs_driver_def proto_next_def AD_resetPrint_effect online_driver isConnected_def)
  next
    case False
    from printNextLine_lines [OF ok False r] obtain t b where
      "d' = d\<lparr>targetTemperature := t, targetBedTemperature := b,
        serial := (serial d)\<lparr>written := written (serial d) @ [wire (hd (mlines d))]\<rparr>,
        gcodeBuffer := setCurrentLine (currentLine (gcodeBuffer d) + 1) (gcodeBuffer d)\<rparr>"
      using c by auto
    then show ?thesis
      using False c by (auto simp: abs_driver_def proto_next_def isConnected_def serial_isOpen_def neq_Nil_conv)
  qed
  then show "abs_driver d' = proto_next (abs_driver d)" "isConnected d'" by simp_all
qed

lemma readResponse_abs:
  assumes inv: "M_inv d" and c: "isConnected d" and r: "M_readResponseCode code d = Some d'"
  shows "abs_driver d' = proto_resp (classify code) (abs_driver d)" "isConnected d'"
proof -
  have ok: "gcb_ok (gcodeBuffer d)" using inv by (simp add: M_inv_def M_pre_def)
  have "abs_driver d' = proto_resp (classify code) (abs_driver d) \<and> isConnected d'"
  proof (cases "classify code")
    case R_temp
    with r obtain d1 where d1: "parseTemperatures code d = Some d1" "d' = temp_seen d1"
      by (auto simp: readResponse_temp)
    from parseTemperatures_frame [OF d1(1)] show ?thesis
      using c unfolding d1(2) temp_seen_def
      by (auto simp: R_temp abs_driver_def isConnected_def setState_def Let_def)
  next
    case R_ok
    show ?thesis
    proof (cases "is_printing d")
      case True
      then have ne: "mlines d \<noteq> []" using inv by (simp add: M_inv_def)
      obtain g where g: "eraseLine 1 (gcodeBuffer d) = Some (1, g)" "erases (gcodeBuffer d) 1 g"
        using ok_erases [OF ok ne] by blast
      from r g True have p: "M_printNextLine (d\<lparr>gcodeBuffer := g\<rparr>) = Some d'"
        by (simp add: readResponse_ok [OF R_ok])
      have "gcb_ok (gcodeBuffer (d\<lparr>gcodeBuffer := g\<rparr>))" "isConnected (d\<lparr>gcodeBuffer := g\<rparr>)"
        using erasesD(1) [OF g(2)] c by (simp_all add: isConnected_def)
      from printNextLine_abs [OF this p] show ?thesis
        using True erasesD(2) [OF g(2)] R_ok
        by (simp add: abs_driver_def printing_driver drop_Suc)
    next
      case False
      with r c show ?thesis by (simp add: readResponse_ok [OF R_ok] R_ok abs_driver_def printing_driver)
    qed
  next
    case R_resend
    have "gcb_ok (gcodeBuffer (resend_line d))" "isConnected (resend_line d)"
      using ok c by (simp_all add: resend_line_def gcb_ok_currentLine isConnected_def)
    from printNextLine_abs [OF this] r show ?thesis
      by (auto simp: readResponse_resend [OF R_resend] R_resend abs_driver_def resend_line_def)
  next
    case R_none
    with r c show ?thesis by (simp add: readResponse_none)
  qed
  then show "abs_driver d' = proto_resp (classify code) (abs_driver d)" "isConnected d'" by simp_all
qed

lemma startPrint_abs:
  assumes inv: "M_inv d" and c: "isConnected d" and r: "M_startPrint st d = Some (b, d')"
  shows "abs_driver d' = proto_start st (abs_driver d)" "isConnected d'" "b = isPrinterOnline d"
proof -
  have "abs_driver d' = proto_start st (abs_driver d) \<and> isConnected d' \<and> b = isPrinterOnline d"
  proof (cases "isPrinterOnline d")
    case False
    then show ?thesis using r c
      by (auto simp: M_startPrint_def AD_startPrint_def abs_driver_def proto_start_def online_driver)
  next
    case True
    define d1 where "d1 = (if is_printing d then d else snd (AD_resetPrint d))"
    have d1: "AD_startPrint AD_resetPrint st d = (True, setState st d1)"
      using True by (auto simp: AD_startPrint_def d1_def is_printing_def Let_def)
    then have p: "M_printNextLine (setState st d1) = Some d'" and b: "b = True"
      using r by (auto simp: M_startPrint_def)
    have a: "abs_driver (setState st d1) = (abs_driver d)\<lparr>p_state := st\<rparr>"
      by (simp add: abs_driver_def d1_def setState_def AD_resetPrint_effect)
    have "gcb_ok (gcodeBuffer (setState st d1))" "isConnected (setState st d1)"
      using inv c by (simp_all add: M_inv_def M_pre_def d1_def setState_def AD_resetPrint_effect isConnected_def)
    from printNextLine_abs [OF this p] show ?thesis
      using True b a by (simp add: proto_start_def online_driver abs_driver_def)
  qed
  then show "abs_driver d' = proto_start st (abs_driver d)" "isConnected d'" "b = isPrinterOnline d" by simp_all
qed

lemma startPrint_total:
  assumes inv: "M_inv d" and l: "\<forall>l \<in> set (mlines d). readable l"
  shows "M_startPrint st d \<noteq> None"
proof (cases "isPrinterOnline d")
  case True
  define d1 where "d1 = (if is_printing d then d else snd (AD_resetPrint d))"
  have d1: "AD_startPrint AD_resetPrint st d = (True, setState st d1)"
    using True by (auto simp: AD_startPrint_def d1_def is_printing_def Let_def)
  have m: "mlines (setState st d1) = mlines d" by (simp add: d1_def setState_def AD_resetPrint_effect)
  have "gcb_ok (gcodeBuffer (setState st d1))"
    using inv by (simp add: M_inv_def M_pre_def d1_def setState_def AD_resetPrint_effect)
  then have "M_printNextLine (setState st d1) \<noteq> None"
    by (rule printNextLine_total) (use l in \<open>simp add: m\<close>)
  then show ?thesis using d1 by (simp add: M_startPrint_def)
qed (simp add: M_startPrint_def AD_startPrint_def)

text \<open>A sequence of responses.\<close>

abbreviation responses :: "MarlinDriver \<Rightarrow> string list \<Rightarrow> MarlinDriver option" where
  "responses \<equiv> fold_option (\<lambda>d code. M_readResponseCode code d)"

lemma responses_abs:
  "M_inv d \<Longrightarrow> isConnected d \<Longrightarrow> responses d codes = Some d' \<Longrightarrow>
     abs_driver d' = fold proto_resp (map classify codes) (abs_driver d) \<and> M_inv d' \<and> isConnected d'"
proof (induction codes arbitrary: d)
  case (Cons code codes)
  from Cons.prems(3) obtain d1 where d1: "M_readResponseCode code d = Some d1" "responses d1 codes = Some d'"
    by (auto simp: bind_eq_Some_conv)
  note r = readResponse_abs [OF Cons.prems(1,2) d1(1)]
  from Cons.IH [OF M_readResponseCode_inv [OF Cons.prems(1) d1(1)] r(2) d1(2)] r(1) show ?case by simp
qed simp

text \<open>A response whose numbers can be read.\<close>

definition response_readable :: "string \<Rightarrow> bool" where
  "response_readable code \<longleftrightarrow> classify code = R_temp \<longrightarrow> (\<forall>d. parseTemperatures code d \<noteq> None)"

lemma readResponse_total:
  assumes inv: "M_inv d" and l: "\<forall>l \<in> set (mlines d). readable l" and c: "response_readable code"
  shows "M_readResponseCode code d \<noteq> None"
proof (cases "classify code")
  case R_temp
  with c show ?thesis by (simp add: readResponse_temp response_readable_def)
next
  case R_ok
  have ok: "gcb_ok (gcodeBuffer d)" using inv by (simp add: M_inv_def M_pre_def)
  show ?thesis
  proof (cases "is_printing d")
    case True
    then have ne: "mlines d \<noteq> []" using inv by (simp add: M_inv_def)
    obtain g where g: "eraseLine 1 (gcodeBuffer d) = Some (1, g)" "erases (gcodeBuffer d) 1 g"
      using ok_erases [OF ok ne] by blast
    have "hd (drop 1 (mlines d)) \<in> set (mlines d)" if "drop 1 (mlines d) \<noteq> []"
      using that by (metis hd_in_set in_set_dropD)
    then have "M_printNextLine (d\<lparr>gcodeBuffer := g\<rparr>) \<noteq> None"
      by (intro printNextLine_total) (use erasesD(1,2) [OF g(2)] l in auto)
    then show ?thesis using True g by (simp add: readResponse_ok [OF R_ok])
  next
    case False
    then show ?thesis by (simp add: readResponse_ok [OF R_ok])
  qed
next
  case R_resend
  have "M_printNextLine (resend_line d) \<noteq> None"
    by (rule printNextLine_total) (use M_pre_resend [OF M_inv_pre [OF inv]] l in \<open>auto simp: M_pre_def resend_line_def\<close>)
  then show ?thesis by (simp add: readResponse_resend [OF R_resend])
next
  case R_none
  then show ?thesis by (simp add: readResponse_none)
qed

text \<open>A response adds no lines.\<close>

lemma proto_resp_lines: "set (p_lines (proto_resp r p)) \<subseteq> set (p_lines p)"
  by (cases r; cases "p_lines p") (auto simp: proto_next_def split: list.splits dest: list.set_sel(2))

lemma responses_total:
  "M_inv d \<Longrightarrow> isConnected d \<Longrightarrow> \<forall>l \<in> set (mlines d). readable l \<Longrightarrow> \<forall>c \<in> set codes. response_readable c \<Longrightarrow>
     responses d codes \<noteq> None"
proof (induction codes arbitrary: d)
  case (Cons code codes)
  obtain d1 where d1: "M_readResponseCode code d = Some d1"
    using readResponse_total [OF Cons.prems(1,3)] Cons.prems(4) by auto
  note a = readResponse_abs [OF Cons.prems(1,2) d1]
  from proto_resp_lines [of "classify code" "abs_driver d"] a(1) have "set (mlines d1) \<subseteq> set (mlines d)"
    by (metis abs_driver_def proto.select_convs(1))
  then have "responses d1 codes \<noteq> None"
    by (intro Cons.IH [OF M_readResponseCode_inv [OF Cons.prems(1) d1] a(2)]) (use Cons.prems in auto)
  then show ?case using d1 by simp
qed simp

section \<open>Runs of the protocol\<close>

text \<open>The number of acknowledgements.\<close>

definition oks :: "resp list \<Rightarrow> nat" where
  "oks rs = length (filter ((=) R_ok) rs)"

lemma proto_run:
  assumes "\<not> p_check p" "online (p_state p)" "p_lines p = [] \<longleftrightarrow> \<not> printing (p_state p)" "R_resend \<notin> set rs"
  shows "fold proto_resp rs p = p\<lparr>p_lines := drop (oks rs) (p_lines p),
     p_state := (if oks rs < length (p_lines p) then p_state p
                 else if p_lines p = [] then p_state p else IDLE),
     p_log := p_log p @ map wire (take (oks rs) (tl (p_lines p)))\<rparr>"
  using assms
proof (induction rs arbitrary: p)
  case Nil
  then show ?case by (simp add: oks_def)
next
  case (Cons r rs)
  consider "r = R_ok" "p_lines p \<noteq> []" | "r = R_ok" "p_lines p = []" | "r = R_temp \<or> r = R_none"
    using Cons.prems(4) by (cases r) auto
  then show ?case
  proof cases
    case 1
    then obtain l ls where l: "p_lines p = l # ls" by (cases "p_lines p") auto
    have pr: "printing (p_state p)" using Cons.prems(3) l by simp
    show ?thesis
    proof (cases ls)
      case Nil
      then have "fold proto_resp (r # rs) p = fold proto_resp rs (p\<lparr>p_lines := [], p_state := IDLE\<rparr>)"
        using 1 l pr Cons.prems(2) by (simp add: proto_next_def)
      also have "\<dots> = p\<lparr>p_lines := [], p_state := IDLE\<rparr>"
        using Cons.IH [of "p\<lparr>p_lines := [], p_state := IDLE\<rparr>"] Cons.prems by (simp add: printing_def online_def)
      finally show ?thesis using 1 l Nil by (simp add: oks_def)
    next
      case (Cons k ks)
      let ?q = "p\<lparr>p_lines := ls, p_log := p_log p @ [wire k]\<rparr>"
      have "fold proto_resp (r # rs) p = fold proto_resp rs ?q"
        using 1 l pr Cons by (simp add: proto_next_def)
      then show ?thesis using Cons.IH [of ?q] Cons.prems 1 l pr Cons by (simp add: oks_def)
    qed
  next
    case 2
    with Cons.prems(3) have "proto_resp r p = p" by simp
    then show ?thesis using Cons.IH [of p] Cons.prems 2 by (simp add: oks_def)
  next
    case 3
    with Cons.prems(1) have "proto_resp r p = p" by auto
    then show ?thesis using Cons.IH [of p] Cons.prems 3 by (auto simp: oks_def)
  qed
qed

text \<open>With requests to send a line again: the position depends on the acknowledgements only, and
  the last line sent is the front one.\<close>

lemma proto_run_resend:
  fixes rs :: "resp list"
  assumes "\<not> p_check p" "online (p_state p)" "p_lines p = [] \<longleftrightarrow> \<not> printing (p_state p)"
    "p_lines p \<noteq> [] \<Longrightarrow> p_log p \<noteq> [] \<and> last (p_log p) = wire (hd (p_lines p))"
  defines "q \<equiv> fold proto_resp rs p"
  shows "p_lines q = drop (oks rs) (p_lines p)" "printing (p_state q) \<longleftrightarrow> oks rs < length (p_lines p)"
    "oks rs < length (p_lines p) \<Longrightarrow> last (p_log q) = wire (p_lines p ! oks rs)"
proof -
  have "p_lines q = drop (oks rs) (p_lines p) \<and> (printing (p_state q) \<longleftrightarrow> oks rs < length (p_lines p)) \<and>
    (oks rs < length (p_lines p) \<longrightarrow> last (p_log q) = wire (p_lines p ! oks rs))"
    using assms(1-4) unfolding q_def
  proof (induction rs arbitrary: p)
    case Nil
    then show ?case by (auto simp: oks_def hd_conv_nth)
  next
    case (Cons r rs)
    define p' where "p' = proto_resp r p"
    have p': "\<not> p_check p'" "online (p_state p')" "p_lines p' = [] \<longleftrightarrow> \<not> printing (p_state p')"
      "p_lines p' \<noteq> [] \<Longrightarrow> p_log p' \<noteq> [] \<and> last (p_log p') = wire (hd (p_lines p'))"
      "p_lines p' = drop (oks [r]) (p_lines p)"
      using Cons.prems
      by (cases r; cases "p_lines p"; cases "tl (p_lines p)";
          auto simp: p'_def proto_next_def oks_def online_def printing_def)+
    have "oks (r # rs) = oks [r] + oks rs" by (simp add: oks_def)
    moreover have "drop (oks rs) (p_lines p') = drop (oks [r] + oks rs) (p_lines p)"
      by (simp add: p'(5) add.commute)
    moreover have "oks rs < length (p_lines p') \<longleftrightarrow> oks [r] + oks rs < length (p_lines p)"
      by (auto simp: p'(5))
    moreover have "oks rs < length (p_lines p') \<Longrightarrow> p_lines p' ! oks rs = p_lines p ! (oks [r] + oks rs)"
      by (simp add: p'(5))
    ultimately show ?case using Cons.IH [OF p'(1-4)] by (simp add: p'_def [symmetric])
  qed
  then show "p_lines q = drop (oks rs) (p_lines p)" "printing (p_state q) \<longleftrightarrow> oks rs < length (p_lines p)"
    "oks rs < length (p_lines p) \<Longrightarrow> last (p_log q) = wire (p_lines p ! oks rs)" by auto
qed

section \<open>Everything that can happen to a driver\<close>

datatype marlin_op =
    OpOpen "string \<Rightarrow> int" "termios2 \<Rightarrow> termios2" ioctls
  | OpAppend string int "MetaData option"
  | OpClear
  | OpHeatup int
  | OpStart
  | OpStartCode string
  | OpStop string
  | OpUpdate "read_ev list" clock

inductive marlin_step :: "MarlinDriver \<Rightarrow> marlin_op \<Rightarrow> MarlinDriver \<Rightarrow> bool" where
  open_step: "openConnection os_open raw io d = (rv, d') \<Longrightarrow> marlin_step d (OpOpen os_open raw io) d'"
| append_step: "AD_appendGCode code n m d = Some (gsr, d') \<Longrightarrow> marlin_step d (OpAppend code n m) d'"
| clear_step: "marlin_step d OpClear (AD_clearGCode d)"
| heatup_step: "heatup M_sendCode t d = Some d' \<Longrightarrow> marlin_step d (OpHeatup t) d'"
| start_step: "M_startPrint PRINTING d = Some (b, d') \<Longrightarrow> marlin_step d OpStart d'"
| start_code_step: "M_startPrintCode code PRINTING d = Some (b, d') \<Longrightarrow> marlin_step d (OpStartCode code) d'"
| stop_step: "M_stopPrintCode code d = Some (b, d') \<Longrightarrow> marlin_step d (OpStop code) d'"
| update_step: "M_update es clk d = Some (Go (n, d')) \<Longrightarrow> marlin_step d (OpUpdate es clk) d'"

inductive_cases marlin_stepE: "marlin_step d op d'"

inductive_simps marlin_step_simps:
  "marlin_step d (OpAppend code n m) d'"
  "marlin_step d OpClear d'"
  "marlin_step d OpStart d'"
  "marlin_step d (OpStop code) d'"
  "marlin_step d (OpUpdate es clk) d'"

inductive reachable :: "MarlinDriver \<Rightarrow> bool" where
  new: "reachable (MarlinDriver_init path baud)"
| step: "reachable d \<Longrightarrow> marlin_step d op d' \<Longrightarrow> reachable d'"

lemma M_init_inv: "M_inv (MarlinDriver_init path baud)"
  using GCodeBuffer_init_inv
  by (simp add: MarlinDriver_init_def AbstractDriver.extend_def AbstractDriver_init_def M_inv_def M_pre_def
      gcb_inv_def isPrinterOnline_def is_printing_def)

lemma openConnection_inv: "M_inv d \<Longrightarrow> M_inv (snd (openConnection os_open raw io d))"
  by (auto simp: openConnection_def serial_open_def setBaudrate_def setState_def Let_def M_inv_def M_pre_def
      isPrinterOnline_def is_printing_def)

lemma marlin_step_inv: "marlin_step d op d' \<Longrightarrow> M_inv d \<Longrightarrow> M_inv d'"
proof (induction rule: marlin_step.induct)
  case (open_step os_open raw io d rv d')
  then show ?case using openConnection_inv by (metis snd_conv)
qed (auto simp: heatup_def intro: M_append_inv M_clear_inv M_sendCode_inv M_startPrint_inv M_startPrintCode_inv
    M_stopPrintCode_inv M_update_inv dest: M_inv_pre)

lemma reachable_inv: "reachable d \<Longrightarrow> M_inv d"
  by (induction rule: reachable.induct) (auto intro: M_init_inv marlin_step_inv)

text \<open>The descriptor of an open port is registered with the server, and stays it.\<close>

definition same_port :: "'a AbstractDriver_scheme \<Rightarrow> 'a AbstractDriver_scheme \<Rightarrow> bool" where
  "same_port d d' \<longleftrightarrow> portFd (serial d') = portFd (serial d) \<and> registeredFds d' = registeredFds d"

lemma same_port_refl [simp]: "same_port d d"
  by (simp add: same_port_def)

lemma same_port_trans: "same_port d1 d2 \<Longrightarrow> same_port d2 d3 \<Longrightarrow> same_port d1 d3"
  by (simp add: same_port_def)

lemma same_port_upd [simp]:
  "same_port d (setState st d') = same_port d d'" "same_port (setState st d) d' = same_port d d'"
  "same_port d (d'\<lparr>gcodeBuffer := g\<rparr>) = same_port d d'" "same_port (d\<lparr>gcodeBuffer := g\<rparr>) d' = same_port d d'"
  by (simp_all add: same_port_def setState_def)

lemma AD_port:
  "AD_appendGCode t n m d = Some (gsr, d') \<Longrightarrow> same_port d d'"
  "AD_setGCode t n m d = Some (gsr, d') \<Longrightarrow> same_port d d'"
  "same_port d (AD_clearGCode d)" "same_port d (snd (AD_resetPrint d))"
  by (auto elim!: AD_append_Some AD_set_Some split: if_splits dest!: extractGCodeInfo_frame
      simp: AD_clearGCode_def AD_resetPrint_def Let_def) (simp_all add: same_port_def)

lemma M_port:
  fixes d :: MarlinDriver
  shows "M_sendCode t d = Some d' \<Longrightarrow> same_port d d'"
    "M_printNextLine d = Some d' \<Longrightarrow> same_port d d'"
    "M_startPrint st d = Some (b, d') \<Longrightarrow> same_port d d'"
proof -
  show s: "M_sendCode t d = Some d' \<Longrightarrow> same_port d d'" for t d d'
    by (auto dest!: M_sendCode_frame simp: same_port_def)
  show p: "M_printNextLine d = Some d' \<Longrightarrow> same_port d d'" for d d'
    using AD_port(4) s by (auto simp: printNextLine_def split: prod.splits if_splits)
  show "M_startPrint st d = Some (b, d') \<Longrightarrow> same_port d d'"
    using same_port_trans [OF AD_port(4)]
    by (auto simp: M_startPrint_def AD_startPrint_def Let_def split: if_splits dest!: p)
qed

lemma M_readResponseCode_port: "M_readResponseCode code d = Some d' \<Longrightarrow> same_port d d'"
  by (auto simp: M_readResponseCode_def bind_eq_Some_conv Let_def split: if_splits prod.splits
      dest!: M_port(2) parseTemperatures_frame) (simp_all add: same_port_def setState_def)

lemma lines_loop_port: "lines_loop d = Some d' \<Longrightarrow> same_port d d'"
proof (induction d arbitrary: d' rule: lines_loop.induct)
  case (1 d)
  have e: "extractLine (serial d) = Some (l, s) \<Longrightarrow> same_port d (d\<lparr>serial := s\<rparr>)" for l s
    by (auto simp: extractLine_def same_port_def split: option.splits if_splits)
  have r: "M_readResponseCode l (d\<lparr>serial := s\<rparr>) = Some d1 \<Longrightarrow> same_port (d\<lparr>serial := s\<rparr>) d1" for l s d1
    by (rule M_readResponseCode_port)
  obtain l s where x: "extractLine (serial d) = Some (l, s)"
    using "1.prems" by (cases "extractLine (serial d)") (auto simp: lines_loop.simps [of d])
  show ?case
  proof (cases l)
    case None
    with "1.prems" x e [OF x] show ?thesis by (simp add: lines_loop.simps [of d])
  next
    case (Some line)
    with "1.prems" x obtain d1 where d1: "M_readResponseCode line (d\<lparr>serial := s\<rparr>) = Some d1" "lines_loop d1 = Some d'"
      by (auto simp: lines_loop.simps [of d] split: option.splits)
    have "same_port d1 d'" using "1.IH" [OF x _ Some d1(1,2)] by simp
    then show ?thesis using same_port_trans [OF e [OF x]] same_port_trans [OF r [OF d1(1)]] by blast
  qed
qed

lemma M_update_port: "M_update es clk d = Some (Go (n, d')) \<Longrightarrow> same_port d d'"
proof -
  assume u: "M_update es clk d = Some (Go (n, d'))"
  show ?thesis
  proof (cases "isConnected d")
    case True
    with u obtain d1 where 1: "update_temperature clk d = Some d1"
      by (cases "update_temperature clk d") (simp_all add: M_update_def)
    with u True obtain r where r: "update_read es clk d1 = Some r"
      by (cases "update_read es clk d1") (simp_all add: M_update_def)
    with u True 1 have 2: "update_read es clk d1 = Some (Go d')" by (cases r) (simp_all add: M_update_def)
    have a: "same_port d d1"
      using 1 by (auto simp: update_temperature_def M_checkTemperature_def Let_def split: if_splits dest!: M_port(1))
        (simp_all add: same_port_def)
    have "same_port d1 d'"
    proof (cases "driver_readData es d1")
      case (Go r)
      obtain rv e where e: "r = (rv, e)" by (cases r)
      obtain k err s1 es1 where rd: "serial_readData es 0 False (serial d1) = (k, err, s1, es1)" by (metis prod_cases4)
      then have "e = d1\<lparr>serial := s1\<rparr>" using Go e by (simp add: driver_readData_def Let_def split: if_splits)
      then have s: "same_port d1 e" using serial_readData_grows(2) [OF rd] by (simp add: same_port_def)
      show ?thesis
      proof (cases "is_printing d1 \<or> elapsed_more (t_timer clk) (timer_start d1) UPDATE_INTERVAL")
        case True
        with 2 have "map_option (\<lambda>d2. Go (d2\<lparr>timer_start := t_timer_start clk\<rparr>)) (if rv > 0 then lines_loop e else Some e) = Some (Go d')"
          by (simp only: update_read_def Go e if_True outcome.case prod.case)
        then obtain d2 where "(if rv > 0 then lines_loop e else Some e) = Some d2" "d2\<lparr>timer_start := t_timer_start clk\<rparr> = d'"
          unfolding map_option_eq_Some outcome.inject by (elim exE conjE)
        then have "same_port e d'" using lines_loop_port [of e d2] by (cases "rv > 0") (auto simp: same_port_def)
        with s show ?thesis by (rule same_port_trans)
      next
        case False
        then show ?thesis using 2 by (simp add: update_read_def)
      qed
    qed (use 2 in \<open>auto simp: update_read_def split: if_splits\<close>)
    with a show ?thesis by (rule same_port_trans)
  qed (use u in \<open>simp add: M_update_def\<close>)
qed

lemma reachable_port_registered: "reachable d \<Longrightarrow> isConnected d \<Longrightarrow> portFd (serial d) \<in> registeredFds d"
proof (induction rule: reachable.induct)
  case (new path baud)
  then show ?case
    by (simp add: isConnected_def serial_isOpen_def MarlinDriver_init_def AbstractDriver.extend_def AbstractDriver_init_def
        Serial_init_def)
next
  case (step d op d')
  have same: "same_port d d' \<Longrightarrow> ?case"
    using step by (simp add: same_port_def isConnected_def serial_isOpen_def)
  have set: "map_option snd (AD_setGCode t n m e) = Some e' \<Longrightarrow> same_port e e'" for t n m e and e' :: MarlinDriver
    using AD_port(2) by auto
  from step.hyps(2) show ?case
  proof cases
    case (open_step os_open raw io rv)
    then show ?thesis
      using step.prems by (auto simp: openConnection_def serial_open_def registerFileDescriptor_def setBaudrate_def setState_def
          isConnected_def serial_isOpen_def Let_def split: if_splits)
  next
    case (heatup_step t)
    then show ?thesis using M_port(1) by (intro same) (simp add: heatup_def)
  next
    case (start_code_step code b)
    then show ?thesis
      by (intro same) (auto simp: M_startPrintCode_def AD_startPrintCode_def bind_eq_Some_conv split: if_splits
          dest!: AD_port(2) M_port(3) intro: same_port_trans)
  next
    case (stop_step code b)
    then obtain e where "map_option snd (AD_setGCode code (-1) None (snd (AD_resetPrint d))) = Some e"
      "M_startPrint STOPPING e = Some (b, d')"
      by (auto simp: M_stopPrintCode_def AD_stopPrintCode_def bind_eq_Some_conv)
    then show ?thesis
      using same_port_trans [OF AD_port(4) same_port_trans [OF set M_port(3)]] same by blast
  qed (use AD_port(1,3) M_port(3) M_update_port same in blast)+
qed

section \<open>Properties\<close>

text \<open>C7: Whatever the server asks of a Marlin driver and whatever the printer and the
  operating system answer: while the driver is printing or stopping, its buffer holds at least one
  line, its line counter is exact and at least one, and the acknowledgement of a line erases exactly
  one line (it never meets the empty bucket that would make the counter negative).\<close>

theorem printing_has_lines:
  assumes "reachable d" "is_printing d"
  shows "mlines d \<noteq> [] \<and> bufferedLines (gcodeBuffer d) = int (length (mlines d)) \<and>
    (\<exists>g. eraseLine 1 (gcodeBuffer d) = Some (1, g) \<and> lines_of g = tl (mlines d))"
proof -
  have inv: "M_inv d" by (rule reachable_inv [OF assms(1)])
  then have ok: "gcb_ok (gcodeBuffer d)" and ne: "mlines d \<noteq> []" using assms(2) by (auto simp: M_inv_def M_pre_def)
  obtain g where g: "eraseLine 1 (gcodeBuffer d) = Some (1, g)" "erases (gcodeBuffer d) 1 g"
    using ok_erases [OF ok ne] by blast
  then show ?thesis using ok ne erasesD(2) [OF g(2)] by (auto simp: gcb_ok_def drop_Suc)
qed

text \<open>C6: On any reachable, connected driver, handling a sequence of printer responses does
  what the abstract protocol does with the kinds of these responses: an acknowledgement moves on to
  the next line while printing, a request sends the front line again, the first temperature
  makes the driver idle, everything else changes nothing.\<close>

theorem responses_follow_protocol:
  assumes "reachable d" "isConnected d" "responses d codes = Some d'"
  shows "abs_driver d' = fold proto_resp (map classify codes) (abs_driver d)"
  using responses_abs [OF reachable_inv [OF assms(1)] assms(2,3)] by blast

text \<open>Printing gets done. A reachable, connected driver that is idle or buffering, with
  a buffer of readable lines, starts a print; when the printer then answers, in any order and
  with any temperatures and other chatter in between but without requests to resend, with at least
  as many acknowledgements as there are lines, then no step fails, each line was sent exactly once and
  in order, nothing else was sent, the buffer is empty and the driver idle.\<close>

theorem print_completes:
  assumes "reachable d" "isConnected d" "dstate d = IDLE \<or> dstate d = BUFFERING"
    and "mlines d \<noteq> []" "\<forall>l \<in> set (mlines d). readable l"
    and "\<forall>c \<in> set codes. response_readable c" "R_resend \<notin> set (map classify codes)"
    and "length (mlines d) \<le> oks (map classify codes)"
  shows "\<exists>d0 d'. M_startPrint PRINTING d = Some (True, d0) \<and> responses d0 codes = Some d' \<and>
    written (serial d') = written (serial d) @ map wire (mlines d) \<and> mlines d' = [] \<and> dstate d' = IDLE"
proof -
  have inv: "M_inv d" by (rule reachable_inv [OF assms(1)])
  have on: "isPrinterOnline d" using assms(3) by (auto simp: isPrinterOnline_def)
  have chk: "\<not> checkConnection d" using inv on by (simp add: M_inv_def M_pre_def)
  obtain l ls where l: "mlines d = l # ls" using assms(4) by (cases "mlines d") auto
  obtain b d0 where d0: "M_startPrint PRINTING d = Some (b, d0)"
    using startPrint_total [OF inv assms(5), of PRINTING] by auto
  note s = startPrint_abs [OF inv assms(2) d0]
  have a0: "abs_driver d0 = \<lparr>p_lines = l # ls, p_state = PRINTING, p_log = written (serial d) @ [wire l], p_check = False\<rparr>"
    using s(1) on chk l by (simp add: proto_start_def proto_next_def abs_driver_def online_driver)
  have inv0: "M_inv d0" by (rule M_startPrint_inv [OF M_inv_pre [OF inv] d0])
  have "mlines d0 = mlines d" using a0 l by (simp add: abs_driver_def)
  then obtain d' where d': "responses d0 codes = Some d'"
    using responses_total [OF inv0 s(2), of codes] assms(5,6) by auto
  have "abs_driver d' = fold proto_resp (map classify codes) (abs_driver d0)"
    using responses_abs [OF inv0 s(2) d'] by blast
  also have "\<dots> = \<lparr>p_lines = [], p_state = IDLE, p_log = written (serial d) @ map wire (l # ls), p_check = False\<rparr>"
    using assms(7,8) l by (subst proto_run) (auto simp: a0 online_def printing_def)
  finally show ?thesis using d0 d' s(3) on l by (auto simp: abs_driver_def)
qed

text \<open>C21: Requests to resend do no harm. After a started print and any responses whatever,
  the lines left are those behind the acknowledged ones, and while any are left, the driver is still
  printing and the last line it sent is the first of them.\<close>

theorem resend_keeps_position:
  assumes "reachable d" "isConnected d" "dstate d = IDLE \<or> dstate d = BUFFERING" "mlines d \<noteq> []"
    and "M_startPrint PRINTING d = Some (True, d0)" "responses d0 codes = Some d'"
  defines "n \<equiv> oks (map classify codes)"
  shows "mlines d' = drop n (mlines d) \<and> (is_printing d' \<longleftrightarrow> n < length (mlines d)) \<and>
    (n < length (mlines d) \<longrightarrow> last (written (serial d')) = wire (mlines d ! n))"
proof -
  have inv: "M_inv d" by (rule reachable_inv [OF assms(1)])
  have on: "isPrinterOnline d" using assms(3) by (auto simp: isPrinterOnline_def)
  have chk: "\<not> checkConnection d" using inv on by (simp add: M_inv_def M_pre_def)
  obtain l ls where l: "mlines d = l # ls" using assms(4) by (cases "mlines d") auto
  note s = startPrint_abs [OF inv assms(2,5)]
  have a0: "abs_driver d0 = \<lparr>p_lines = l # ls, p_state = PRINTING, p_log = written (serial d) @ [wire l], p_check = False\<rparr>"
    using s(1) on chk l by (simp add: proto_start_def proto_next_def abs_driver_def online_driver)
  have inv0: "M_inv d0" by (rule M_startPrint_inv [OF M_inv_pre [OF inv] assms(5)])
  have a: "abs_driver d' = fold proto_resp (map classify codes) (abs_driver d0)"
    using responses_abs [OF inv0 s(2) assms(6)] by blast
  have p: "\<not> p_check (abs_driver d0)" "online (p_state (abs_driver d0))"
    "p_lines (abs_driver d0) = [] \<longleftrightarrow> \<not> printing (p_state (abs_driver d0))"
    "p_lines (abs_driver d0) \<noteq> [] \<Longrightarrow> p_log (abs_driver d0) \<noteq> [] \<and>
       last (p_log (abs_driver d0)) = wire (hd (p_lines (abs_driver d0)))"
    by (simp_all add: a0 online_def printing_def)
  from proto_run_resend [OF p, of "map classify codes", folded a] show ?thesis
    using l by (simp add: a0 n_def printing_driver) (simp add: abs_driver_def)
qed

text \<open>C40: Stopping a print replaces what was left of it. On a reachable, connected driver that
  is online, \<open>stopPrint\<close> with end code that fits the buffer leaves exactly the lines of
  the end code, sends the first of them and keeps the driver stopping; with end code without any
  line (and always for \<open>stopPrint()\<close>) the driver is idle at once and nothing is sent.\<close>

theorem stop_replaces_print:
  assumes "reachable d" "isConnected d" "isPrinterOnline d" "int (length code) \<le> MAX_BUFFER_SIZE"
    and "M_stopPrintCode code d = Some (b, d')"
  defines "ls \<equiv> gcode_lines (keepGpxMacroComments (gcodeBuffer d)) code"
  shows "b \<and> mlines d' = ls \<and> dstate d' = (if ls = [] then IDLE else STOPPING) \<and>
    written (serial d') = written (serial d) @ map wire (take 1 ls)"
proof -
  let ?r = "snd (AD_resetPrint d)"
  obtain gsr d1 where d1: "AD_setGCode code (-1) None ?r = Some (gsr, d1)" "M_startPrint STOPPING d1 = Some (b, d')"
    using assms(5) by (auto simp: M_stopPrintCode_def AD_stopPrintCode_def bind_eq_Some_conv)
  have inv: "M_inv d" by (rule reachable_inv [OF assms(1)])
  have pre: "M_pre ?r" and np: "\<not> is_printing ?r"
    using inv assms(3) by (auto simp: M_inv_def M_pre_def AD_resetPrint_effect is_printing_def isPrinterOnline_def)
  have inv1: "M_inv d1" by (rule M_set_pre(1) [OF pre np d1(1)])
  obtain g where g: "gcb_append code (-1) None (gcb_clear (gcodeBuffer ?r)) = Some (gsr, g)"
    and e: "if gsr = GSR_OK then \<exists>d2. extractGCodeInfo code (?r\<lparr>gcodeBuffer := g\<rparr>) = Some d2 \<and>
       d1 = setState (buffered (dstate d2)) d2 else d1 = ?r\<lparr>gcodeBuffer := g\<rparr>"
    by (rule AD_set_Some [OF d1(1)])
  have okc: "gcb_ok (gcb_clear (gcodeBuffer ?r))" using gcb_clear_inv by (simp add: gcb_inv_def)
  have gsr: "gsr = GSR_OK"
    using gcb_append_accepts [OF okc, of None code "-1"] g assms(4)
    by (auto simp: append_sanity_def gcb_clear_def MetaData_init_def)
  have k: "keepGpxMacroComments (gcodeBuffer ?r) = keepGpxMacroComments (gcodeBuffer d)"
    by (simp add: AD_resetPrint_def setCurrentLine_def setState_def Let_def)
  have lg: "lines_of g = ls"
    using gt.app_ok [where m = "(-1, None)" and t = code, OF okc] g gsr by (simp add: ls_def k)
  from e gsr obtain d2 where d2: "extractGCodeInfo code (?r\<lparr>gcodeBuffer := g\<rparr>) = Some d2"
    "d1 = setState (buffered (dstate d2)) d2" by auto
  from extractGCodeInfo_frame [OF d2(1)] obtain t bt where
    "d2 = ?r\<lparr>gcodeBuffer := g, targetTemperature := t, targetBedTemperature := bt\<rparr>" by blast
  then have a1: "mlines d1 = ls" "dstate d1 = BUFFERING" "written (serial d1) = written (serial d)" "isConnected d1"
    using assms(2,3) lg by (simp_all add: d2(2) setState_def AD_resetPrint_effect buffered_def isConnected_def)
  have on: "isPrinterOnline d1" using a1(2) by (simp add: isPrinterOnline_def)
  have "\<not> checkConnection d1" using inv1 on by (simp add: M_inv_def M_pre_def)
  then have "abs_driver d1 = \<lparr>p_lines = ls, p_state = BUFFERING, p_log = written (serial d), p_check = False\<rparr>"
    using a1 by (simp add: abs_driver_def)
  with startPrint_abs [OF inv1 a1(4) d1(2)] on show ?thesis
    by (cases ls) (auto simp: proto_start_def proto_next_def online_def abs_driver_def)
qed

text \<open>A start command during a print is not refused: the driver sends the front line a
  second time although it was sent and not yet acknowledged, and counts it as a further line; the
  buffer is unchanged.\<close>

theorem second_start_repeats_line:
  assumes "reachable d" "isConnected d" "is_printing d" "M_startPrint PRINTING d = Some (b, d')"
  shows "b \<and> written (serial d') = written (serial d) @ [wire (hd (mlines d))] \<and> mlines d' = mlines d \<and>
    currentLine (gcodeBuffer d') = min (currentLine (gcodeBuffer d) + 1) (totalLinesSent (gcodeBuffer d))"
proof -
  have inv: "M_inv d" by (rule reachable_inv [OF assms(1)])
  have on: "isPrinterOnline d" by (rule is_printing_online [OF assms(3)])
  have ok: "gcb_ok (gcodeBuffer d)" and ne: "mlines d \<noteq> []" using inv assms(3) by (auto simp: M_inv_def M_pre_def)
  have "AD_startPrint AD_resetPrint PRINTING d = (True, setState PRINTING d)"
    using on assms(3) by (auto simp: AD_startPrint_def is_printing_def)
  then have p: "b = True" "M_printNextLine (setState PRINTING d) = Some d'"
    using assms(4) by (auto simp: M_startPrint_def)
  have "gcb_ok (gcodeBuffer (setState PRINTING d))" "mlines (setState PRINTING d) \<noteq> []"
    using ok ne by (simp_all add: setState_def)
  from printNextLine_lines [OF this p(2)] show ?thesis
    using p(1) assms(2) by (auto simp: setState_def isConnected_def)
qed

text \<open>The value \<open>update\<close> returns on a connected driver is the time left of the
  interval of 200 ms since the last reading of the port, rounded towards zero: it lies between 0 and
  200 as long as less than 201 ms have passed, and is negative, which the server takes for \<open>wait
  for ever\<close>, exactly from 201 ms on.\<close>

theorem update_timeout:
  assumes "isConnected d" "M_update es clk d = Some (Go (n, d'))" "timer_start d' \<le> t_return clk"
  shows "n \<le> 200 \<and> (0 \<le> n \<longleftrightarrow> t_return clk - timer_start d' < 201000)"
proof -
  obtain d1 ro where "update_read es clk d1 = Some ro"
    "(case ro of Exit rv \<Rightarrow> Exit rv | Go d2 \<Rightarrow> Go (time_left (t_return clk) (timer_start d2), d2)) = Go (n, d')"
    using assms(1,2) by (auto simp: M_update_def bind_eq_Some_conv)
  then have "n = time_left (t_return clk) (timer_start d')" by (cases ro) auto
  then show ?thesis using assms(3) by (auto simp: time_left_def UPDATE_INTERVAL_def Let_def)
qed

lemma rfind_end: "sub \<noteq> [] \<Longrightarrow> rfind_prefix sub (u @ sub) = Some (length u)"
proof (induction u)
  case Nil
  have "rfind_prefix sub t = None" if "length t < length sub" for t
    using that by (induction t) (auto simp: take_Cons' split: option.splits if_splits)
  then show ?case by (cases sub) auto
qed simp

text \<open>A piece of g-code that ends with the command M109 (without its temperature) and is
  accepted by the buffer makes the driver throw: the position of the number lies behind the end of
  the text.\<close>

theorem m109_without_temperature:
  assumes "gcb_append (u @ ''M109'') n m (gcodeBuffer d) = Some (GSR_OK, g)"
  shows "AD_appendGCode (u @ ''M109'') n m d = None"
  using rfind_end [of "''M109''" u] assms
  by (simp add: AD_appendGCode_def extractGCodeInfo_def store_number_def findNumber_def Let_def)

lemma rfind_none: "c \<notin> set xs \<Longrightarrow> rfind_prefix (c # t) xs = None"
  by (induction xs) auto

lemma dec_no_special:
  "c \<in> {CHR ''M'', NL, CHR '' '', NUL} \<Longrightarrow> c \<notin> set (dec n)"
  using is_digit_dec [of c n] by (auto simp: is_digit_def digit_of_def Let_def)

lemma send_target:
  assumes "isConnected d" "rfind_prefix ''M109'' l = Some 0" "rfind_prefix ''M190'' l = None"
    "findNumber l 6 = Some k" "cstr (l @ [NL]) = l @ [NL]"
  shows "\<exists>d'. M_sendCode l d = Some d' \<and> targetTemperature d' = word_of_int k \<and>
    written (serial d') = written (serial d) @ [l @ [NL]]"
  using assms
  by (simp add: M_sendCode_def extractGCodeInfo_def store_number_def serial_send_def isConnected_def serial_isOpen_def)

text \<open>The line \<open>M109 S<n>\<close> sent to the printer sets the target temperature of
  the driver to \<open>n\<close>, as a 16-bit number, and goes over the wire unchanged.\<close>

theorem m109_sets_target:
  assumes "isConnected d" "n < 2 ^ 31"
  shows "\<exists>d'. M_sendCode (''M109 S'' @ dec n) d = Some d' \<and> targetTemperature d' = word_of_nat n \<and>
    written (serial d') = written (serial d) @ [''M109 S'' @ dec n @ [NL]]"
proof -
  let ?l = "''M109 S'' @ dec n"
  have M: "CHR ''M'' \<notin> set (dec n)" "NL \<notin> set (dec n)" "CHR '' '' \<notin> set (dec n)" "NUL \<notin> set (dec n)"
    by (auto simp: dec_no_special)
  have r: "rfind_prefix ''M109'' ?l = Some 0" "rfind_prefix ''M190'' ?l = None"
    using rfind_none [OF M(1)] by simp_all
  have "find_char NL ?l 6 = None" "find_char (CHR '' '') ?l 6 = None"
    using M by (simp_all add: find_char_None)
  then have "findNumber ?l 6 = Some (int n)"
    using atof_dec [of "[]" n] assms(2) M(4) by (simp add: findNumber_def cstr_no_NUL ends_number_def)
  note f = this
  have c: "cstr (?l @ [NL]) = ?l @ [NL]" using M(4) by (intro cstr_no_NUL) auto
  show ?thesis using send_target [OF assms(1) r f c] by auto
qed

text \<open>A bed temperature below zero, as printers without a heated bed report it and as the
  driver's documentation lists it, is stored modulo \<open>2 ^ 16\<close>: -1 becomes 65535.\<close>

theorem negative_bed_temperature:
  "parseTemperatures ''T:19.51 B:-1.00 @:0'' d =
     Some (d\<lparr>heating := True, temperature := 19, bedTemperature := 65535\<rparr>)"
proof -
  have "strtod ''19.51'' = Const False 1951 100" "strtod ''-1.00'' = Const True 100 100" by code_simp+
  moreover have "floorlog 2 19 = 5" "floorlog 2 1 = 1" by (simp_all add: compute_floorlog)
  ultimately have a: "atof_int ''19.51'' = Some 19" "atof_int ''-1.00'' = Some (-1)"
    by (simp_all add: atof_int_def trunc_double_def round_even_def Let_def)
  have "findNumber ''T:19.51 B:-1.00 @:0'' (Suc (Suc 0)) = Some 19" "findNumber ''T:19.51 B:-1.00 @:0'' 10 = Some (-1)"
    using a by (simp_all add: findNumber_def find_char_def cstr_def)
  moreover have "(-1 :: 16 word) = 65535" by simp
  ultimately show ?thesis
    by (simp add: parseTemperatures_def store_number_def find_str_def find_char_def)
qed

section \<open>Witnesses\<close>

lemma atof_20: "atof_int ''20'' = Some 20"
proof -
  have "dec 20 = ''20''" by code_simp
  with atof_dec [of "[]" 20] show ?thesis by (simp add: ends_number_def)
qed

lemma temp_line: "parseTemperatures ''T:20'' d = Some (d\<lparr>heating := True, temperature := 20\<rparr>)"
  by (simp add: parseTemperatures_def store_number_def find_str_def find_char_def findNumber_def cstr_def atof_20)

definition all_well :: ioctls where
  "all_well = \<lparr>tcgets2 = Some \<lparr>c_cflag = 0, c_ispeed = 0, c_ospeed = 0\<rparr>, tcsets2 = True, tiocmget = Some 0,
     tiocmset1 = True, tiocmset2 = True\<rparr>"

definition at_second :: "int \<Rightarrow> clock" where
  "at_second n = \<lparr>t_temperature = n * 1000000, t_temperature_start = n * 1000000, t_timer = n * 1000000,
     t_timer_start = n * 1000000, t_return = n * 1000000\<rparr>"

text \<open>A driver that was connected and has seen a temperature.\<close>

definition opened_driver :: MarlinDriver where
  "opened_driver = snd (openConnection (\<lambda>path. 5) (\<lambda>t. t) all_well (MarlinDriver_init ''/dev/ttyACM0'' 250000))"

definition idle_driver :: MarlinDriver where
  "idle_driver = opened_driver\<lparr>heating := True, temperature := 20, dstate := IDLE, checkConnection := False,
     checkTemperatureInterval := 1500, timer_start := 1000000\<rparr>"

lemma opened_driver_eq: "opened_driver = (MarlinDriver_init ''/dev/ttyACM0'' 250000)
    \<lparr>serial := \<lparr>portFd = 5, sbuf = [], written = []\<rparr>, registeredFds := {5}, dstate := CONNECTING\<rparr>"
  by (simp add: opened_driver_def openConnection_def serial_open_def registerFileDescriptor_def setBaudrate_def
      setSpeed_def all_well_def setState_def Let_def MarlinDriver_init_def AbstractDriver.extend_def
      AbstractDriver_init_def Serial_init_def)

lemma idle_update: "M_update [RdData ''T:20\<newline>''] (at_second 1) opened_driver = Some (Go (200, idle_driver))"
proof -
  let ?o = opened_driver
  have f: "isConnected ?o" "checkTemperatureInterval ?o = 5000" "temperatureTimer_start ?o = 0" "timer_start ?o = 0"
    "checkConnection ?o" "sbuf (serial ?o) = []" "\<not> is_printing ?o" "serial ?o = \<lparr>portFd = 5, sbuf = [], written = []\<rparr>"
    "dstate ?o = CONNECTING"
    by (simp_all add: opened_driver_eq isConnected_def serial_isOpen_def MarlinDriver_init_def AbstractDriver.extend_def
        AbstractDriver_init_def is_printing_def)
  have t: "update_temperature (at_second 1) ?o = Some ?o"
    by (simp add: update_temperature_def f elapsed_more_def at_second_def)
  have r: "driver_readData [RdData ''T:20\<newline>''] ?o =
      Go (5, ?o\<lparr>serial := \<lparr>portFd = 5, sbuf = ''T:20\<newline>'', written = []\<rparr>\<rparr>)"
    by (simp add: driver_readData_def serial_readData_def readAndAppendAvailableData_def f READ_BUF_SIZE_def)
  let ?t = "temp_seen (?o\<lparr>serial := \<lparr>portFd = 5, sbuf = [], written = []\<rparr>, heating := True, temperature := 20\<rparr>)"
  have c: "classify ''T:20'' = R_temp" by (simp add: classify_def)
  have "extractLine \<lparr>portFd = 5, sbuf = ''T:20\<newline>'', written = []\<rparr> =
      Some (Some ''T:20'', \<lparr>portFd = 5, sbuf = [], written = []\<rparr>)"
    using extractLine_line [of "''T:20''" "\<lparr>portFd = 5, sbuf = ''T:20\<newline>'', written = []\<rparr>" "[]"]
    by (simp add: strip_cr_def cstr_def)
  then have l1: "lines_loop (?o\<lparr>serial := \<lparr>portFd = 5, sbuf = ''T:20\<newline>'', written = []\<rparr>\<rparr>) = lines_loop ?t"
    by (subst lines_loop.simps) (simp add: readResponse_temp [OF c] temp_line)
  have s: "serial ?t = \<lparr>portFd = 5, sbuf = [], written = []\<rparr>" by (simp add: temp_seen_def setState_def Let_def)
  then have l2: "lines_loop ?t = Some ?t"
    by (subst lines_loop.simps) (simp add: extractLine_none s)
  have d: "?t\<lparr>timer_start := t_timer_start (at_second 1)\<rparr> = idle_driver"
    using f by (simp add: temp_seen_def setState_def Let_def idle_driver_def is_printing_def at_second_def)
  have a: "t_timer (at_second 1) = 1000000" "t_return (at_second 1) = 1000000" "timer_start idle_driver = 1000000"
    by (simp_all add: at_second_def idle_driver_def)
  have u: "update_read [RdData ''T:20\<newline>''] (at_second 1) ?o = Some (Go idle_driver)"
    by (simp add: update_read_def r l1 l2 d f elapsed_more_def a UPDATE_INTERVAL_def)
  show ?thesis
    by (simp add: M_update_def f t u time_left_def UPDATE_INTERVAL_def a)
qed

lemma idle_reachable: "reachable idle_driver"
proof -
  have "reachable opened_driver"
    unfolding opened_driver_def by (rule reachable.step [OF reachable.new open_step]) (rule surjective_pairing)
  then show ?thesis by (rule reachable.step [OF _ update_step [OF idle_update]])
qed

text \<open>The idle driver with a piece of g-code appended.\<close>

lemma readable_plain:
  assumes "rfind_prefix ''M109'' code = None" "rfind_prefix ''M190'' code = None"
  shows "readable code"
  by (simp add: readable_def extractGCodeInfo_def store_number_def assms)

lemma idle_facts:
  "gcodeBuffer idle_driver = GCodeBuffer_init" "dstate idle_driver = IDLE" "isConnected idle_driver"
  "written (serial idle_driver) = []"
  by (simp_all add: idle_driver_def opened_driver_eq MarlinDriver_init_def AbstractDriver.extend_def
      AbstractDriver_init_def isConnected_def serial_isOpen_def)

lemma appended_driver:
  assumes "int (length code) \<le> MAX_BUFFER_SIZE" "rfind_prefix ''M109'' code = None" "rfind_prefix ''M190'' code = None"
  obtains d where "AD_appendGCode code (-1) None idle_driver = Some (GSR_OK, d)" "reachable d" "isConnected d"
    "dstate d = BUFFERING" "mlines d = gcode_lines False code" "written (serial d) = []"
proof -
  obtain g where g: "gcb_append code (-1) None GCodeBuffer_init = Some (GSR_OK, g)"
    using append_init_OK [OF assms(1)] by blast
  have gl: "lines_of g = gcode_lines False code"
    using gt.app_ok [where m = "(-1, None)" and t = code and s = GCodeBuffer_init] g GCodeBuffer_init_inv
    by (auto simp: gcb_inv_def) (auto simp: GCodeBuffer_init_def lines_of_def)
  let ?d = "setState BUFFERING (idle_driver\<lparr>gcodeBuffer := g\<rparr>)"
  have a: "AD_appendGCode code (-1) None idle_driver = Some (GSR_OK, ?d)"
    by (simp add: AD_appendGCode_def idle_facts g extractGCodeInfo_def store_number_def assms buffered_def Let_def)
  have "reachable ?d" by (rule reachable.step [OF idle_reachable append_step [OF a]])
  then show ?thesis
    using that [OF a] gl idle_facts by (simp add: setState_def isConnected_def)
qed

definition two_lines :: string where
  "two_lines = ''G28\<newline>G1 X2\<newline>''"

lemma two_lines_lines: "gcode_lines False two_lines = [''G28'', ''G1 X2'']"
  by code_simp

lemma started_driver:
  obtains d d0 where "reachable d" "isConnected d" "dstate d = BUFFERING" "mlines d = [''G28'', ''G1 X2'']"
    "written (serial d) = []" "\<forall>l \<in> set (mlines d). readable l" "M_startPrint PRINTING d = Some (True, d0)"
    "reachable d0" "isConnected d0" "is_printing d0" "mlines d0 = [''G28'', ''G1 X2'']"
    "written (serial d0) = [''G28\<newline>'']"
proof -
  obtain d where d: "reachable d" "isConnected d" "dstate d = BUFFERING" "mlines d = gcode_lines False two_lines"
    "written (serial d) = []"
    by (rule appended_driver [of two_lines]) (auto simp: MAX_BUFFER_SIZE_def two_lines_def)
  have r: "\<forall>l \<in> set (mlines d). readable l" by (simp add: d(4) two_lines_lines readable_plain)
  have inv: "M_inv d" by (rule reachable_inv [OF d(1)])
  obtain b d0 where d0: "M_startPrint PRINTING d = Some (b, d0)"
    using startPrint_total [OF inv r, of PRINTING] by auto
  note s = startPrint_abs [OF inv d(2) d0]
  have b: "b = True" using s(3) d(3) by (simp add: isPrinterOnline_def)
  have w: "wire ''G28'' = ''G28\<newline>''" by code_simp
  have "mlines d0 = [''G28'', ''G1 X2'']" "dstate d0 = PRINTING" "written (serial d0) = [''G28\<newline>'']"
    using s(1) d(3-5) two_lines_lines w
    by (auto simp: abs_driver_def proto_start_def proto_next_def online_def)
  then show ?thesis
    using that [OF d(1-3) _ d(5) r d0 [unfolded b] reachable.step [OF d(1) start_step [OF d0]] s(2)] d(4) two_lines_lines
    by (simp add: is_printing_def)
qed

theorem print_completes_witness:
  "\<exists>d d0 d'. reachable d \<and> mlines d = [''G28'', ''G1 X2''] \<and> M_startPrint PRINTING d = Some (True, d0) \<and>
     responses d0 [''ok'', ''echo:busy'', ''ok''] = Some d' \<and>
     written (serial d') = [''G28\<newline>'', ''G1 X2\<newline>''] \<and> dstate d' = IDLE"
proof -
  let ?rs = "[''ok'', ''echo:busy'', ''ok'']"
  obtain d where d: "reachable d" "isConnected d" "dstate d = BUFFERING" "mlines d = [''G28'', ''G1 X2'']"
    "written (serial d) = []" "\<forall>l \<in> set (mlines d). readable l" using started_driver by metis
  have c: "map classify ?rs = [R_ok, R_none, R_ok]" by code_simp
  have rr: "\<forall>c \<in> set ?rs. response_readable c" using c by (auto simp: response_readable_def)
  have w: "map wire [''G28'', ''G1 X2''] = [''G28\<newline>'', ''G1 X2\<newline>'']" by code_simp
  show ?thesis
    using print_completes [OF d(1,2) disjI2 [OF d(3)] _ d(6) rr] d c w by (auto simp: oks_def)
qed

theorem responses_follow_protocol_witness:
  "\<exists>d'. responses idle_driver [''start'', ''ok'', ''Resend: 3''] = Some d' \<and>
     abs_driver d' = fold proto_resp [R_none, R_ok, R_resend] (abs_driver idle_driver)"
proof -
  let ?rs = "[''start'', ''ok'', ''Resend: 3'']"
  have c: "map classify ?rs = [R_none, R_ok, R_resend]" by code_simp
  have "mlines idle_driver = []" by (simp add: idle_facts GCodeBuffer_init_def lines_of_def)
  moreover have "\<forall>c \<in> set ?rs. response_readable c" using c by (auto simp: response_readable_def)
  ultimately obtain d' where "responses idle_driver ?rs = Some d'"
    using responses_total [OF reachable_inv [OF idle_reachable] idle_facts(3), of ?rs] by auto
  from responses_follow_protocol [OF idle_reachable idle_facts(3) this] this c show ?thesis by auto
qed

theorem resend_keeps_position_witness:
  "\<exists>d d0 d'. reachable d \<and> mlines d = [''G28'', ''G1 X2''] \<and> M_startPrint PRINTING d = Some (True, d0) \<and>
     responses d0 [''Resend: 1'', ''ok'', ''Resend: 2''] = Some d' \<and> mlines d' = [''G1 X2''] \<and>
     last (written (serial d')) = ''G1 X2\<newline>''"
proof -
  let ?rs = "[''Resend: 1'', ''ok'', ''Resend: 2'']"
  obtain d d0 where d: "reachable d" "isConnected d" "dstate d = BUFFERING" "mlines d = [''G28'', ''G1 X2'']"
    "\<forall>l \<in> set (mlines d). readable l" and d0: "M_startPrint PRINTING d = Some (True, d0)"
    "reachable d0" "isConnected d0" "mlines d0 = [''G28'', ''G1 X2'']" using started_driver by metis
  have c: "map classify ?rs = [R_resend, R_ok, R_resend]" by code_simp
  have rr: "\<forall>c \<in> set ?rs. response_readable c" using c by (auto simp: response_readable_def)
  have w: "wire ''G1 X2'' = ''G1 X2\<newline>''" by code_simp
  obtain d' where d': "responses d0 ?rs = Some d'"
    using responses_total [OF reachable_inv [OF d0(2)] d0(3), of ?rs] d(4,5) d0(4) rr by auto
  show ?thesis
    using resend_keeps_position [OF d(1,2) disjI2 [OF d(3)] _ d0(1) d'] d(1,4) c w d0(1) d'
    by (auto simp: oks_def)
qed

theorem printing_has_lines_witness:
  "\<exists>d. reachable d \<and> is_printing d \<and> bufferedLines (gcodeBuffer d) = 2"
proof -
  obtain d where "reachable d" "is_printing d" "mlines d = [''G28'', ''G1 X2'']" using started_driver by metis
  then show ?thesis using printing_has_lines [of d] by auto
qed

theorem second_start_repeats_line_witness:
  "\<exists>d b d'. reachable d \<and> is_printing d \<and> M_startPrint PRINTING d = Some (b, d') \<and>
     written (serial d') = [''G28\<newline>'', ''G28\<newline>'']"
proof -
  obtain d where d: "reachable d" "isConnected d" "is_printing d" "mlines d = [''G28'', ''G1 X2'']"
    "written (serial d) = [''G28\<newline>'']" using started_driver by metis
  have r: "\<forall>l \<in> set (mlines d). readable l" by (simp add: d(4) readable_plain)
  obtain b d' where d': "M_startPrint PRINTING d = Some (b, d')"
    using startPrint_total [OF reachable_inv [OF d(1)] r, of PRINTING] by auto
  have w: "wire ''G28'' = ''G28\<newline>''" by code_simp
  show ?thesis using second_start_repeats_line [OF d(1-3) d'] d d' w by auto
qed

lemma stop_total:
  assumes inv: "M_inv d" and len: "int (length code) \<le> MAX_BUFFER_SIZE"
    and x: "readable code" "\<forall>l \<in> set (gcode_lines (keepGpxMacroComments (gcodeBuffer d)) code). readable l"
  shows "M_stopPrintCode code d \<noteq> None"
proof -
  let ?r = "snd (AD_resetPrint d)"
  have okc: "gcb_ok (gcb_clear (gcodeBuffer ?r))" using gcb_clear_inv by (simp add: gcb_inv_def)
  have k: "keepGpxMacroComments (gcodeBuffer ?r) = keepGpxMacroComments (gcodeBuffer d)"
    by (simp add: AD_resetPrint_def setCurrentLine_def setState_def Let_def)
  obtain g where g: "gcb_append code (-1) None (gcb_clear (gcodeBuffer ?r)) = Some (GSR_OK, g)"
    using gcb_append_accepts [OF okc, of None code "-1"] len
    by (auto simp: append_sanity_def gcb_clear_def MetaData_init_def)
  have lg: "lines_of g = gcode_lines (keepGpxMacroComments (gcodeBuffer d)) code"
    using gt.app_ok [where m = "(-1, None)" and t = code, OF okc] g by (simp add: k)
  obtain d2 where d2: "extractGCodeInfo code (?r\<lparr>gcodeBuffer := g\<rparr>) = Some d2"
    using x(1) by (auto simp: readable_def)
  let ?d1 = "setState (buffered (dstate d2)) d2"
  have d1: "AD_setGCode code (-1) None ?r = Some (GSR_OK, ?d1)"
    by (simp add: AD_setGCode_def gcb_set_def g d2 Let_def)
  have pre: "M_pre ?r" and np: "\<not> is_printing ?r"
    using inv is_printing_online [of d]
    by (auto simp: M_inv_def M_pre_def AD_resetPrint_effect is_printing_def isPrinterOnline_def)
  have "mlines ?d1 = lines_of g" using extractGCodeInfo_frame [OF d2] by (auto simp: setState_def)
  then have "M_startPrint STOPPING ?d1 \<noteq> None"
    using startPrint_total [OF M_set_pre(1) [OF pre np d1]] x(2) lg by simp
  then show ?thesis
    by (simp add: M_stopPrintCode_def AD_stopPrintCode_def d1)
qed

theorem stop_replaces_print_witness:
  "\<exists>d b d'. reachable d \<and> is_printing d \<and> M_stopPrintCode ''M107\<newline>'' d = Some (b, d') \<and>
     mlines d' = gcode_lines (keepGpxMacroComments (gcodeBuffer d)) ''M107\<newline>''"
proof -
  obtain d where d: "reachable d" "isConnected d" "is_printing d" using started_driver by metis
  have l: "gcode_lines k ''M107\<newline>'' = [''M107'']" for k by (cases k) code_simp+
  obtain b d' where d': "M_stopPrintCode ''M107\<newline>'' d = Some (b, d')"
    using stop_total [OF reachable_inv [OF d(1)], of "''M107\<newline>''"]
    by (auto simp: l MAX_BUFFER_SIZE_def readable_plain)
  show ?thesis
    using stop_replaces_print [OF d(1,2) is_printing_online [OF d(3)] _ d'] d d' by (auto simp: MAX_BUFFER_SIZE_def)
qed

theorem update_timeout_witness:
  "M_update [RdData ''T:20\<newline>''] (at_second 1) opened_driver = Some (Go (200, idle_driver)) \<and> (0::int) \<le> 200"
  using update_timeout [OF _ idle_update] idle_update
  by (simp add: opened_driver_eq isConnected_def serial_isOpen_def idle_driver_def at_second_def)

theorem m109_without_temperature_witness:
  "\<exists>g. gcb_append (''G28\<newline>'' @ ''M109'') (-1) None (gcodeBuffer idle_driver) = Some (GSR_OK, g) \<and>
     AD_appendGCode (''G28\<newline>'' @ ''M109'') (-1) None idle_driver = None"
proof -
  obtain g where g: "gcb_append (''G28\<newline>'' @ ''M109'') (-1) None (gcodeBuffer idle_driver) = Some (GSR_OK, g)"
    using append_init_OK [of "''G28\<newline>'' @ ''M109''" "-1"] by (auto simp: idle_facts MAX_BUFFER_SIZE_def)
  then show ?thesis using m109_without_temperature [OF g] by blast
qed

theorem m109_sets_target_witness:
  "isConnected idle_driver \<and> (\<exists>d'. M_sendCode (''M109 S'' @ dec 210) idle_driver = Some d' \<and> targetTemperature d' = 210)"
  using m109_sets_target [OF idle_facts(3), of 210] idle_facts(3) by auto

end
