(* ===== verification/Factory.thy ===== *)
theory Factory
  imports Driver
begin

text \<open>
  The choice of a driver by the name of the printer's firmware,
  \<open>src/src/drivers/DriverFactory.cpp\<close>, with the \<open>getDriverInfo\<close> of the
  two drivers. \<open>creator\<close> is which constructor the function pointer stands for.
\<close>

datatype driver_class = MarlinClass | MakerbotClass

record DriverInfo =
  info_name :: string
  supportedFirmware :: "string list"
  creator :: driver_class

definition marlin_firmware :: "string list" where
  "marlin_firmware =
    [''rigidbot'', ''ultimaker'', ''ultimaker2'', ''ultimaker2go'', ''ultimaker_original_plus'',
     ''renkforce_rf100'', ''printrbot'', ''bukobot'', ''cartesio'', ''cyrus'', ''delta_rostockmax'',
     ''deltamaker'', ''eventorbot'', ''felix'', ''gigabot'', ''kossel'', ''leapfrog_creatr'',
     ''lulzbot_aO_101'', ''lulzbot_taz_4'', ''makergear_m2'', ''makergear_prusa'', ''makibox'',
     ''orca_0_3'', ''ord_bot_hadron'', ''printxel_3d'', ''prusa_i3'', ''prusa_iteration_2'', ''rapman'',
     ''reprappro_huxley'', ''reprappro_mendel'', ''robo_3d_printer'', ''shapercube'', ''tantillus'',
     ''minifactory'', ''vision_3d_printer'', ''builder3d'', ''bigbuilder3d'', ''mamba3d'',
     ''marlin_generic'', ''doodle_dream'', ''colido_2_0_plus'', ''colido_m2020'', ''colido_x3045'',
     ''colido_compact'', ''colido_diy'', ''craftbot_plus'']"

definition makerbot_firmware :: "string list" where
  "makerbot_firmware =
    [''_3Dison_plus'', ''makerbot_replicator2'', ''makerbot_replicator2x'', ''makerbot_thingomatic'',
     ''makerbot_generic'', ''wanhao_duplicator4'']"

definition marlin_info :: DriverInfo where
  "marlin_info = \<lparr>info_name = ''Marlin'', supportedFirmware = marlin_firmware, creator = MarlinClass\<rparr>"

definition makerbot_info :: DriverInfo where
  "makerbot_info = \<lparr>info_name = ''Makerbot'', supportedFirmware = makerbot_firmware, creator = MakerbotClass\<rparr>"

definition getDriverInfo :: "DriverInfo list" where
  "getDriverInfo = [marlin_info, makerbot_info]"

text \<open>The loops over the drivers and their firmware names; \<open>None\<close> is the null pointer.\<close>

fun find_firmware :: "string \<Rightarrow> driver_class \<Rightarrow> string list \<Rightarrow> driver_class option" where
  "find_firmware driverName c [] = None"
| "find_firmware driverName c (f # fs) = (if f = driverName then Some c else find_firmware driverName c fs)"

fun find_driver :: "string \<Rightarrow> DriverInfo list \<Rightarrow> driver_class option" where
  "find_driver driverName [] = None"
| "find_driver driverName (di # ds) =
     (case find_firmware driverName (creator di) (supportedFirmware di) of
        Some c \<Rightarrow> Some c
      | None \<Rightarrow> find_driver driverName ds)"

definition createDriver :: "string \<Rightarrow> driver_class option" where
  "createDriver driverName = find_driver driverName getDriverInfo"

lemma find_firmware_iff: "find_firmware n c fs = (if n \<in> set fs then Some c else None)"
  by (induction fs) auto

lemma firmware_disjoint: "set marlin_firmware \<inter> set makerbot_firmware = {}"
  by (simp add: marlin_firmware_def makerbot_firmware_def)

section \<open>Properties\<close>

text \<open>Every firmware name belongs to at most one driver and is listed once, and the factory
  creates that driver for it, whatever the order of the drivers; any other name gives none.\<close>

theorem createDriver_unique:
  "distinct (marlin_firmware @ makerbot_firmware) \<and>
   createDriver name = find_driver name (rev getDriverInfo) \<and>
   (createDriver name = Some MarlinClass \<longleftrightarrow> name \<in> set marlin_firmware) \<and>
   (createDriver name = Some MakerbotClass \<longleftrightarrow> name \<in> set makerbot_firmware)"
proof -
  have "distinct marlin_firmware" "distinct makerbot_firmware"
    by (simp_all add: marlin_firmware_def makerbot_firmware_def)
  then show ?thesis
    using firmware_disjoint
    by (auto simp: createDriver_def getDriverInfo_def marlin_info_def makerbot_info_def find_firmware_iff)
qed

end
