(* ===== verification/PrintServer.thy ===== *)
theory PrintServer
  imports IpcCodec IpcText Driver
begin

text \<open>
  The print server, \<open>src/src/server/Client.cpp\<close>, \<open>CommandHandler.cpp\<close> and
  \<open>Server.cpp\<close>: clients with their receive buffers and g-code transactions, one handler
  per command, the dispatch and the iteration of the main loop. The driver is reached through a
  record of operations (\<open>driver_ops\<close>, the virtual functions); the allocator, the files,
  the log level and what the sockets deliver are the environment. \<open>None\<close> is undefined
  behaviour or an uncaught exception, as everywhere.
\<close>

unbundle bit_operations_syntax

section \<open>State\<close>

text \<open>\<open>csent\<close> records the messages handed to \<open>send\<close>.\<close>

record Transaction =
  tbuffer :: string
  active :: bool
  cancelled :: bool

record Client =
  cfd :: int
  cbuffer :: bytes
  transaction :: Transaction
  csent :: "bytes list"

definition Client_init :: "int \<Rightarrow> Client" where
  "Client_init fd = \<lparr>cfd = fd, cbuffer = [], transaction = \<lparr>tbuffer = [], active = False, cancelled = False\<rparr>,
     csent = []\<rparr>"

record 'd driver_ops =
  op_append :: "string \<Rightarrow> int \<Rightarrow> MetaData option \<Rightarrow> 'd \<Rightarrow> (GCODE_SET_RESULT \<times> 'd) option"
  op_clear :: "'d \<Rightarrow> 'd"
  op_start :: "'d \<Rightarrow> (bool \<times> 'd) option"
  op_stop :: "string \<Rightarrow> 'd \<Rightarrow> (bool \<times> 'd) option"
  op_heatup :: "int \<Rightarrow> 'd \<Rightarrow> 'd option"
  op_update :: "read_ev list \<Rightarrow> 'd \<Rightarrow> (int \<times> 'd) outcome option"

record 'd env =
  alloc :: allocator
  bulk_log :: bool
  files :: "string \<Rightarrow> int + bytes"
  strerror :: "int \<Rightarrow> string"
  ops :: "'d driver_ops"

record 'd Server =
  clients :: "Client list"
  sdriver :: "'d option"
  socketFd :: int
  masterFds :: "int set"
  maxFd :: int

definition upd_client :: "nat \<Rightarrow> (Client \<Rightarrow> Client) \<Rightarrow> 'd Server \<Rightarrow> 'd Server" where
  "upd_client i f s = s\<lparr>clients := (clients s)[i := f (clients s ! i)]\<rparr>"

definition upd_trx :: "(Transaction \<Rightarrow> Transaction) \<Rightarrow> Client \<Rightarrow> Client" where
  "upd_trx f c = c\<lparr>transaction := f (transaction c)\<rparr>"

abbreviation trx_of :: "nat \<Rightarrow> 'd Server \<Rightarrow> Transaction" where
  "trx_of i s \<equiv> transaction (clients s ! i)"

section \<open>Replies\<close>

text \<open>At the log level for everything a command is turned into text first.\<close>

definition logIpcCmd :: "'d env \<Rightarrow> bytes \<Rightarrow> bool \<Rightarrow> unit option" where
  "logIpcCmd env buf is_reply =
     (if bulk_log env then map_option (\<lambda>_. ()) (ipc_stringify_cmd (alloc env) buf is_reply) else Some ())"

definition sendData :: "'d env \<Rightarrow> nat \<Rightarrow> bytes \<Rightarrow> 'd Server \<Rightarrow> 'd Server option" where
  "sendData env i cmd s =
     (if cfd (clients s ! i) = -1 then Some s
      else map_option (\<lambda>_. upd_client i (\<lambda>c. c\<lparr>csent := csent c @ [cmd]\<rparr>) s) (logIpcCmd env cmd True))"

definition sendReply :: "'d env \<Rightarrow> nat \<Rightarrow> IPC_COMMAND_CODE \<Rightarrow> string option \<Rightarrow> 'd Server \<Rightarrow> 'd Server option" where
  "sendReply env i code message s =
     (case (case message of
              Some m \<Rightarrow> ipc_construct_cmd (alloc env) code (Some ''x'') [VBlob m]
            | None \<Rightarrow> ipc_construct_cmd (alloc env) code (Some '''') []) of
        None \<Rightarrow> None
      | Some None \<Rightarrow> Some s
      | Some (Some cmd) \<Rightarrow> sendData env i cmd s)"

definition sendOk :: "'d env \<Rightarrow> nat \<Rightarrow> 'd Server \<Rightarrow> 'd Server option" where
  "sendOk env i s = sendReply env i IPC_CMDR_OK None s"

definition sendError :: "'d env \<Rightarrow> nat \<Rightarrow> string \<Rightarrow> 'd Server \<Rightarrow> 'd Server option" where
  "sendError env i message s = sendReply env i IPC_CMDR_ERROR (Some message) s"

text \<open>A handler that builds its reply itself does not check for a failed allocation: it then hands a
  null block of length 0 on, which has no code to look up when it is logged.\<close>

definition sendCmd :: "'d env \<Rightarrow> nat \<Rightarrow> string \<Rightarrow> ipc_val list \<Rightarrow> 'd Server \<Rightarrow> 'd Server option" where
  "sendCmd env i fmt vals s =
     (case ipc_construct_cmd (alloc env) IPC_CMDR_OK (Some fmt) vals of
        None \<Rightarrow> None
      | Some None \<Rightarrow> sendData env i [] s
      | Some (Some cmd) \<Rightarrow> sendData env i cmd s)"

section \<open>Transactions\<close>

definition cancelAllTransactions :: "nat \<Rightarrow> 'd Server \<Rightarrow> 'd Server" where
  "cancelAllTransactions exclude s =
     s\<lparr>clients := map (\<lambda>(i, c). if i = exclude then c else upd_trx (\<lambda>t. t\<lparr>cancelled := True\<rparr>) c)
         (enumerate 0 (clients s))\<rparr>"

section \<open>Handlers\<close>

text \<open>
  An argument the handler has initialised, and one it has not: there a failed accessor leaves a
  variable undefined or a null pointer that is then used.
\<close>

fun arg_or :: "(int + 'a) option \<Rightarrow> 'a \<Rightarrow> 'a option" where
  "arg_or None x = None"
| "arg_or (Some (Inl e)) x = Some x"
| "arg_or (Some (Inr v)) x = Some v"

fun arg_req :: "(int + 'a) option \<Rightarrow> 'a option" where
  "arg_req (Some (Inr v)) = Some v"
| "arg_req _ = None"

type_synonym 'd handler = "'d env \<Rightarrow> nat \<Rightarrow> bytes \<Rightarrow> 'd Server \<Rightarrow> 'd Server option"

definition hnd_test :: "'d handler" where
  "hnd_test env i buf s = do {
     argtext \<leftarrow> (if ipc_cmd_num_args buf > 0
                then map_option (\<lambda>a. ''printserver test answer to the question: '' @ [CHR 0x27] @ a @ [CHR 0x27])
                       (arg_req (ipc_cmd_get_string_arg (alloc env) buf 0))
                else Some ''printserver test answer without question'');
     sendCmd env i ''x'' [VBlob argtext] s
   }"

definition temperature_value :: "int \<Rightarrow> 'a AbstractDriver_scheme \<Rightarrow> int option" where
  "temperature_value which d =
     (if which = ipc_temp IPC_TEMP_HOTEND then Some (uint (temperature d))
      else if which = ipc_temp IPC_TEMP_HOTEND_TGT then Some (uint (targetTemperature d))
      else if which = ipc_temp IPC_TEMP_BED then Some (uint (bedTemperature d))
      else if which = ipc_temp IPC_TEMP_BED_TGT then Some (uint (targetBedTemperature d))
      else if which = ipc_temp IPC_TEMP_HEATING then Some (if heating d then 1 else 0)
      else None)"

definition hnd_getTemperature :: "'a AbstractDriver_scheme handler" where
  "hnd_getTemperature env i buf s =
     (if ipc_cmd_num_args buf > 0 then do {
        which \<leftarrow> arg_req (ipc_cmd_get_short_arg (alloc env) buf 0);
        if which \<in> {1, 2, 3, 4, 5} then do {
          d \<leftarrow> sdriver s;
          temp \<leftarrow> temperature_value which d;
          sendCmd env i ''w'' [VInt temp] s
        } else sendError env i ''unknown temperature parameter value'' s
      } else sendError env i ''missing argument'' s)"

definition hnd_gcodeClear :: "'d handler" where
  "hnd_gcodeClear env i buf s = do {
     let s1 = cancelAllTransactions i s;
     d \<leftarrow> sdriver s1;
     sendOk env i (s1\<lparr>sdriver := Some (op_clear (ops env) d)\<rparr>)
   }"

text \<open>The first part of \<open>hnd_gcodeAppend\<close>: the arguments behind the text.\<close>

definition append_metadata :: "'d env \<Rightarrow> bytes \<Rightarrow> int \<Rightarrow> (int \<times> MetaData) option" where
  "append_metadata env buf numArgs = do {
     totalLines \<leftarrow> (if numArgs \<ge> 3 then arg_or (ipc_cmd_get_long_arg (alloc env) buf 2) (-1) else Some (-1));
     num \<leftarrow> (if numArgs \<ge> 4 then arg_or (ipc_cmd_get_long_arg (alloc env) buf 3) (-1) else Some (-1));
     ttl \<leftarrow> (if numArgs \<ge> 5 then arg_or (ipc_cmd_get_long_arg (alloc env) buf 4) (-1) else Some (-1));
     src \<leftarrow> (if numArgs \<ge> 6 then map_option Some (arg_req (ipc_cmd_get_string_arg (alloc env) buf 5))
             else Some None);
     Some (totalLines, \<lparr>seqNumber = num, seqTotal = ttl, source = src\<rparr>)
   }"

definition has_bit :: "int \<Rightarrow> 16 word \<Rightarrow> bool" where
  "has_bit flags m \<longleftrightarrow> word_of_int flags AND m \<noteq> 0"

text \<open>A cancelled transaction is reported, but the handler goes on.\<close>

definition hnd_gcodeAppend :: "'d handler" where
  "hnd_gcodeAppend env i buf s =
     (let numArgs = ipc_cmd_num_args buf
      in if numArgs = 0 then sendError env i ''missing argument'' s
         else do {
           s1 \<leftarrow> (if cancelled (trx_of i s)
                  then sendReply env i IPC_CMDR_TRX_CANCELLED (Some ''transaction cancelled'') s else Some s);
           flags \<leftarrow> (if numArgs \<ge> 2 then arg_or (ipc_cmd_get_short_arg (alloc env) buf 1) 3 else Some 3);
           let s2 = (if has_bit flags TRX_FIRST_CHUNK_BIT then upd_client i (upd_trx (\<lambda>t. t\<lparr>tbuffer := [], active := True\<rparr>)) s1 else s1);
           (totalLines, metaData) \<leftarrow> append_metadata env buf numArgs;
           data \<leftarrow> arg_req (ipc_cmd_get_string_arg (alloc env) buf 0);
           let s3 = upd_client i (upd_trx (\<lambda>t. t\<lparr>tbuffer := tbuffer t @ data\<rparr>)) s2;
           if has_bit flags TRX_LAST_CHUNK_BIT then do {
             d \<leftarrow> sdriver s3;
             (gsr, d1) \<leftarrow> op_append (ops env) (tbuffer (trx_of i s3)) totalLines (Some metaData) d;
             let s4 = upd_client i (upd_trx (\<lambda>t. t\<lparr>tbuffer := [], active := False\<rparr>)) (s3\<lparr>sdriver := Some d1\<rparr>);
             if gsr \<noteq> GSR_OK then sendReply env i IPC_CMDR_GCODE_ADD_FAILED (Some (getGcodeSetResultString gsr)) s4
             else sendOk env i s4
           } else sendOk env i s3
         })"

text \<open>
  Without an argument the error is sent, but the handler goes on and opens the file with a null
  pointer as its name. The result of appending is not looked at.
\<close>

definition hnd_gcodeAppendFile :: "'d handler" where
  "hnd_gcodeAppendFile env i buf s = do {
     s1 \<leftarrow> (if ipc_cmd_num_args buf = 0 then sendError env i ''missing argument'' s else Some s);
     if active (trx_of i s1) then sendReply env i IPC_CMDR_RETRY_LATER (Some ''transaction in progress'') s1
     else do {
       filename \<leftarrow> arg_req (ipc_cmd_get_string_arg (alloc env) buf 0);
       case readFileContents (files env) filename of
         Inl e \<Rightarrow> sendError env i (if e > 0 then strerror env e else ''error reading file'') s1
       | Inr data \<Rightarrow> do {
           d \<leftarrow> sdriver s1;
           (gsr, d1) \<leftarrow> op_append (ops env) (cstr data) (-1) None d;
           sendOk env i (s1\<lparr>sdriver := Some d1\<rparr>)
         }
     }
   }"

definition hnd_gcodeStartPrint :: "'d handler" where
  "hnd_gcodeStartPrint env i buf s = do {
     d \<leftarrow> sdriver s;
     (ok, d1) \<leftarrow> op_start (ops env) d;
     sendOk env i (s\<lparr>sdriver := Some d1\<rparr>)
   }"

definition hnd_gcodeStopPrint :: "'d handler" where
  "hnd_gcodeStopPrint env i buf s = do {
     let s1 = cancelAllTransactions i s;
     endCode \<leftarrow> (if ipc_cmd_num_args buf > 0 then arg_req (ipc_cmd_get_string_arg (alloc env) buf 0) else Some []);
     d \<leftarrow> sdriver s1;
     (ok, d1) \<leftarrow> op_stop (ops env) endCode d;
     sendOk env i (s1\<lparr>sdriver := Some d1\<rparr>)
   }"

definition hnd_heatup :: "'d handler" where
  "hnd_heatup env i buf s =
     (if ipc_cmd_num_args buf > 0 then do {
        temp \<leftarrow> arg_or (ipc_cmd_get_short_arg (alloc env) buf 0) 0;
        d \<leftarrow> sdriver s;
        d1 \<leftarrow> op_heatup (ops env) temp d;
        sendOk env i (s\<lparr>sdriver := Some d1\<rparr>)
      } else sendError env i ''missing argument'' s)"

definition hnd_getProgress :: "'a AbstractDriver_scheme handler" where
  "hnd_getProgress env i buf s = do {
     d \<leftarrow> sdriver s;
     let g = gcodeBuffer d;
     sendCmd env i ''WWWWWWW'' (map VInt [currentLine g, bufferedLines g, getTotalLines g, bufferSize g,
       getMaxBufferSize, seqNumber (md g), seqTotal (md g)]) s
   }"

definition hnd_getState :: "'a AbstractDriver_scheme handler" where
  "hnd_getState env i buf s = do {
     d \<leftarrow> sdriver s;
     sendCmd env i ''x'' [VBlob (getStateString (dstate d))] s
   }"

section \<open>Dispatch\<close>

definition HANDLERS :: "(IPC_COMMAND_CODE \<times> 'a AbstractDriver_scheme handler) list" where
  "HANDLERS =
    [(IPC_CMDQ_TEST, hnd_test), (IPC_CMDQ_GET_TEMPERATURE, hnd_getTemperature),
     (IPC_CMDQ_GCODE_CLEAR, hnd_gcodeClear), (IPC_CMDQ_GCODE_APPEND, hnd_gcodeAppend),
     (IPC_CMDQ_GCODE_APPEND_FILE, hnd_gcodeAppendFile), (IPC_CMDQ_GCODE_STARTPRINT, hnd_gcodeStartPrint),
     (IPC_CMDQ_GCODE_STOPPRINT, hnd_gcodeStopPrint), (IPC_CMDQ_HEATUP, hnd_heatup),
     (IPC_CMDQ_GET_PROGRESS, hnd_getProgress), (IPC_CMDQ_GET_STATE, hnd_getState)]"

text \<open>The loop over the table: every entry with the code of the command is called.\<close>

definition runCommand :: "'a AbstractDriver_scheme handler" where
  "runCommand env i buf s = do {
     logIpcCmd env buf False;
     fold_option (\<lambda>s (code, h). if ipc_code code = ipc_cmd_get buf then h env i buf s else Some s) s HANDLERS
   }"

partial_function (option) runCommands ::
  "'a AbstractDriver_scheme env \<Rightarrow> nat \<Rightarrow> 'a AbstractDriver_scheme Server \<Rightarrow> 'a AbstractDriver_scheme Server option" where
  "runCommands env i s =
     (if ipc_cmd_is_complete (cbuffer (clients s ! i)) = 0 then Some s
      else Option.bind (runCommand env i (cbuffer (clients s ! i)) s) (\<lambda>s1.
        runCommands env i
          (upd_client i (\<lambda>c. c\<lparr>cbuffer := snd (ipc_cmd_remove (alloc env) (cbuffer c))\<rparr>) s1)))"

definition client_readData :: "read_ev list \<Rightarrow> Client \<Rightarrow> int \<times> Client" where
  "client_readData es c =
     (let (rv, buf, e, es') = readAndAppendAvailableData es (cbuffer c) 0 True in (rv, c\<lparr>cbuffer := buf\<rparr>))"

section \<open>The main loop\<close>

text \<open>
  A new connection. A failed \<open>accept\<close> gives -1, which is put into a set of descriptors; a set
  has room for \<open>FD_SETSIZE\<close> of them.
\<close>

definition FD_SETSIZE :: int where "FD_SETSIZE = 1024"

definition accept_client :: "int option \<Rightarrow> 'd Server \<Rightarrow> 'd Server option" where
  "accept_client connFd s =
     (case connFd of
        None \<Rightarrow> Some s
      | Some fd \<Rightarrow>
          if fd < 0 \<or> FD_SETSIZE \<le> fd then None
          else Some (s\<lparr>clients := clients s @ [Client_init fd], maxFd := max fd (maxFd s),
                        masterFds := insert fd (masterFds s)\<rparr>))"

text \<open>The loop over the clients: \<open>n\<close> are left, the next is number \<open>i\<close>.\<close>

fun clients_loop ::
  "'a AbstractDriver_scheme env \<Rightarrow> (int \<Rightarrow> read_ev list) \<Rightarrow> nat \<Rightarrow> nat \<Rightarrow> 'a AbstractDriver_scheme Server \<Rightarrow>
     'a AbstractDriver_scheme Server option" where
  "clients_loop env reads 0 i s = Some s"
| "clients_loop env reads (Suc n) i s =
     (let (rv, c) = client_readData (reads (cfd (clients s ! i))) (clients s ! i);
          s1 = s\<lparr>clients := (clients s)[i := c]\<rparr>
      in case (if rv \<ge> 0 \<or> rv = -2 \<and> 0 < length (cbuffer c) then runCommands env i s1 else Some s1) of
           None \<Rightarrow> None
         | Some s2 \<Rightarrow>
             if rv = -2
             then clients_loop env reads n i
                    (s2\<lparr>masterFds := masterFds s2 - {cfd c},
                        clients := take i (clients s2) @ drop (i + 1) (clients s2)\<rparr>)
             else clients_loop env reads n (i + 1) s2)"

text \<open>
  One iteration behind \<open>select\<close>. The result has the timeout of the next one:
  \<open>None\<close> waits for ever.
\<close>

definition server_iteration ::
  "'a AbstractDriver_scheme env \<Rightarrow> int option \<Rightarrow> (int \<Rightarrow> read_ev list) \<Rightarrow> read_ev list \<Rightarrow>
     'a AbstractDriver_scheme Server \<Rightarrow> (timeval option \<times> 'a AbstractDriver_scheme Server) outcome option" where
  "server_iteration env connFd reads serial_reads s =
     Option.bind (accept_client connFd s) (\<lambda>s1.
     Option.bind (clients_loop env reads (length (clients s1)) 0 s1) (\<lambda>s2.
       case sdriver s2 of
         None \<Rightarrow> Some (Go (None, s2))
       | Some d \<Rightarrow> map_option (\<lambda>r. case r of
             Exit rv \<Rightarrow> Exit rv
           | Go (newTimeout, d1) \<Rightarrow>
               Go (if newTimeout \<ge> 0
                   then Some \<lparr>tv_sec = newTimeout div 1000, tv_usec = (newTimeout mod 1000) * 1000\<rparr> else None,
                   s2\<lparr>sdriver := Some d1\<rparr>))
           (op_update (ops env) serial_reads d)))"

text \<open>The state before the first iteration.\<close>

definition server_start :: "int \<Rightarrow> 'd option \<Rightarrow> 'd Server" where
  "server_start fd d = \<lparr>clients = [], sdriver = d, socketFd = fd, masterFds = {fd}, maxFd = fd\<rparr>"

text \<open>What \<open>select\<close> watches: the descriptors up to \<open>maxFd\<close> of both sets.\<close>

definition watched :: "'a AbstractDriver_scheme Server \<Rightarrow> int set" where
  "watched s = {fd \<in> masterFds s \<union> (case sdriver s of None \<Rightarrow> {} | Some d \<Rightarrow> registeredFds d). fd < maxFd s + 1}"

end
