(* ===== verification/ServerRun.thy ===== *)
theory ServerRun
  imports PrintServer
begin

text \<open>
  How the server treats the byte streams of its clients: handlers depend on their command only,
  so commands are handled once each and in order however the bytes arrive; what a transaction of
  several pieces does; which descriptors are watched; and the interface \<open>driver_contract\<close>
  under which no command and no iteration breaks the invariant of the driver.
\<close>

section \<open>Accessors do not look behind their command\<close>

lemma get_arg_spec:
  assumes "wf_cmd c as"
  shows "ipc_cmd_get_arg al (encode c as @ r) i z =
    Some (if length as \<le> i then Inl (-2)
          else if \<not> al (length (as ! i) + (if z then 1 else 0)) then Inl (-1)
          else Inr (as ! i @ (if z then [NUL] else [])))"
proof (cases "length as \<le> i \<or> al (length (as ! i) + (if z then 1 else 0))")
  case True
  then show ?thesis
    using get_arg_encode [OF assms, of i al z r] get_arg_missing [of as i al c r z] assms
    by (auto simp: wf_cmd_def)
next
  case False
  then have i: "i < length as" by simp
  have w: "arg_walk (encode_args as @ r) i = Some (encode_args (drop i as) @ r)"
    using assms i by (intro arg_walk_encode) (auto simp: wf_cmd_def)
  have d: "drop i as = as ! i # drop (Suc i) as" using i by (simp add: Cons_nth_drop_Suc)
  have l: "length (as ! i) < 4294967296" "length as < 65536"
    using assms i by (auto simp: wf_cmd_def)
  show ?thesis
    unfolding ipc_cmd_get_arg_def drop2_encode drop4_encode read_store_ns
    using l i False by (simp add: w d Let_def)
qed

lemma accessors_tail:
  assumes "wf_cmd c as"
  shows "ipc_cmd_get_arg al (encode c as @ r) i z = ipc_cmd_get_arg al (encode c as) i z"
    "ipc_cmd_get_short_arg al (encode c as @ r) i = ipc_cmd_get_short_arg al (encode c as) i"
    "ipc_cmd_get_long_arg al (encode c as @ r) i = ipc_cmd_get_long_arg al (encode c as) i"
    "ipc_cmd_get_string_arg al (encode c as @ r) i = ipc_cmd_get_string_arg al (encode c as) i"
    "ipc_cmd_num_args (encode c as @ r) = ipc_cmd_num_args (encode c as)"
    "ipc_cmd_get (encode c as @ r) = ipc_cmd_get (encode c as)"
proof -
  have g: "ipc_cmd_get_arg al (encode c as @ r) i z = ipc_cmd_get_arg al (encode c as) i z" for i z
    using get_arg_spec [OF assms, of al r i z] get_arg_spec [OF assms, of al "[]" i z] by simp
  show "ipc_cmd_get_arg al (encode c as @ r) i z = ipc_cmd_get_arg al (encode c as) i z" by (rule g)
  show "ipc_cmd_get_short_arg al (encode c as @ r) i = ipc_cmd_get_short_arg al (encode c as) i"
    "ipc_cmd_get_long_arg al (encode c as @ r) i = ipc_cmd_get_long_arg al (encode c as) i"
    "ipc_cmd_get_string_arg al (encode c as @ r) i = ipc_cmd_get_string_arg al (encode c as) i"
    by (simp_all add: ipc_cmd_get_short_arg_def ipc_cmd_get_long_arg_def ipc_cmd_get_string_arg_def g)
  show "ipc_cmd_num_args (encode c as @ r) = ipc_cmd_num_args (encode c as)"
    "ipc_cmd_get (encode c as @ r) = ipc_cmd_get (encode c as)"
    using assms ipc_cmd_num_args_encode [of as c r] ipc_cmd_num_args_encode [of as c "[]"]
      ipc_cmd_get_encode [of c as r] ipc_cmd_get_encode [of c as "[]"]
    by (simp_all add: wf_cmd_def)
qed

lemmas handler_defs = hnd_test_def hnd_getTemperature_def hnd_gcodeClear_def hnd_gcodeAppend_def
  hnd_gcodeAppendFile_def hnd_gcodeStartPrint_def hnd_gcodeStopPrint_def hnd_heatup_def
  hnd_getProgress_def hnd_getState_def

lemma runCommand_tail:
  assumes "is_cmd f" "\<not> bulk_log env"
  shows "runCommand env i (f @ r) s = runCommand env i f s"
proof -
  obtain c as where w: "wf_cmd c as" "f = encode c as" using assms(1) by (auto simp: is_cmd_def)
  note tail = accessors_tail [OF w(1), folded w(2)]
  show ?thesis
    by (simp only: runCommand_def logIpcCmd_def assms(2) HANDLERS_def handler_defs append_metadata_def tail
        fold_option.simps prod.case if_False)
qed

section \<open>Handlers leave receive buffers alone\<close>

lemma upd_client_beyond: "\<not> i < length (clients s) \<Longrightarrow> upd_client i f s = s"
  by (simp add: upd_client_def list_update_beyond)

lemma upd_client_twice: "upd_client i f (upd_client i g s) = upd_client i (\<lambda>c. f (g c)) s"
  by (cases "i < length (clients s)") (simp_all add: upd_client_def list_update_beyond)

lemma nth_upd_client: "i < length (clients s) \<Longrightarrow> clients (upd_client i f s) ! i = f (clients s ! i)"
  by (simp add: upd_client_def)

definition set_buf :: "nat \<Rightarrow> bytes \<Rightarrow> 'd Server \<Rightarrow> 'd Server" where
  "set_buf i b = upd_client i (\<lambda>c. c\<lparr>cbuffer := b\<rparr>)"

lemma set_buf_read [simp]:
  "transaction (clients (set_buf i b s) ! i) = transaction (clients s ! i)"
  "cfd (clients (set_buf i b s) ! i) = cfd (clients s ! i)"
  "sdriver (set_buf i b s) = sdriver s"
  unfolding set_buf_def
  by (cases "i < length (clients s)"; simp add: nth_upd_client upd_client_beyond)+
    (simp add: upd_client_def)

lemma set_buf_trx:
  "upd_client i (upd_trx f) (set_buf i b s) = set_buf i b (upd_client i (upd_trx f) s)"
  unfolding set_buf_def upd_client_twice upd_trx_def
  by (rule arg_cong [of _ _ "\<lambda>f. upd_client i f s"]) (rule ext, simp)

lemma set_buf_sent:
  "upd_client i (\<lambda>c. c\<lparr>csent := csent c @ m\<rparr>) (set_buf i b s) =
     set_buf i b (upd_client i (\<lambda>c. c\<lparr>csent := csent c @ m\<rparr>) s)"
  unfolding set_buf_def upd_client_twice
  by (rule arg_cong [of _ _ "\<lambda>f. upd_client i f s"]) (rule ext, simp)

lemma set_buf_sdriver: "(set_buf i b s)\<lparr>sdriver := d\<rparr> = set_buf i b (s\<lparr>sdriver := d\<rparr>)"
  by (simp add: set_buf_def upd_client_def)

lemma cancelAll_nth: "i < length (clients s) \<Longrightarrow> clients (cancelAllTransactions e s) ! i =
  (if i = e then clients s ! i else upd_trx (\<lambda>t. t\<lparr>cancelled := True\<rparr>) (clients s ! i))"
  by (simp add: cancelAllTransactions_def nth_enumerate_eq)

lemma length_cancelAll [simp]: "length (clients (cancelAllTransactions e s)) = length (clients s)"
  by (simp add: cancelAllTransactions_def)

lemma set_buf_cancelAll:
  "cancelAllTransactions i (set_buf i b s) = set_buf i b (cancelAllTransactions i s)"
proof -
  have "clients (cancelAllTransactions i (set_buf i b s)) = clients (set_buf i b (cancelAllTransactions i s))"
  proof (rule nth_equalityI)
    fix j assume "j < length (clients (cancelAllTransactions i (set_buf i b s)))"
    then have "j < length (clients s)" by (simp add: set_buf_def upd_client_def)
    then show "clients (cancelAllTransactions i (set_buf i b s)) ! j =
        clients (set_buf i b (cancelAllTransactions i s)) ! j"
      by (cases "j = i") (simp_all add: set_buf_def upd_client_def cancelAll_nth)
  qed (simp add: set_buf_def upd_client_def)
  then show ?thesis by (simp add: set_buf_def upd_client_def cancelAllTransactions_def)
qed

lemmas set_buf_comm = set_buf_trx set_buf_sent set_buf_sdriver set_buf_cancelAll

lemma sendData_set_buf: "sendData env i m (set_buf i b s) = map_option (set_buf i b) (sendData env i m s)"
  by (simp add: sendData_def set_buf_comm option.map_comp comp_def)

lemma sendReply_set_buf:
  "sendReply env i c m (set_buf i b s) = map_option (set_buf i b) (sendReply env i c m s)"
  by (simp add: sendReply_def sendData_set_buf split: option.splits)

lemma sendCmd_set_buf: "sendCmd env i f v (set_buf i b s) = map_option (set_buf i b) (sendCmd env i f v s)"
  by (simp add: sendCmd_def sendData_set_buf split: option.splits)

lemmas send_set_buf = sendReply_set_buf sendCmd_set_buf
  sendReply_set_buf [of env i IPC_CMDR_OK None, folded sendOk_def] for env i

lemma sendError_set_buf:
  "sendError env i m (set_buf i b s) = map_option (set_buf i b) (sendError env i m s)"
  by (simp add: sendError_def send_set_buf)

lemma if_set_buf: "(if P then set_buf i b x else set_buf i b y) = set_buf i b (if P then x else y)"
  by simp

lemmas handler_simps = send_set_buf sendError_set_buf set_buf_comm if_set_buf map_option_bind bind_map_option comp_def
  Let_def prod.case_distrib [of "map_option (set_buf i b)" for i b]

lemma handler_set_buf:
  "hnd_test env i f (set_buf i b s) = map_option (set_buf i b) (hnd_test env i f s)"
  "hnd_getTemperature env i f (set_buf i b s) = map_option (set_buf i b) (hnd_getTemperature env i f s)"
  "hnd_gcodeClear env i f (set_buf i b s) = map_option (set_buf i b) (hnd_gcodeClear env i f s)"
  "hnd_gcodeAppend env i f (set_buf i b s) = map_option (set_buf i b) (hnd_gcodeAppend env i f s)"
  "hnd_gcodeAppendFile env i f (set_buf i b s) = map_option (set_buf i b) (hnd_gcodeAppendFile env i f s)"
  "hnd_gcodeStartPrint env i f (set_buf i b s) = map_option (set_buf i b) (hnd_gcodeStartPrint env i f s)"
  "hnd_gcodeStopPrint env i f (set_buf i b s) = map_option (set_buf i b) (hnd_gcodeStopPrint env i f s)"
  "hnd_heatup env i f (set_buf i b s) = map_option (set_buf i b) (hnd_heatup env i f s)"
  "hnd_getProgress env i f (set_buf i b s) = map_option (set_buf i b) (hnd_getProgress env i f s)"
  "hnd_getState env i f (set_buf i b s) = map_option (set_buf i b) (hnd_getState env i f s)"
  by (simp_all add: handler_defs handler_simps if_distrib [of "map_option (set_buf i b)"]
        sum.case_distrib [of "map_option (set_buf i b)"] cong: if_cong sum.case_cong)

text \<open>The driver's own methods are the same in all of them: a command changes no receive buffer.\<close>

lemma runCommand_set_buf:
  assumes "\<not> bulk_log env"
  shows "runCommand env i f (set_buf i b s) = map_option (set_buf i b) (runCommand env i f s)"
proof -
  have fold: "fold_option g (set_buf i b s) hs = map_option (set_buf i b) (fold_option g s hs)"
    if "\<And>h s. h \<in> set hs \<Longrightarrow> g (set_buf i b s) h = map_option (set_buf i b) (g s h)" for g hs
    using that
  proof (induction hs arbitrary: s)
    case (Cons h hs)
    then show ?case by (cases "g s h") auto
  qed simp
  show ?thesis
    unfolding runCommand_def
    by (simp add: logIpcCmd_def assms, rule fold) (auto simp: HANDLERS_def handler_set_buf)
qed

lemma is_complete_bounds:
  assumes "ipc_cmd_is_complete b \<noteq> 0"
  shows "4 \<le> ipc_cmd_is_complete b" "b \<noteq> []"
proof -
  have off: "complete_args n p off = 0 \<or> off \<le> complete_args n p off" for n p off
  proof (induction n arbitrary: p off)
    case (Suc n)
    then show ?case
      by (auto split: option.split) (meson Suc.IH add_leD1 order_trans not_gr_zero)
  qed simp
  show "4 \<le> ipc_cmd_is_complete b"
    using assms off by (auto simp: ipc_cmd_is_complete_def split: if_splits option.splits) (metis not_gr_zero)
  show "b \<noteq> []" using assms by (auto simp: ipc_cmd_is_complete_def)
qed

section \<open>What a command can change\<close>

text \<open>The calls of driver methods a handler makes.\<close>

inductive driver_call :: "'d driver_ops \<Rightarrow> 'd \<Rightarrow> 'd \<Rightarrow> bool" for dops where
  call_append: "op_append dops t n m d = Some (gsr, d') \<Longrightarrow> driver_call dops d d'"
| call_clear: "driver_call dops d (op_clear dops d)"
| call_start: "op_start dops d = Some (ok, d') \<Longrightarrow> driver_call dops d d'"
| call_stop: "op_stop dops t d = Some (ok, d') \<Longrightarrow> driver_call dops d d'"
| call_heatup: "op_heatup dops n d = Some d' \<Longrightarrow> driver_call dops d d'"

text \<open>
  A property of the server state that survives the elementary changes survives every command and
  every run of commands.
\<close>

locale command_invariant =
  fixes env :: "'a AbstractDriver_scheme env"
    and P :: "'a AbstractDriver_scheme Server \<Rightarrow> bool"
  assumes P_trx: "P s \<Longrightarrow> P (upd_client i (upd_trx f) s)"
    and P_sent: "P s \<Longrightarrow> P (upd_client i (\<lambda>c. c\<lparr>csent := csent c @ m\<rparr>) s)"
    and P_cancel: "P s \<Longrightarrow> P (cancelAllTransactions i s)"
    and P_buf: "P s \<Longrightarrow> P (upd_client i (\<lambda>c. c\<lparr>cbuffer := g (cbuffer c)\<rparr>) s)"
    and P_driver: "P s \<Longrightarrow> sdriver s = Some d \<Longrightarrow> driver_call (ops env) d d' \<Longrightarrow> P (s\<lparr>sdriver := Some d'\<rparr>)"
begin

lemma send_keeps:
  "sendData env i m s = Some s' \<Longrightarrow> P s \<Longrightarrow> P s'"
  "sendReply env i c t s = Some s' \<Longrightarrow> P s \<Longrightarrow> P s'"
  "sendCmd env i fm v s = Some s' \<Longrightarrow> P s \<Longrightarrow> P s'"
proof -
  show d: "sendData env i m s = Some s' \<Longrightarrow> P s \<Longrightarrow> P s'" for m s s'
    using P_sent by (auto simp: sendData_def split: if_splits)
  show "sendReply env i c t s = Some s' \<Longrightarrow> P s \<Longrightarrow> P s'"
    by (auto simp: sendReply_def split: option.splits intro: d)
  show "sendCmd env i fm v s = Some s' \<Longrightarrow> P s \<Longrightarrow> P s'"
    by (auto simp: sendCmd_def split: option.splits intro: d)
qed

lemma reply_keeps:
  "sendOk env i s = Some s' \<Longrightarrow> P s \<Longrightarrow> P s'"
  "sendError env i t s = Some s' \<Longrightarrow> P s \<Longrightarrow> P s'"
  by (simp_all add: sendOk_def sendError_def send_keeps)

lemmas keeps = send_keeps reply_keeps P_trx P_cancel P_driver

lemma handler_keeps:
  assumes "P s"
  shows "hnd_test env i f s = Some s' \<Longrightarrow> P s'"
    "hnd_getTemperature env i f s = Some s' \<Longrightarrow> P s'"
    "hnd_gcodeClear env i f s = Some s' \<Longrightarrow> P s'"
    "hnd_gcodeStartPrint env i f s = Some s' \<Longrightarrow> P s'"
    "hnd_gcodeStopPrint env i f s = Some s' \<Longrightarrow> P s'"
    "hnd_heatup env i f s = Some s' \<Longrightarrow> P s'"
    "hnd_getProgress env i f s = Some s' \<Longrightarrow> P s'"
    "hnd_getState env i f s = Some s' \<Longrightarrow> P s'"
  using assms
  by (auto simp: handler_defs bind_eq_Some_conv Let_def split: if_splits
      elim!: keeps(1-5) intro!: P_trx P_cancel intro: P_driver driver_call.intros)

lemma gcodeAppendFile_keeps:
  assumes "P s" "hnd_gcodeAppendFile env i f s = Some s'"
  shows "P s'"
proof -
  obtain s1 where s1: "(if ipc_cmd_num_args f = 0 then sendError env i ''missing argument'' s else Some s) = Some s1"
    using assms(2) by (auto simp: hnd_gcodeAppendFile_def bind_eq_Some_conv)
  have "P s1" using s1 assms(1) by (auto split: if_splits elim: keeps)
  then show ?thesis using assms(2) s1
    by (auto simp: hnd_gcodeAppendFile_def bind_eq_Some_conv split: if_splits sum.split_asm
        elim!: keeps(1-5) intro: P_driver driver_call.intros)
qed

lemma gcodeAppend_keeps:
  assumes "P s" "hnd_gcodeAppend env i f s = Some s'"
  shows "P s'"
  using assms
  by (auto simp: hnd_gcodeAppend_def bind_eq_Some_conv Let_def split: if_splits prod.splits
      elim!: keeps(1-5) intro!: P_trx intro: P_driver driver_call.intros)

lemma runCommand_keeps:
  assumes "P s" "runCommand env i f s = Some s'"
  shows "P s'"
proof -
  have fold: "fold_option g s hs = Some s' \<Longrightarrow> P s'"
    if "\<And>h s s'. h \<in> set hs \<Longrightarrow> P s \<Longrightarrow> g s h = Some s' \<Longrightarrow> P s'" "P s" for g s s' and hs :: "'h list"
    using that
  proof (induction hs arbitrary: s)
    case (Cons h hs)
    then obtain s1 where s1: "g s h = Some s1" "fold_option g s1 hs = Some s'" by (auto simp: bind_eq_Some_conv)
    show ?case by (rule Cons.IH [OF s1(2)]) (use Cons.prems s1(1) in auto)
  qed simp
  let ?g = "\<lambda>s (code, h). if ipc_code code = ipc_cmd_get f then h env i f s else Some s"
  have "fold_option ?g s HANDLERS = Some s'"
    using assms(2) by (auto simp: runCommand_def bind_eq_Some_conv)
  then show ?thesis
    by (rule fold [rotated 2])
      (auto simp: HANDLERS_def assms(1) split: if_splits intro: handler_keeps gcodeAppendFile_keeps gcodeAppend_keeps)
qed

lemma runCommands_keeps:
  assumes "runCommands env i s = Some s'" "P s"
  shows "P s'"
proof -
  have "e = env \<longrightarrow> P s \<longrightarrow> P s'" if "runCommands e i s = Some s'" for e
  proof (rule runCommands.raw_induct [OF _ that, where P = "\<lambda>e i s s'. e = env \<longrightarrow> P s \<longrightarrow> P s'"])
    fix rc e i s s'
    assume IH: "\<And>e i s s'. rc e i s = Some s' \<Longrightarrow> e = env \<longrightarrow> P s \<longrightarrow> P s'"
      and body: "(if ipc_cmd_is_complete (cbuffer (clients s ! i)) = 0 then Some s
        else Option.bind (runCommand e i (cbuffer (clients s ! i)) s) (\<lambda>s1. rc e i
          (upd_client i (\<lambda>c. c\<lparr>cbuffer := snd (ipc_cmd_remove (alloc e) (cbuffer c))\<rparr>) s1))) = Some s'"
    show "e = env \<longrightarrow> P s \<longrightarrow> P s'"
    proof (intro impI)
      assume e: "e = env" and "P s"
      show "P s'"
      proof (cases "ipc_cmd_is_complete (cbuffer (clients s ! i)) = 0")
        case True
        with body \<open>P s\<close> show ?thesis by simp
      next
        case False
        with body have "Option.bind (runCommand e i (cbuffer (clients s ! i)) s) (\<lambda>s1. rc e i
            (upd_client i (\<lambda>c. c\<lparr>cbuffer := snd (ipc_cmd_remove (alloc e) (cbuffer c))\<rparr>) s1)) = Some s'"
          by (simp only: if_False)
        then obtain s1 where s1: "runCommand e i (cbuffer (clients s ! i)) s = Some s1"
          and r: "rc e i (upd_client i (\<lambda>c. c\<lparr>cbuffer := snd (ipc_cmd_remove (alloc e) (cbuffer c))\<rparr>) s1) = Some s'"
          unfolding bind_eq_Some_conv by blast
        have "P s1" using s1 \<open>P s\<close> e runCommand_keeps by blast
        from P_buf [OF this, of i "\<lambda>b. snd (ipc_cmd_remove (alloc e) b)"] IH [OF r] e
        show ?thesis by simp
      qed
    qed
  qed
  with assms show ?thesis by blast
qed

end

text \<open>The clients and the descriptors stay as they are.\<close>

definition fds_frame :: "'d Server \<Rightarrow> 'd Server \<Rightarrow> bool" where
  "fds_frame s0 s \<longleftrightarrow> map cfd (clients s) = map cfd (clients s0) \<and> socketFd s = socketFd s0 \<and>
     masterFds s = masterFds s0 \<and> maxFd s = maxFd s0"

lemma map_cfd_upd: "(\<And>c. cfd (f c) = cfd c) \<Longrightarrow> map cfd (clients (upd_client i f s)) = map cfd (clients s)"
  by (cases "i < length (clients s)")
    (auto simp: upd_client_def map_update list_update_beyond intro: list_update_same_conv [THEN iffD2])

lemma map_cfd_cancelAll: "map cfd (clients (cancelAllTransactions e s)) = map cfd (clients s)"
  by (intro nth_equalityI) (auto simp: cancelAll_nth upd_trx_def)

lemma upd_client_fields [simp]:
  "socketFd (upd_client i f s) = socketFd s" "masterFds (upd_client i f s) = masterFds s"
  "maxFd (upd_client i f s) = maxFd s" "sdriver (upd_client i f s) = sdriver s"
  "length (clients (upd_client i f s)) = length (clients s)"
  by (simp_all add: upd_client_def)

lemma cancelAll_fields [simp]:
  "socketFd (cancelAllTransactions e s) = socketFd s" "masterFds (cancelAllTransactions e s) = masterFds s"
  "maxFd (cancelAllTransactions e s) = maxFd s" "sdriver (cancelAllTransactions e s) = sdriver s"
  by (simp_all add: cancelAllTransactions_def)

lemma cfd_upd_trx [simp]: "cfd (upd_trx f c) = cfd c"
  by (simp add: upd_trx_def)

interpretation fds: command_invariant env "fds_frame s0" for env s0
  by unfold_locales (simp_all add: fds_frame_def map_cfd_upd map_cfd_cancelAll)

lemma fds_frame_refl [simp]: "fds_frame s s"
  by (simp add: fds_frame_def)

lemma runCommand_length: "runCommand env i f s = Some s' \<Longrightarrow> length (clients s') = length (clients s)"
  using fds.runCommand_keeps [of s s env i f s'] by (metis fds_frame_def fds_frame_refl length_map)

text \<open>The loop over the complete commands of a client is the reader of the wire format.\<close>

lemma runCommands_frames:
  assumes "\<not> bulk_log env" "\<And>n. 0 < n \<Longrightarrow> alloc env n" "i < length (clients s)"
    and len: "\<And>s s' f. runCommand env i f s = Some s' \<Longrightarrow> length (clients s') = length (clients s)"
  shows "runCommands env i (set_buf i b s) =
    map_option (\<lambda>(s', b'). set_buf i b' s') (run_frames ipc_cmd_is_complete (\<lambda>s f. runCommand env i f s) s b)"
  using assms(3)
proof (induction "length b" arbitrary: b s rule: less_induct)
  case less
  let ?n = "ipc_cmd_is_complete b"
  have cb: "cbuffer (clients (set_buf i b s) ! i) = b"
    using less.prems by (simp add: set_buf_def nth_upd_client)
  show ?case
  proof (cases "?n = 0")
    case True
    then show ?thesis
      by (subst runCommands.simps, subst run_frames.simps) (simp add: cb)
  next
    case False
    then have b: "4 \<le> ?n" "b \<noteq> []" using is_complete_bounds by blast+
    have rm: "snd (ipc_cmd_remove (alloc env) b) = drop ?n b"
      using False assms(2) [of "length b - ?n"] by (auto simp: ipc_cmd_remove_def Let_def)
    have shift: "upd_client i (\<lambda>c. c\<lparr>cbuffer := snd (ipc_cmd_remove (alloc env) (cbuffer c))\<rparr>) (set_buf i b s1)
        = set_buf i (drop ?n b) s1" for s1
      unfolding set_buf_def upd_client_twice by (simp add: rm)
    have step: "runCommands env i (set_buf i b s) =
        Option.bind (runCommand env i b s) (\<lambda>s1. runCommands env i (set_buf i (drop ?n b) s1))"
      by (subst runCommands.simps)
        (simp add: cb False runCommand_set_buf [OF assms(1)] bind_map_option comp_def shift)
    have IH: "runCommands env i (set_buf i (drop ?n b) s1) =
        map_option (\<lambda>(s', b'). set_buf i b' s')
          (run_frames ipc_cmd_is_complete (\<lambda>s f. runCommand env i f s) s1 (drop ?n b))"
      if "runCommand env i b s = Some s1" for s1
      using b that less.prems len by (intro less.hyps) auto
    show ?thesis
      unfolding step by (subst run_frames.simps, cases "runCommand env i b s") (simp_all add: False IH)
  qed
qed

lemma readData_piece:
  assumes "p \<noteq> []" "length p \<le> READ_BUF_SIZE"
  shows "client_readData [RdData p] c = (int (length p), c\<lparr>cbuffer := cbuffer c @ p\<rparr>)"
  using assms by (simp add: client_readData_def readAndAppendAvailableData_def)

lemma receive_piece:
  assumes "p \<noteq> []" "length p \<le> READ_BUF_SIZE" "i < length (clients s)"
  shows "clients_loop env (\<lambda>_. [RdData p]) 1 i (set_buf i b s) = runCommands env i (set_buf i (b @ p) s)"
proof -
  have "(set_buf i b s)\<lparr>clients := (clients (set_buf i b s))[i := (clients (set_buf i b s) ! i)
      \<lparr>cbuffer := cbuffer (clients (set_buf i b s) ! i) @ p\<rparr>]\<rparr> = set_buf i (b @ p) s"
    using assms(3) by (simp add: set_buf_def upd_client_def)
  then show ?thesis
    using assms by (simp add: readData_piece split: option.split)
qed

lemma runCommands_length:
  "runCommands env i s = Some s' \<Longrightarrow> length (clients s') = length (clients s)"
  using fds.runCommands_keeps [of env i s s' s] by (metis fds_frame_def fds_frame_refl length_map)

lemma receive_pieces:
  assumes "\<not> bulk_log env" "\<And>n. 0 < n \<Longrightarrow> alloc env n" "i < length (clients s)"
    and "\<forall>p \<in> set pieces. p \<noteq> [] \<and> length p \<le> READ_BUF_SIZE"
  shows "fold_option (\<lambda>s p. clients_loop env (\<lambda>_. [RdData p]) 1 i s) (set_buf i b s) pieces =
    map_option (\<lambda>(s', b'). set_buf i b' s')
      (feed ipc_cmd_is_complete (\<lambda>s f. runCommand env i f s) s b pieces)"
  using assms(3,4)
proof (induction pieces arbitrary: b s)
  case (Cons p ps)
  let ?run = "run_frames ipc_cmd_is_complete (\<lambda>s f. runCommand env i f s) s (b @ p)"
  have run: "runCommands env i (set_buf i (b @ p) s) = map_option (\<lambda>(s', b'). set_buf i b' s') ?run"
    by (rule runCommands_frames [OF assms(1,2) Cons.prems(1) runCommand_length])
  have one: "clients_loop env (\<lambda>_. [RdData p]) 1 i (set_buf i b s) = map_option (\<lambda>(s', b'). set_buf i b' s') ?run"
    using Cons.prems by (simp only: run [symmetric]) (rule receive_piece, auto)
  show ?case
  proof (cases ?run)
    case (Some r)
    obtain s1 b1 where r: "r = (s1, b1)" by (cases r)
    have "length (clients s1) = length (clients s)"
      using runCommands_length [of env i "set_buf i (b @ p) s" "set_buf i b1 s1"] run Some r
      by (simp add: set_buf_def)
    with Cons.IH [of s1 b1] Cons.prems Some r one show ?thesis
      by (simp del: One_nat_def)
  qed (use one in \<open>simp del: One_nat_def\<close>)
qed simp

lemma fold_set_buf:
  assumes "\<not> bulk_log env"
  shows "fold_option (\<lambda>s f. runCommand env i f s) (set_buf i b s) cmds =
    map_option (set_buf i b) (fold_option (\<lambda>s f. runCommand env i f s) s cmds)"
proof (induction cmds arbitrary: s)
  case (Cons f fs)
  then show ?case
    by (cases "runCommand env i f s") (simp_all add: runCommand_set_buf [OF assms])
qed simp

lemma set_buf_same: "i < length (clients s) \<Longrightarrow> set_buf i (cbuffer (clients s ! i)) s = s"
  by (simp add: set_buf_def upd_client_def)

section \<open>The descriptors of the main loop\<close>

text \<open>
  The set kept by the loop (\<open>masterFds\<close>) holds the listening socket and the clients'
  descriptors, all different and within the bound.
\<close>

definition fds_ok :: "'d Server \<Rightarrow> bool" where
  "fds_ok s \<longleftrightarrow> masterFds s = set (socketFd s # map cfd (clients s)) \<and>
     distinct (socketFd s # map cfd (clients s)) \<and> (\<forall>fd \<in> masterFds s. 0 \<le> fd \<and> fd \<le> maxFd s)"

text \<open>What is watched then: those, and of the descriptors the driver has registered the ones within
  the bound.\<close>

lemma watched_fds:
  "fds_ok s \<Longrightarrow> watched s = set (socketFd s # map cfd (clients s)) \<union>
     {fd. fd \<le> maxFd s \<and> (\<exists>d. sdriver s = Some d \<and> fd \<in> registeredFds d)}"
  by (auto simp: fds_ok_def watched_def split: option.splits)

lemma fds_ok_frame: "fds_frame s s' \<Longrightarrow> fds_ok s \<Longrightarrow> fds_ok s'"
  by (simp add: fds_frame_def fds_ok_def del: set_map)

lemma fds_ok_start: "0 \<le> fd \<Longrightarrow> fds_ok (server_start fd d)"
  by (simp add: fds_ok_def server_start_def)

lemma fds_ok_accept:
  "fds_ok s \<Longrightarrow> (\<And>fd. connFd = Some fd \<Longrightarrow> fd \<notin> masterFds s) \<Longrightarrow> accept_client connFd s = Some s' \<Longrightarrow> fds_ok s'"
  by (auto simp: accept_client_def fds_ok_def Client_init_def le_max_iff_disj split: option.splits if_splits)

lemma readData_cfd: "client_readData es c = (rv, c') \<Longrightarrow> cfd c' = cfd c"
  by (auto simp: client_readData_def split: prod.splits)

lemma fds_ok_remove:
  assumes "fds_ok s" "i < length (clients s)" "fd = cfd (clients s ! i)"
  shows "fds_ok (s\<lparr>masterFds := masterFds s - {fd}, clients := take i (clients s) @ drop (i + 1) (clients s)\<rparr>)"
proof -
  let ?cs = "clients s"
  have split: "?cs = take i ?cs @ ?cs ! i # drop (i + 1) ?cs"
    using assms(2) by (simp add: id_take_nth_drop)
  then have "map cfd ?cs = map cfd (take i ?cs) @ fd # map cfd (drop (i + 1) ?cs)"
    using assms(3) by (metis list.simps(9) map_append)
  with assms(1) show ?thesis
    unfolding fds_ok_def by (auto simp del: set_map)
qed

lemma clients_loop_fds:
  "clients_loop env reads n i s = Some s' \<Longrightarrow> fds_ok s \<Longrightarrow> i + n = length (clients s) \<Longrightarrow> fds_ok s'"
proof (induction n arbitrary: i s)
  case (Suc n)
  obtain rv c where rd: "client_readData (reads (cfd (clients s ! i))) (clients s ! i) = (rv, c)"
    by fastforce
  let ?s1 = "s\<lparr>clients := (clients s)[i := c]\<rparr>"
  let ?r = "if rv \<ge> 0 \<or> rv = -2 \<and> 0 < length (cbuffer c) then runCommands env i ?s1 else Some ?s1"
  have unf: "clients_loop env reads (Suc n) i s = Option.bind ?r (\<lambda>s2. if rv = -2
      then clients_loop env reads n i
        (s2\<lparr>masterFds := masterFds s2 - {cfd c}, clients := take i (clients s2) @ drop (i + 1) (clients s2)\<rparr>)
      else clients_loop env reads n (i + 1) s2)"
    by (simp only: clients_loop.simps rd prod.case Let_def) (cases ?r; simp)
  obtain s2 where s2: "?r = Some s2" using Suc.prems(1) unf by (cases ?r) simp_all
  have c: "cfd c = cfd (clients s ! i)" by (rule readData_cfd [OF rd])
  have "map cfd ((clients s)[i := c]) = map cfd (clients s)"
    using c by (simp add: map_update) (metis list_update_beyond list_update_id map_update not_le)
  then have f1: "fds_frame s ?s1" by (simp add: fds_frame_def)
  have f: "fds_frame s s2"
    using s2 fds.runCommands_keeps [of env i ?s1 s2 s] f1 by (auto split: if_splits)
  then have len: "length (clients s2) = length (clients s)" by (metis fds_frame_def length_map)
  have ok: "fds_ok s2" using f Suc.prems(2) fds_ok_frame by blast
  have ci: "cfd c = cfd (clients s2 ! i)"
    using f c Suc.prems(3) len by (metis add_gr_0 fds_frame_def less_add_same_cancel1 nth_map zero_less_Suc)
  show ?case
  proof (cases "rv = -2")
    case True
    have "fds_ok (s2\<lparr>masterFds := masterFds s2 - {cfd c}, clients := take i (clients s2) @ drop (i + 1) (clients s2)\<rparr>)"
      using Suc.prems(3) len ok ci by (intro fds_ok_remove) auto
    with Suc.IH [of i] True Suc.prems unf s2 len show ?thesis by simp
  next
    case False
    with Suc.IH [of "i + 1" s2] Suc.prems unf s2 len ok show ?thesis by simp
  qed
qed simp

lemma fold_commands_frame:
  "fold_option (\<lambda>s f. runCommand env i f s) s cmds = Some s' \<Longrightarrow> fds_frame s s'"
proof (induction cmds arbitrary: s)
  case (Cons f fs)
  then obtain s1 where "runCommand env i f s = Some s1" "fold_option (\<lambda>s f. runCommand env i f s) s1 fs = Some s'"
    by (auto simp: bind_eq_Some_conv)
  with Cons.IH fds.runCommand_keeps [of s s env i f s1] show ?case by (auto simp: fds_frame_def)
qed simp

text \<open>A client that has closed its connection with an incomplete command in its buffer is taken out.\<close>

lemma close_cut_off:
  assumes "ipc_cmd_is_complete b = 0" "i < length (clients s)" "cfd (clients s ! i) = fd"
  shows "clients_loop env (\<lambda>_. [RdEOF]) 1 i (set_buf i b s) =
    Some (s\<lparr>masterFds := masterFds s - {fd}, clients := take i (clients s) @ drop (i + 1) (clients s)\<rparr>)"
proof -
  let ?s = "set_buf i b s"
  have c: "clients ?s ! i = (clients s ! i)\<lparr>cbuffer := b\<rparr>" "(clients ?s)[i := clients ?s ! i] = clients ?s"
    "take i (clients ?s) = take i (clients s)" "drop (Suc i) (clients ?s) = drop (Suc i) (clients s)" "masterFds ?s = masterFds s"
    using assms(2) by (simp_all add: set_buf_def upd_client_def)
  have rd: "client_readData [RdEOF] (clients ?s ! i) = (-2, clients ?s ! i)"
    by (simp add: client_readData_def readAndAppendAvailableData_def c(1))
  have "runCommands env i ?s = Some ?s" using assms(1) by (subst runCommands.simps) (simp add: c(1))
  then show ?thesis
    using assms(3) rd c(1) by (simp add: Let_def c(2-5)) (simp add: set_buf_def upd_client_def)
qed

section \<open>The contract with a driver\<close>

text \<open>
  What a driver promises the server: none of the methods the server calls breaks its invariant.
  The environment may be another one in every iteration; \<open>E\<close> says which ones can occur.
\<close>

definition driver_ok :: "('d \<Rightarrow> bool) \<Rightarrow> 'd Server \<Rightarrow> bool" where
  "driver_ok J s \<longleftrightarrow> (\<forall>d. sdriver s = Some d \<longrightarrow> J d)"

lemma iteration_Go:
  assumes "server_iteration env connFd reads es s = Some (Go (w, s'))"
  obtains s1 s2 where "accept_client connFd s = Some s1"
    "clients_loop env reads (length (clients s1)) 0 s1 = Some s2"
    "sdriver s2 = None \<and> s' = s2 \<or>
     (\<exists>d t d'. sdriver s2 = Some d \<and> op_update (ops env) es d = Some (Go (t, d')) \<and> s' = s2\<lparr>sdriver := Some d'\<rparr>)"
proof -
  obtain s1 s2 where 1: "accept_client connFd s = Some s1"
    and 2: "clients_loop env reads (length (clients s1)) 0 s1 = Some s2"
    using assms by (auto simp: server_iteration_def bind_eq_Some_conv)
  show thesis
  proof (cases "sdriver s2")
    case None
    with 1 2 assms show ?thesis by (intro that [of s1 s2]) (simp_all add: server_iteration_def)
  next
    case (Some d)
    with 1 2 assms obtain t d' where "op_update (ops env) es d = Some (Go (t, d'))" "s' = s2\<lparr>sdriver := Some d'\<rparr>"
      by (cases "op_update (ops env) es d") (auto simp: server_iteration_def split: outcome.split_asm)
    with 1 2 Some show ?thesis by (intro that [of s1 s2]) auto
  qed
qed

locale driver_contract =
  fixes E :: "'a AbstractDriver_scheme env \<Rightarrow> bool"
    and inv :: "'a AbstractDriver_scheme \<Rightarrow> bool"
  assumes append: "E env \<Longrightarrow> inv d \<Longrightarrow> op_append (ops env) t n m d = Some (gsr, d') \<Longrightarrow> inv d'"
    and clear: "E env \<Longrightarrow> inv d \<Longrightarrow> inv (op_clear (ops env) d)"
    and start: "E env \<Longrightarrow> inv d \<Longrightarrow> op_start (ops env) d = Some (ok, d') \<Longrightarrow> inv d'"
    and stop: "E env \<Longrightarrow> inv d \<Longrightarrow> op_stop (ops env) t d = Some (ok, d') \<Longrightarrow> inv d'"
    and heat: "E env \<Longrightarrow> inv d \<Longrightarrow> op_heatup (ops env) k d = Some d' \<Longrightarrow> inv d'"
    and update: "E env \<Longrightarrow> inv d \<Longrightarrow> op_update (ops env) es d = Some (Go (w, d')) \<Longrightarrow> inv d'"
begin

lemma call_inv: "driver_call (ops env) d d' \<Longrightarrow> E env \<Longrightarrow> inv d \<Longrightarrow> inv d'"
  by (induction rule: driver_call.induct) (blast intro: append clear start stop heat)+

lemma commands: "E env \<Longrightarrow> command_invariant env (driver_ok inv)"
  by unfold_locales (auto simp: driver_ok_def intro: call_inv)

lemma clients_loop_inv:
  assumes "E env"
  shows "clients_loop env reads n i s = Some s' \<Longrightarrow> driver_ok inv s \<Longrightarrow> driver_ok inv s'"
proof (induction n arbitrary: i s)
  case (Suc n)
  obtain rv c where rd: "client_readData (reads (cfd (clients s ! i))) (clients s ! i) = (rv, c)"
    by fastforce
  have f: "driver_ok inv (t\<lparr>clients := cs\<rparr>)" "driver_ok inv (t\<lparr>masterFds := m, clients := cs\<rparr>)" if "driver_ok inv t" for t cs m
    using that by (simp_all add: driver_ok_def)
  show ?case
    using Suc.prems Suc.IH rd command_invariant.runCommands_keeps [OF commands [OF assms]] f
    by (auto simp: Let_def split: option.splits if_splits; blast)
qed simp

lemma iteration_inv:
  assumes "E env" "driver_ok inv s" "server_iteration env connFd reads es s = Some (Go (w, s'))"
  shows "driver_ok inv s'"
proof -
  from assms(3) obtain s1 s2 where 1: "accept_client connFd s = Some s1"
    and 2: "clients_loop env reads (length (clients s1)) 0 s1 = Some s2"
    and 3: "sdriver s2 = None \<and> s' = s2 \<or>
     (\<exists>d t d'. sdriver s2 = Some d \<and> op_update (ops env) es d = Some (Go (t, d')) \<and> s' = s2\<lparr>sdriver := Some d'\<rparr>)"
    by (rule iteration_Go)
  have "driver_ok inv s1" using 1 assms(2) by (auto simp: accept_client_def driver_ok_def split: option.splits if_splits)
  with 2 have k: "driver_ok inv s2" by (rule clients_loop_inv [OF assms(1)])
  from 3 k assms(1) show ?thesis by (auto simp: driver_ok_def intro: update)
qed

end

text \<open>
  The states the server can come to: started with a driver in a state \<open>D\<close>, then iterations
  in which \<open>accept\<close>, when it is called, gives a descriptor that is not in use.
\<close>

inductive server_reachable ::
  "('a AbstractDriver_scheme env \<Rightarrow> bool) \<Rightarrow> ('a AbstractDriver_scheme \<Rightarrow> bool) \<Rightarrow> 'a AbstractDriver_scheme Server \<Rightarrow> bool"
  for E D where
  sr_start: "0 \<le> fd \<Longrightarrow> (\<And>d. dr = Some d \<Longrightarrow> D d) \<Longrightarrow> server_reachable E D (server_start fd dr)"
| sr_iterate: "server_reachable E D s \<Longrightarrow> E env \<Longrightarrow> (\<And>fd. connFd = Some fd \<Longrightarrow> fd \<notin> masterFds s) \<Longrightarrow>
    server_iteration env connFd reads es s = Some (Go (w, s')) \<Longrightarrow> server_reachable E D s'"

lemma fds_ok_driver: "fds_ok s \<Longrightarrow> fds_ok (s\<lparr>sdriver := d\<rparr>)"
  by (simp add: fds_ok_def)

lemma iteration_fds:
  assumes "fds_ok s" "\<And>fd. connFd = Some fd \<Longrightarrow> fd \<notin> masterFds s"
    "server_iteration env connFd reads es s = Some (Go (w, s'))"
  shows "fds_ok s'"
proof -
  from assms(3) obtain s1 s2 where 1: "accept_client connFd s = Some s1"
    and 2: "clients_loop env reads (length (clients s1)) 0 s1 = Some s2"
    and 3: "sdriver s2 = None \<and> s' = s2 \<or>
     (\<exists>d t d'. sdriver s2 = Some d \<and> op_update (ops env) es d = Some (Go (t, d')) \<and> s' = s2\<lparr>sdriver := Some d'\<rparr>)"
    by (rule iteration_Go)
  have "fds_ok s1" using fds_ok_accept [OF assms(1,2) 1] .
  then have "fds_ok s2" using clients_loop_fds [OF 2] by simp
  with 3 show ?thesis by (auto simp: fds_ok_driver)
qed

lemma reachable_fds: "server_reachable E D s \<Longrightarrow> fds_ok s"
  by (induction rule: server_reachable.induct) (auto intro: fds_ok_start iteration_fds)

context driver_contract begin

lemma server_reachable_inv: "server_reachable E inv s \<Longrightarrow> driver_ok inv s"
proof (induction rule: server_reachable.induct)
  case (sr_start fd dr)
  then show ?case by (simp add: driver_ok_def server_start_def)
qed (blast intro: iteration_inv)

end

end
