(* ===== verification/ServerAppend.thy ===== *)
theory ServerAppend
  imports ServerRun
begin

text \<open>
  The g-code transactions of the server: what one \<open>gcodeAppend\<close> command does to its
  client and to the driver, and what a text sent in several of them amounts to.
\<close>

section \<open>Commands and replies\<close>

definition append_args :: "string \<Rightarrow> int \<Rightarrow> int \<Rightarrow> int \<Rightarrow> int \<Rightarrow> string option \<Rightarrow> bytes list" where
  "append_args text flags tot num ttl src =
     [text, store_ns (word_of_int flags), store_nl (word_of_int tot), store_nl (word_of_int num),
      store_nl (word_of_int ttl)] @ (case src of None \<Rightarrow> [] | Some t \<Rightarrow> [t])"

definition append_cmd :: "string \<Rightarrow> int \<Rightarrow> int \<Rightarrow> int \<Rightarrow> int \<Rightarrow> string option \<Rightarrow> bytes" where
  "append_cmd text flags tot num ttl src =
     encode (ipc_code IPC_CMDQ_GCODE_APPEND) (append_args text flags tot num ttl src)"

definition ok_reply :: bytes where
  "ok_reply = encode (ipc_code IPC_CMDR_OK) []"

definition text_reply :: "IPC_COMMAND_CODE \<Rightarrow> string \<Rightarrow> bytes" where
  "text_reply c t = encode (ipc_code c) [t]"

definition append_reply :: "GCODE_SET_RESULT \<Rightarrow> bytes" where
  "append_reply gsr = (if gsr = GSR_OK then ok_reply
     else text_reply IPC_CMDR_GCODE_ADD_FAILED (getGcodeSetResultString gsr))"

definition push_sent :: "nat \<Rightarrow> bytes list \<Rightarrow> 'd Server \<Rightarrow> 'd Server" where
  "push_sent i ms = upd_client i (\<lambda>c. c\<lparr>csent := csent c @ ms\<rparr>)"

text \<open>An environment in which nothing is logged and memory is available.\<close>

definition calm :: "'d env \<Rightarrow> bool" where
  "calm env \<longleftrightarrow> \<not> bulk_log env \<and> (\<forall>n > 0. alloc env n)"

lemma calmD: "calm env \<Longrightarrow> \<not> bulk_log env" "calm env \<Longrightarrow> 0 < n \<Longrightarrow> alloc env n"
  by (simp_all add: calm_def)

lemma sendReply_calm:
  assumes "calm env" "cfd (clients s ! i) \<noteq> -1"
  shows "sendReply env i c None s = Some (push_sent i [encode (ipc_code c) []] s)"
    "sendReply env i c (Some t) s = Some (push_sent i [text_reply c t] s)"
proof -
  note al = calmD(2) [OF assms(1)]
  have "ipc_construct_cmd (alloc env) c (Some ''x'') [VBlob t] = Some (Some (text_reply c t))"
    using construct_encode [where al="alloc env" and fmt="''x''" and vs="[VBlob t]" and as="[t]" and c=c] al by (simp add: text_reply_def)
  moreover have "ipc_construct_cmd (alloc env) c (Some '''') [] = Some (Some (encode (ipc_code c) []))"
    using construct_encode [where al="alloc env" and fmt="[]" and vs="[]" and as="[]" and c=c] al by simp
  ultimately show "sendReply env i c None s = Some (push_sent i [encode (ipc_code c) []] s)"
    "sendReply env i c (Some t) s = Some (push_sent i [text_reply c t] s)"
    using assms by (simp_all add: sendReply_def sendData_def logIpcCmd_def calm_def push_sent_def)
qed

lemma sendOk_calm:
  "calm env \<Longrightarrow> cfd (clients s ! i) \<noteq> -1 \<Longrightarrow> sendOk env i s = Some (push_sent i [ok_reply] s)"
  by (simp add: sendOk_def sendReply_calm ok_reply_def)

section \<open>One piece\<close>

definition in_range :: "nat \<Rightarrow> int \<Rightarrow> bool" where
  "in_range w k \<longleftrightarrow> - (2 ^ (w - 1)) \<le> k \<and> k < 2 ^ (w - 1)"

lemma sint_in_range:
  "in_range 16 k \<Longrightarrow> sint (word_of_int k :: 16 word) = k"
  "in_range 32 k \<Longrightarrow> sint (word_of_int k :: 32 word) = k"
  by (simp_all add: in_range_def signed_of_int signed_take_bit_int_eq_self)

lemma sint_flags: "0 \<le> k \<Longrightarrow> k < 4 \<Longrightarrow> sint (word_of_int k :: 16 word) = k"
  by (rule sint_in_range) (simp add: in_range_def)

text \<open>What fits in the fields of an append command.\<close>

definition append_fits :: "string \<Rightarrow> int \<Rightarrow> int \<Rightarrow> int \<Rightarrow> string option \<Rightarrow> bool" where
  "append_fits text tot num ttl src \<longleftrightarrow> length text < 4294967296 \<and> in_range 32 tot \<and> in_range 32 num \<and>
     in_range 32 ttl \<and> (\<forall>t. src = Some t \<longrightarrow> length t < 4294967296)"

lemma append_wf:
  "append_fits text tot num ttl src \<Longrightarrow> wf_cmd (ipc_code c) (append_args text flags tot num ttl src)"
  by (cases c) (auto simp: wf_cmd_def append_args_def append_fits_def split: option.splits)

lemma append_is_cmd: "append_fits text tot num ttl src \<Longrightarrow> is_cmd (append_cmd text flags tot num ttl src)"
  unfolding is_cmd_def append_cmd_def using append_wf by blast

definition meta :: "int \<Rightarrow> int \<Rightarrow> string option \<Rightarrow> MetaData" where
  "meta num ttl src = \<lparr>seqNumber = num, seqTotal = ttl, source = map_option cstr src\<rparr>"

lemma append_accessors:
  assumes "calm env" "append_fits text tot num ttl src" "0 \<le> flags" "flags < 4"
  defines "b \<equiv> append_cmd text flags tot num ttl src"
  shows "ipc_cmd_num_args b = (if src = None then 5 else 6)"
    "ipc_cmd_get_string_arg (alloc env) b 0 = Some (Inr (cstr text))"
    "ipc_cmd_get_short_arg (alloc env) b 1 = Some (Inr flags)"
    "append_metadata env b (ipc_cmd_num_args b) = Some (tot, meta num ttl src)"
proof -
  let ?as = "append_args text flags tot num ttl src"
  note w = append_wf [OF assms(2), of IPC_CMDQ_GCODE_APPEND flags]
  note al = calmD(2) [OF assms(1)]
  have len: "length ?as = (if src = None then 5 else 6)" by (auto simp: append_args_def)
  show n: "ipc_cmd_num_args b = (if src = None then 5 else 6)"
    unfolding b_def append_cmd_def using ipc_cmd_num_args_encode [of ?as _ "[]"] len by simp
  show "ipc_cmd_get_string_arg (alloc env) b 0 = Some (Inr (cstr text))"
    unfolding b_def append_cmd_def using get_string_arg_encode [OF w, of 0 "alloc env" "[]"] al len
    by (simp add: append_args_def)
  show "ipc_cmd_get_short_arg (alloc env) b 1 = Some (Inr flags)"
    unfolding b_def append_cmd_def
    using get_short_arg_encode [OF w, of 1 "word_of_int flags" "alloc env" "[]"] al len sint_flags assms(3,4)
    by (simp add: append_args_def)
  have long: "ipc_cmd_get_long_arg (alloc env) b j = Some (Inr k)"
    if "j < length ?as" "?as ! j = store_nl (word_of_int k)" "in_range 32 k" for j k
    unfolding b_def append_cmd_def
    using get_long_arg_encode [OF w that(1,2), of "alloc env" "[]"] al sint_in_range that(3) by simp
  have "ipc_cmd_get_long_arg (alloc env) b 2 = Some (Inr tot)"
    "ipc_cmd_get_long_arg (alloc env) b 3 = Some (Inr num)"
    "ipc_cmd_get_long_arg (alloc env) b 4 = Some (Inr ttl)"
    using len assms(2) by (intro long; simp add: append_args_def append_fits_def)+
  moreover have "src = Some t \<Longrightarrow> ipc_cmd_get_string_arg (alloc env) b 5 = Some (Inr (cstr t))" for t
    unfolding b_def append_cmd_def using get_string_arg_encode [OF w, of 5 "alloc env" "[]"] al len
    by (simp add: append_args_def)
  ultimately show "append_metadata env b (ipc_cmd_num_args b) = Some (tot, meta num ttl src)"
    by (cases src) (simp_all add: append_metadata_def n meta_def)
qed

lemma runCommand_append:
  assumes "calm env" "append_fits text tot num ttl src"
  shows "runCommand env i (append_cmd text flags tot num ttl src) s =
    hnd_gcodeAppend env i (append_cmd text flags tot num ttl src) s"
proof -
  have "ipc_cmd_get (append_cmd text flags tot num ttl src) = 0x13"
    using ipc_cmd_get_encode [of "0x13" _ "[]"] by (simp add: append_cmd_def)
  then show ?thesis
    using assms(1) by (simp add: runCommand_def logIpcCmd_def calm_def HANDLERS_def)
qed

lemma trx_swap: "t\<lparr>active := x, tbuffer := y\<rparr> = t\<lparr>tbuffer := y, active := x\<rparr>" for t :: Transaction
  by simp

text \<open>
  One piece in one equation: when the transaction has been cancelled the client is told, and then the
  piece is treated as any other.
\<close>

definition told_cancelled :: "nat \<Rightarrow> 'd Server \<Rightarrow> 'd Server" where
  "told_cancelled i s = (if cancelled (trx_of i s)
     then push_sent i [text_reply IPC_CMDR_TRX_CANCELLED ''transaction cancelled''] s else s)"

lemma append_piece_any:
  assumes "calm env" "append_fits text tot num ttl src" "0 \<le> flags" "flags < 4"
    and si: "i < length (clients s)" "cfd (clients s ! i) \<noteq> -1"
  defines "is_first \<equiv> has_bit flags TRX_FIRST_CHUNK_BIT" and "is_last \<equiv> has_bit flags TRX_LAST_CHUNK_BIT"
  defines "b \<equiv> (if is_first then [] else tbuffer (trx_of i s)) @ cstr text" and "u \<equiv> told_cancelled i s"
  shows "runCommand env i (append_cmd text flags tot num ttl src) s =
    (if is_last then do {
       d \<leftarrow> sdriver s;
       (gsr, d1) \<leftarrow> op_append (ops env) b tot (Some (meta num ttl src)) d;
       Some (push_sent i [append_reply gsr]
         (upd_client i (upd_trx (\<lambda>t. t\<lparr>tbuffer := [], active := False\<rparr>)) (u\<lparr>sdriver := Some d1\<rparr>)))
     } else Some (push_sent i [ok_reply]
         (upd_client i (upd_trx (\<lambda>t. t\<lparr>tbuffer := b, active := active t \<or> is_first\<rparr>)) u)))"
proof -
  have iu: "i < length (clients u)" "cfd (clients u ! i) \<noteq> -1" "trx_of i u = trx_of i s" "sdriver u = sdriver s"
    using si by (simp_all add: u_def told_cancelled_def push_sent_def nth_upd_client)
  note i = iu(1,2)
  have tell: "(if cancelled (trx_of i s) then sendReply env i IPC_CMDR_TRX_CANCELLED (Some ''transaction cancelled'') s
      else Some s) = Some u"
    using sendReply_calm(2) [OF assms(1) si(2)] by (simp add: u_def told_cancelled_def)
  note acc = append_accessors [OF assms(1-4)]
  obtain n where n: "ipc_cmd_num_args (append_cmd text flags tot num ttl src) = n" "n \<noteq> 0" "2 \<le> n"
    using acc(1) by simp
  have meta: "append_metadata env (append_cmd text flags tot num ttl src) n = Some (tot, meta num ttl src)"
    using acc(4) n(1) by simp
  let ?s2 = "if is_first then upd_client i (upd_trx (\<lambda>t. t\<lparr>tbuffer := [], active := True\<rparr>)) u else u"
  let ?s3 = "upd_client i (upd_trx (\<lambda>t. t\<lparr>tbuffer := tbuffer t @ cstr text\<rparr>)) ?s2"
  have s3: "?s3 = upd_client i (upd_trx (\<lambda>t. t\<lparr>tbuffer := b, active := active t \<or> is_first\<rparr>)) u"
    using iu by (auto simp: upd_client_twice upd_trx_def b_def upd_client_def trx_swap)
  have b: "tbuffer (trx_of i ?s3) = b"
    unfolding s3 using i(1) by (simp add: nth_upd_client upd_trx_def)
  have cfd3: "cfd (clients ?s3 ! i) \<noteq> -1" "sdriver ?s3 = sdriver u"
    unfolding s3 using i by (simp_all add: nth_upd_client)
  have "upd_client i (upd_trx (\<lambda>t. t\<lparr>tbuffer := [], active := False\<rparr>)) (?s3\<lparr>sdriver := x\<rparr>) =
      upd_client i (upd_trx (\<lambda>t. t\<lparr>tbuffer := [], active := False\<rparr>)) (u\<lparr>sdriver := x\<rparr>)" for x
    unfolding s3 using i(1) by (simp add: upd_client_def upd_trx_def)
  moreover have "(if gsr \<noteq> GSR_OK then sendReply env i IPC_CMDR_GCODE_ADD_FAILED (Some (getGcodeSetResultString gsr))
        (upd_client i (upd_trx f) (u\<lparr>sdriver := x\<rparr>)) else sendOk env i (upd_client i (upd_trx f) (u\<lparr>sdriver := x\<rparr>))) =
      Some (push_sent i [append_reply gsr] (upd_client i (upd_trx f) (u\<lparr>sdriver := x\<rparr>)))" for gsr f x
    using i by (simp add: nth_upd_client sendReply_calm [OF assms(1)] sendOk_calm [OF assms(1)] append_reply_def)
  moreover have "sendOk env i ?s3 = Some (push_sent i [ok_reply] ?s3)"
    by (rule sendOk_calm [OF assms(1) cfd3(1)])
  ultimately show ?thesis
    using cfd3(2) b iu(4)
    by (simp only: runCommand_append [OF assms(1,2)] hnd_gcodeAppend_def Let_def tell n n(2) if_False acc(2,3) meta
        arg_or.simps arg_req.simps Option.bind.simps is_first_def [symmetric] is_last_def [symmetric] prod.case
        option.sel if_True)
      (simp only: s3 refl if_cancel)
qed

lemma append_piece:
  assumes "calm env" "append_fits text tot num ttl src" "0 \<le> flags" "flags < 4"
    and "i < length (clients s)" "cfd (clients s ! i) \<noteq> -1" "\<not> cancelled (trx_of i s)"
  shows "runCommand env i (append_cmd text flags tot num ttl src) s =
    (if has_bit flags TRX_LAST_CHUNK_BIT then do {
       d \<leftarrow> sdriver s;
       (gsr, d1) \<leftarrow> op_append (ops env) ((if has_bit flags TRX_FIRST_CHUNK_BIT then [] else tbuffer (trx_of i s)) @ cstr text)
         tot (Some (meta num ttl src)) d;
       Some (push_sent i [append_reply gsr]
         (upd_client i (upd_trx (\<lambda>t. t\<lparr>tbuffer := [], active := False\<rparr>)) (s\<lparr>sdriver := Some d1\<rparr>)))
     } else Some (push_sent i [ok_reply] (upd_client i (upd_trx (\<lambda>t.
         t\<lparr>tbuffer := (if has_bit flags TRX_FIRST_CHUNK_BIT then [] else tbuffer (trx_of i s)) @ cstr text,
           active := active t \<or> has_bit flags TRX_FIRST_CHUNK_BIT\<rparr>)) s)))"
  using append_piece_any [OF assms(1-6)] assms(7) by (simp add: told_cancelled_def)

section \<open>A text in several pieces\<close>

text \<open>The flags of a piece, and the commands that carry the pieces of one transaction.\<close>

definition chunk_flags :: "bool \<Rightarrow> bool \<Rightarrow> int" where
  "chunk_flags is_first is_last = (if is_first then 1 else 0) + (if is_last then 2 else 0)"

fun chunk_cmds :: "(string \<Rightarrow> int \<Rightarrow> bytes) \<Rightarrow> bool \<Rightarrow> string list \<Rightarrow> bytes list" where
  "chunk_cmds mk is_first [] = []"
| "chunk_cmds mk is_first (t # ts) = mk t (chunk_flags is_first (ts = [])) # chunk_cmds mk False ts"

lemma chunk_flags_bits [simp]:
  "has_bit (chunk_flags a b) TRX_FIRST_CHUNK_BIT = a" "has_bit (chunk_flags a b) TRX_LAST_CHUNK_BIT = b"
  "0 \<le> chunk_flags a b" "chunk_flags a b < 4"
  by (cases a; cases b; simp add: chunk_flags_def has_bit_def TRX_FIRST_CHUNK_BIT_def TRX_LAST_CHUNK_BIT_def)+

definition close_trx :: "nat \<Rightarrow> 'd Server \<Rightarrow> 'd Server" where
  "close_trx i = upd_client i (upd_trx (\<lambda>t. t\<lparr>tbuffer := [], active := False\<rparr>))"

lemma close_after_piece:
  assumes "i < length (clients s)"
  shows "push_sent i R (close_trx i ((push_sent i Q (upd_client i (upd_trx (\<lambda>t. t\<lparr>tbuffer := b, active := f t\<rparr>)) s))\<lparr>sdriver := x\<rparr>)) =
    push_sent i (Q @ R) (close_trx i (s\<lparr>sdriver := x\<rparr>))"
  using assms by (simp add: push_sent_def close_trx_def upd_client_def upd_trx_def)

lemma push_sent_reads:
  assumes "i < length (clients s)"
  shows "trx_of i (push_sent i Q s) = trx_of i s" "cfd (clients (push_sent i Q s) ! i) = cfd (clients s ! i)"
    "sdriver (push_sent i Q s) = sdriver s" "length (clients (push_sent i Q s)) = length (clients s)"
  using assms by (simp_all add: push_sent_def nth_upd_client)

lemma run_chunks:
  assumes "calm env" "texts \<noteq> []" "\<forall>t \<in> set texts. append_fits t tot num ttl src"
    and "i < length (clients s)" "cfd (clients s ! i) \<noteq> -1" "\<not> cancelled (trx_of i s)"
  shows "fold_option (\<lambda>s f. runCommand env i f s) s
      (chunk_cmds (\<lambda>t k. append_cmd t k tot num ttl src) is_first texts) =
    do {
      d \<leftarrow> sdriver s;
      (gsr, d1) \<leftarrow> op_append (ops env) ((if is_first then [] else tbuffer (trx_of i s)) @ concat (map cstr texts))
        tot (Some (meta num ttl src)) d;
      Some (push_sent i (replicate (length texts - 1) ok_reply @ [append_reply gsr])
        (close_trx i (s\<lparr>sdriver := Some d1\<rparr>)))
    }"
  using assms(2-)
proof (induction texts arbitrary: s is_first)
  case (Cons t ts)
  have fits: "append_fits t tot num ttl src" using Cons.prems by simp
  note piece = append_piece [OF assms(1) fits chunk_flags_bits(3,4) Cons.prems(3-5)]
  show ?case
  proof (cases ts)
    case Nil
    then show ?thesis
      by (simp add: piece close_trx_def split_def)
  next
    case Cons': (Cons u us)
    let ?b = "(if is_first then [] else tbuffer (trx_of i s)) @ cstr t"
    let ?s1 = "push_sent i [ok_reply] (upd_client i (upd_trx (\<lambda>t. t\<lparr>tbuffer := ?b, active := active t \<or> is_first\<rparr>)) s)"
    have r: "trx_of i ?s1 = (trx_of i s)\<lparr>tbuffer := ?b, active := active (trx_of i s) \<or> is_first\<rparr>"
      "cfd (clients ?s1 ! i) = cfd (clients s ! i)" "sdriver ?s1 = sdriver s" "length (clients ?s1) = length (clients s)"
      using Cons.prems(3) by (simp_all add: push_sent_reads nth_upd_client upd_trx_def)
    have IH: "fold_option (\<lambda>s f. runCommand env i f s) ?s1
        (chunk_cmds (\<lambda>t k. append_cmd t k tot num ttl src) False ts) =
      do {
        d \<leftarrow> sdriver s;
        (gsr, d1) \<leftarrow> op_append (ops env) (?b @ concat (map cstr ts)) tot (Some (meta num ttl src)) d;
        Some (push_sent i (replicate (length ts - 1) ok_reply @ [append_reply gsr])
          (close_trx i (?s1\<lparr>sdriver := Some d1\<rparr>)))
      }"
      using Cons.IH [of ?s1 False] Cons.prems Cons' r by simp
    have "runCommand env i (append_cmd t (chunk_flags is_first False) tot num ttl src) s = Some ?s1"
      by (simp add: piece)
    then show ?thesis
      using IH Cons' Cons.prems(3) by (simp add: close_after_piece)
  qed
qed simp

section \<open>Other replies\<close>

lemma sendCmd_calm:
  assumes "calm env" "cfd (clients s ! i) \<noteq> -1" "arg_bytes fmt vals = Some as" "length as < 65536"
  shows "sendCmd env i fmt vals s = Some (push_sent i [encode (ipc_code IPC_CMDR_OK) as] s)"
proof -
  have "ipc_construct_cmd (alloc env) IPC_CMDR_OK (Some fmt) vals = Some (Some (encode (ipc_code IPC_CMDR_OK) as))"
    by (rule construct_encode [OF calmD(2) [OF assms(1)] assms(3,4)])
  with assms(1,2) show ?thesis
    by (simp add: sendCmd_def sendData_def logIpcCmd_def calm_def push_sent_def)
qed

text \<open>Dispatch on the code of a command.\<close>

lemma runCommand_calm:
  assumes "calm env"
  shows "ipc_cmd_get b = 0x10 \<Longrightarrow> runCommand env i b s = hnd_test env i b s"
    "ipc_cmd_get b = 0x14 \<Longrightarrow> runCommand env i b s = hnd_gcodeAppendFile env i b s"
    "ipc_cmd_get b = 0x18 \<Longrightarrow> runCommand env i b s = hnd_getProgress env i b s"
    "ipc_cmd_get b = 0x19 \<Longrightarrow> runCommand env i b s = hnd_getState env i b s"
  using assms by (simp_all add: runCommand_def logIpcCmd_def calm_def HANDLERS_def)

lemma get_encode0 [simp]: "c < 65536 \<Longrightarrow> ipc_cmd_get (encode c as) = c"
  using ipc_cmd_get_encode [of c as "[]"] by simp

lemma num_args_encode0 [simp]: "length as < 65536 \<Longrightarrow> ipc_cmd_num_args (encode c as) = int (length as)"
  using ipc_cmd_num_args_encode [of as c "[]"] by simp

text \<open>The numbers of a progress reply.\<close>

definition progress_numbers :: "'a AbstractDriver_scheme \<Rightarrow> int list" where
  "progress_numbers d = (let g = gcodeBuffer d in
     [currentLine g, bufferedLines g, getTotalLines g, bufferSize g, getMaxBufferSize, seqNumber (md g), seqTotal (md g)])"

definition progress_reply :: "int list \<Rightarrow> bytes" where
  "progress_reply ns = encode (ipc_code IPC_CMDR_OK) (map (\<lambda>n. store_nl (word_of_int n)) ns)"

lemma getProgress_calm:
  assumes "calm env" "cfd (clients s ! i) \<noteq> -1" "sdriver s = Some d"
  shows "runCommand env i (encode (ipc_code IPC_CMDQ_GET_PROGRESS) []) s =
    Some (push_sent i [progress_reply (progress_numbers d)] s)"
proof -
  have "arg_bytes ''WWWWWWW'' (map VInt (progress_numbers d)) =
      Some (map (\<lambda>n. store_nl (word_of_int n)) (progress_numbers d))"
    by (simp add: progress_numbers_def Let_def)
  then have "sendCmd env i ''WWWWWWW'' (map VInt (progress_numbers d)) s =
      Some (push_sent i [progress_reply (progress_numbers d)] s)"
    unfolding progress_reply_def
    by (rule sendCmd_calm [OF assms(1,2)]) (simp add: progress_numbers_def Let_def)
  then show ?thesis
    using assms(3) by (simp add: runCommand_calm(3) [OF assms(1)] hnd_getProgress_def progress_numbers_def Let_def)
qed

text \<open>A file is refused while the client has a transaction.\<close>

lemma appendFile_active:
  assumes "calm env" "cfd (clients s ! i) \<noteq> -1" "active (trx_of i s)" "wf_cmd (ipc_code IPC_CMDQ_GCODE_APPEND_FILE) as"
    "as \<noteq> []"
  shows "runCommand env i (encode (ipc_code IPC_CMDQ_GCODE_APPEND_FILE) as) s =
    Some (push_sent i [text_reply IPC_CMDR_RETRY_LATER ''transaction in progress''] s)"
proof -
  have "length as < 65536" using assms(4) by (simp add: wf_cmd_def)
  then show ?thesis
    using assms(3,5) sendReply_calm(2) [OF assms(1,2)]
    by (simp add: runCommand_calm(2) [OF assms(1)] hnd_gcodeAppendFile_def)
qed

end
