(* ===== verification/Communicator.thy ===== *)
theory Communicator
  imports IpcText
begin

text \<open>
  The client side of the protocol, \<open>src/src/frontends/communicator.c\<close>: the connection,
  sending one command and reading its reply, the meaning of a reply, and one function per request;
  \<open>comm_sendGCodeData\<close> cuts a text into packets. The static variables are a record; the
  process at the other end is a state of its own, which \<open>exchange\<close> changes. \<open>None\<close>
  is undefined behaviour.
\<close>

unbundle bit_operations_syntax

section \<open>State and environment\<close>

record 'p comm =
  csock :: int
  cerror :: "string option"
  peer :: 'p

text \<open>
  \<open>os_connect\<close> gives the descriptor of the connected socket, or -1 when \<open>socket\<close> or
  \<open>connect\<close> fail. \<open>exchange\<close> sends to a descriptor and waits for the answer: it
  gives what \<open>send\<close> returns and the bytes of the one read that follows (none: a timeout, an
  error or a closed connection).
\<close>

record 'p comm_env =
  calloc :: allocator
  cbulk :: bool
  os_connect :: "string \<Rightarrow> 'p \<Rightarrow> int \<times> 'p"
  os_close :: "int \<Rightarrow> 'p \<Rightarrow> int \<times> 'p"
  exchange :: "int \<Rightarrow> bytes \<Rightarrow> 'p \<Rightarrow> int \<times> bytes \<times> 'p"

definition IPC_WAIT_TIMEOUT :: int where "IPC_WAIT_TIMEOUT = 60 * 1000"
definition MAX_PACKET_SIZE :: nat where "MAX_PACKET_SIZE = 1024 - 8"

definition TRANSACTION_CANCELLED_STRING :: string where
  "TRANSACTION_CANCELLED_STRING = ''transaction_cancelled''"
definition RETRY_LATER_STRING :: string where
  "RETRY_LATER_STRING = ''retry_later''"

section \<open>Errors\<close>

text \<open>
  A text used as a format without arguments: a percent sign must be followed by another one, every
  other conversion reads an argument that is not there.
\<close>

fun format_text :: "string \<Rightarrow> string option" where
  "format_text [] = Some []"
| "format_text (c # cs) =
     (if c = CHR ''%'' then
        (case cs of d # ds \<Rightarrow> if d = CHR ''%'' then map_option ((#) d) (format_text ds) else None
         | [] \<Rightarrow> None)
      else map_option ((#) c) (format_text cs))"

definition clearError :: "'p comm \<Rightarrow> 'p comm" where
  "clearError s = s\<lparr>cerror := None\<rparr>"

definition setError :: "string \<Rightarrow> 'p comm \<Rightarrow> 'p comm option" where
  "setError format s = map_option (\<lambda>t. s\<lparr>cerror := Some t\<rparr>) (format_text format)"

definition setErrorText :: "string \<Rightarrow> 'p comm \<Rightarrow> 'p comm" where
  "setErrorText t s = s\<lparr>cerror := Some t\<rparr>"

section \<open>The connection\<close>

text \<open>The path is copied into the 108 bytes of \<open>sun_path\<close>.\<close>

definition openSocketInternal ::
  "'p comm_env \<Rightarrow> string option \<Rightarrow> 'p \<Rightarrow> (int \<times> 'p) option" where
  "openSocketInternal env deviceId p =
     (case deviceId of
        None \<Rightarrow> Some (-1, p)
      | Some d \<Rightarrow>
          let path = ipc_construct_socket_path d
          in if length path + 1 > 108 then None
             else let (fd, p') = os_connect env path p in Some (if fd < 0 then -1 else fd, p'))"

definition comm_openSocket :: "'p comm_env \<Rightarrow> string option \<Rightarrow> 'p comm \<Rightarrow> (int \<times> 'p comm) option" where
  "comm_openSocket env deviceId s =
     (if csock s \<ge> 0 then Some (csock s, s)
      else map_option (\<lambda>(fd, p). (fd, s\<lparr>csock := fd, peer := p\<rparr>)) (openSocketInternal env deviceId (peer s)))"

definition comm_closeSocket :: "'p comm_env \<Rightarrow> 'p comm \<Rightarrow> int \<times> 'p comm" where
  "comm_closeSocket env s = (let (rv, p) = os_close env (csock s) (peer s) in (rv, s\<lparr>csock := -1, peer := p\<rparr>))"

definition comm_is_socket_open :: "'p comm \<Rightarrow> int" where
  "comm_is_socket_open s = (if csock s \<ge> 0 then 1 else 0)"

definition comm_getError :: "'p comm \<Rightarrow> string option" where
  "comm_getError s = cerror s"

section \<open>One command and its reply\<close>

definition log_ipc_cmd :: "'p comm_env \<Rightarrow> bytes \<Rightarrow> bool \<Rightarrow> unit option" where
  "log_ipc_cmd env buf is_reply =
     (if cbulk env then map_option (\<lambda>_. ()) (ipc_stringify_cmd (calloc env) buf is_reply) else Some ())"

definition sendAndReceiveDataWithFd ::
  "'p comm_env \<Rightarrow> int \<Rightarrow> bytes option \<Rightarrow> 'p comm \<Rightarrow> (bytes option \<times> 'p comm) option" where
  "sendAndReceiveDataWithFd env fd sbuf s =
     (if fd < 0 then Some (None, s)
      else case sbuf of
        None \<Rightarrow> Some (None, setErrorText ''ipc command construction failed'' s)
      | Some b \<Rightarrow> do {
          log_ipc_cmd env b False;
          let (rv, rbuf, p) = exchange env fd b (peer s);
          let s1 = s\<lparr>peer := p\<rparr>;
          if rv < 0 then Some (None, setErrorText ''could not send ipc command'' s1)
          else let s2 = (if rv < int (length b) then setErrorText ''could not send complete ipc command'' s1 else s1)
               in Some (if rbuf = [] then None else Some rbuf, s2)
        })"

definition sendAndReceiveData ::
  "'p comm_env \<Rightarrow> bytes option \<Rightarrow> 'p comm \<Rightarrow> (bytes option \<times> 'p comm) option" where
  "sendAndReceiveData env sbuf s = sendAndReceiveDataWithFd env (csock s) sbuf s"

text \<open>A text argument that must be there: without it a null pointer is formatted.\<close>

definition string_arg :: "'p comm_env \<Rightarrow> bytes \<Rightarrow> string option" where
  "string_arg env rcmd =
     (case ipc_cmd_get_string_arg (calloc env) rcmd 0 of Some (Inr t) \<Rightarrow> Some t | _ \<Rightarrow> None)"

definition handleBasicResponse ::
  "'p comm_env \<Rightarrow> bytes option \<Rightarrow> int \<Rightarrow> 'p comm \<Rightarrow> (int \<times> 'p comm) option" where
  "handleBasicResponse env rcmd expectedArgCount s =
     (case rcmd of
        None \<Rightarrow> Some (-1, s)
      | Some r \<Rightarrow> do {
          log_ipc_cmd env r True;
          let code = ipc_cmd_get r;
          if code = ipc_code IPC_CMDR_OK then
            Some (if ipc_cmd_num_args r \<noteq> expectedArgCount then -1 else 0, s)
          else if code = ipc_code IPC_CMDR_ERROR then
            map_option (\<lambda>m. (-1, setErrorText (''server returned error ('' @ m @ '')'') s)) (string_arg env r)
          else if code = ipc_code IPC_CMDR_GCODE_ADD_FAILED then
            map_option (\<lambda>s1. (-2, s1)) (Option.bind (string_arg env r) (\<lambda>m. setError m s))
          else if code = ipc_code IPC_CMDR_TRX_CANCELLED then
            Some (-3, setErrorText TRANSACTION_CANCELLED_STRING s)
          else if code = ipc_code IPC_CMDR_RETRY_LATER then
            Some (-4, setErrorText RETRY_LATER_STRING s)
          else Some (-1, setErrorText ''server returned unexpected response'' s)
        })"

text \<open>What all requests do: construct, send and receive, look at the reply.\<close>

definition request_fd ::
  "'p comm_env \<Rightarrow> int \<Rightarrow> IPC_COMMAND_CODE \<Rightarrow> string option \<Rightarrow> ipc_val list \<Rightarrow> int \<Rightarrow> 'p comm \<Rightarrow>
     (int \<times> bytes option \<times> 'p comm) option" where
  "request_fd env fd code fmt vals expected s = do {
     scmd \<leftarrow> ipc_construct_cmd (calloc env) code fmt vals;
     (rcmd, s1) \<leftarrow> sendAndReceiveDataWithFd env fd scmd s;
     (rv, s2) \<leftarrow> handleBasicResponse env rcmd expected s1;
     Some (rv, rcmd, s2)
   }"

abbreviation request ::
  "'p comm_env \<Rightarrow> IPC_COMMAND_CODE \<Rightarrow> string option \<Rightarrow> ipc_val list \<Rightarrow> int \<Rightarrow> 'p comm \<Rightarrow>
     (int \<times> bytes option \<times> 'p comm) option" where
  "request env code fmt vals expected s \<equiv> request_fd env (csock s) code fmt vals expected s"

text \<open>Requests whose reply has no content.\<close>

definition simple_request ::
  "'p comm_env \<Rightarrow> IPC_COMMAND_CODE \<Rightarrow> string option \<Rightarrow> ipc_val list \<Rightarrow> 'p comm \<Rightarrow> (int \<times> 'p comm) option" where
  "simple_request env code fmt vals s =
     map_option (\<lambda>(rv, r, s1). (if rv \<ge> 0 then 0 else rv, s1)) (request env code fmt vals 0 (clearError s))"

text \<open>An accessor's result for the caller: its return value, and the value if it is 0.\<close>

definition arg_result :: "(int + 'a) option \<Rightarrow> (int \<times> 'a option) option" where
  "arg_result r = map_option (\<lambda>v. case v of Inl e \<Rightarrow> (e, None) | Inr x \<Rightarrow> (0, Some x)) r"

text \<open>Requests whose reply has one argument, read by \<open>get\<close>.\<close>

definition value_request ::
  "'p comm_env \<Rightarrow> (bytes \<Rightarrow> (int + 'a) option) \<Rightarrow> IPC_COMMAND_CODE \<Rightarrow> string option \<Rightarrow> ipc_val list \<Rightarrow> 'p comm \<Rightarrow>
     (int \<times> 'a option \<times> 'p comm) option" where
  "value_request env get code fmt vals s = do {
     (result, rcmd, s1) \<leftarrow> request env code fmt vals 1 (clearError s);
     if result \<ge> 0 then do {
       r \<leftarrow> rcmd;
       (rv, x) \<leftarrow> arg_result (get r);
       Some (rv, x, s1)
     } else Some (result, None, s1)
   }"

section \<open>The requests\<close>

definition comm_testCommand ::
  "'p comm_env \<Rightarrow> string option \<Rightarrow> 'p comm \<Rightarrow> (int \<times> string option \<times> 'p comm) option" where
  "comm_testCommand env question s =
     (case question of
        Some q \<Rightarrow> value_request env (\<lambda>r. ipc_cmd_get_string_arg (calloc env) r 0) IPC_CMDQ_TEST (Some ''x'') [VBlob q] s
      | None \<Rightarrow> value_request env (\<lambda>r. ipc_cmd_get_string_arg (calloc env) r 0) IPC_CMDQ_TEST None [] s)"

definition comm_clearGCode :: "'p comm_env \<Rightarrow> 'p comm \<Rightarrow> (int \<times> 'p comm) option" where
  "comm_clearGCode env s = simple_request env IPC_CMDQ_GCODE_CLEAR None [] s"

definition comm_startPrintGCode :: "'p comm_env \<Rightarrow> 'p comm \<Rightarrow> (int \<times> 'p comm) option" where
  "comm_startPrintGCode env s = simple_request env IPC_CMDQ_GCODE_STARTPRINT None [] s"

definition comm_stopPrintGCode :: "'p comm_env \<Rightarrow> string option \<Rightarrow> 'p comm \<Rightarrow> (int \<times> 'p comm) option" where
  "comm_stopPrintGCode env endCode s =
     simple_request env IPC_CMDQ_GCODE_STOPPRINT (Some ''x'')
       [VBlob (case endCode of None \<Rightarrow> [] | Some t \<Rightarrow> t)] s"

definition comm_sendGCodeFile :: "'p comm_env \<Rightarrow> string \<Rightarrow> 'p comm \<Rightarrow> (int \<times> 'p comm) option" where
  "comm_sendGCodeFile env file s = simple_request env IPC_CMDQ_GCODE_APPEND_FILE (Some ''x'') [VBlob file] s"

definition comm_getTemperature ::
  "'p comm_env \<Rightarrow> IPC_TEMPERATURE_PARAMETER \<Rightarrow> 'p comm \<Rightarrow> (int \<times> int option \<times> 'p comm) option" where
  "comm_getTemperature env which s =
     value_request env (\<lambda>r. ipc_cmd_get_short_arg (calloc env) r 0) IPC_CMDQ_GET_TEMPERATURE (Some ''w'')
       [VInt (ipc_temp which)] s"

definition comm_heatup :: "'p comm_env \<Rightarrow> int \<Rightarrow> 'p comm \<Rightarrow> (int \<times> 'p comm) option" where
  "comm_heatup env temperature s =
     map_option (\<lambda>(rv, r, s1). (rv, s1))
       (request env IPC_CMDQ_HEATUP (Some ''w'') [VInt temperature] 0 (clearError s))"

text \<open>The values of the reply, read as long as no accessor fails.\<close>

fun read_longs :: "'p comm_env \<Rightarrow> bytes \<Rightarrow> nat list \<Rightarrow> (int \<times> int list) option" where
  "read_longs env r [] = Some (0, [])"
| "read_longs env r (i # is) = do {
     v \<leftarrow> ipc_cmd_get_long_arg (calloc env) r i;
     case v of
       Inl e \<Rightarrow> Some (e, [])
     | Inr x \<Rightarrow> map_option (\<lambda>(rv, xs). (rv, x # xs)) (read_longs env r is)
   }"

definition comm_getProgress :: "'p comm_env \<Rightarrow> 'p comm \<Rightarrow> (int \<times> int list \<times> 'p comm) option" where
  "comm_getProgress env s = do {
     (result, rcmd, s1) \<leftarrow> request env IPC_CMDQ_GET_PROGRESS None [] 7 (clearError s);
     if result \<ge> 0 then do {
       r \<leftarrow> rcmd;
       (rv, xs) \<leftarrow> read_longs env r [0, 1, 2, 3, 4, 5, 6];
       Some (rv, xs, s1)
     } else Some (result, [], s1)
   }"

definition comm_getState :: "'p comm_env \<Rightarrow> 'p comm \<Rightarrow> (int \<times> string option \<times> 'p comm) option" where
  "comm_getState env s =
     value_request env (\<lambda>r. ipc_cmd_get_string_arg (calloc env) r 0) IPC_CMDQ_GET_STATE None [] s"

section \<open>Sending g-code in packets\<close>

record ipc_gcode_metadata_s =
  seq_number :: int
  seq_total :: int
  meta_source :: "string option"

text \<open>
  The walk back from the end of the largest packet to a newline: the length of the packet that ends
  with it.
\<close>

fun back_to_newline :: "string \<Rightarrow> nat \<Rightarrow> nat option" where
  "back_to_newline s 0 = None"
| "back_to_newline s (Suc k) = (if s ! k = NL then Some (Suc k) else back_to_newline s k)"

definition packet_len :: "string \<Rightarrow> nat option" where
  "packet_len rest =
     (if length rest \<le> MAX_PACKET_SIZE then Some (length rest) else back_to_newline rest MAX_PACKET_SIZE)"

lemma back_to_newline_Some:
  "back_to_newline s k = Some n \<Longrightarrow> 0 < n \<and> n \<le> k \<and> s ! (n - 1) = NL"
  by (induction k) (auto split: if_splits)

lemma packet_len_Some: "packet_len rest = Some n \<Longrightarrow> rest \<noteq> [] \<Longrightarrow> 0 < n \<and> n \<le> length rest \<and> n \<le> MAX_PACKET_SIZE"
  by (auto simp: packet_len_def split: if_splits dest: back_to_newline_Some)

definition trx_bits :: "nat \<Rightarrow> bool \<Rightarrow> 16 word" where
  "trx_bits packetNum is_last =
     (let b = (if packetNum = 0 then 0 OR TRX_FIRST_CHUNK_BIT else 0) in if is_last then b OR TRX_LAST_CHUNK_BIT else b)"

definition send_packet ::
  "'p comm_env \<Rightarrow> int \<Rightarrow> ipc_gcode_metadata_s option \<Rightarrow> string \<Rightarrow> 16 word \<Rightarrow> 'p comm \<Rightarrow> (int \<times> 'p comm) option" where
  "send_packet env totalLines metadata packet bits s =
     (let seq_num = (case metadata of Some m \<Rightarrow> seq_number m | None \<Rightarrow> -1);
          seq_ttl = (case metadata of Some m \<Rightarrow> seq_total m | None \<Rightarrow> -1);
          vals = [VBlob packet, VInt (sint bits), VInt totalLines, VInt seq_num, VInt seq_ttl]
      in map_option (\<lambda>(rv, r, s1). (rv, s1))
           (case Option.bind metadata meta_source of
              None \<Rightarrow> request env IPC_CMDQ_GCODE_APPEND (Some ''xwWWW'') vals 0 s
            | Some src \<Rightarrow> request env IPC_CMDQ_GCODE_APPEND (Some ''xwWWWs'') (vals @ [VStr src]) 0 s))"

text \<open>
  The loop over the packets: only a result of -1 ends it, another failure is kept for the end.
\<close>

function send_packets ::
  "'p comm_env \<Rightarrow> int \<Rightarrow> ipc_gcode_metadata_s option \<Rightarrow> nat \<Rightarrow> int \<Rightarrow> string \<Rightarrow> 'p comm \<Rightarrow> (int \<times> 'p comm) option" where
  "send_packets env totalLines metadata packetNum rv rest s =
     (if rest = [] then Some (rv, s)
      else case packet_len rest of
        None \<Rightarrow> Some (-1, s)
      | Some n \<Rightarrow>
          Option.bind (send_packet env totalLines metadata (take n rest) (trx_bits packetNum (n = length rest)) s)
            (\<lambda>(result, s1).
               let rv1 = (if result \<ge> 0 then rv else result)
               in if rv1 = -1 then Some (-1, s1)
                  else send_packets env totalLines metadata (packetNum + 1) rv1 (drop n rest) s1))"
  by pat_completeness auto
termination
  by (relation "measure (\<lambda>(env, t, m, k, rv, rest, s). length rest)") (auto dest: packet_len_Some)

declare send_packets.simps [simp del]

definition comm_sendGCodeData ::
  "'p comm_env \<Rightarrow> string \<Rightarrow> int \<Rightarrow> ipc_gcode_metadata_s option \<Rightarrow> 'p comm \<Rightarrow> (int \<times> 'p comm) option" where
  "comm_sendGCodeData env gcode totalLines metadata s =
     send_packets env totalLines metadata 0 0 (cstr gcode) (clearError s)"

section \<open>The built-in test\<close>

text \<open>
  Appending to a block of \<open>cap\<close> bytes that holds a C string: with its NUL it must still fit.
\<close>

definition strcat_in :: "nat \<Rightarrow> string \<Rightarrow> string \<Rightarrow> string option" where
  "strcat_in cap out t = (if length out + length t + 1 > cap then None else Some (out @ t))"

text \<open>One step: its number, the connection, the command, and the results that count as passed.\<close>

definition trx_test ::
  "'p comm_env \<Rightarrow> char \<Rightarrow> int \<Rightarrow> IPC_COMMAND_CODE \<Rightarrow> string \<Rightarrow> ipc_val list \<Rightarrow> (int \<Rightarrow> bool) \<Rightarrow>
     string \<times> 'p comm \<Rightarrow> (string \<times> 'p comm) option" where
  "trx_test env nr fd code fmt vals ok = (\<lambda>(out, s). do {
     (rv, r, s1) \<leftarrow> request_fd env fd code (Some fmt) vals 0 s;
     out1 \<leftarrow> strcat_in (6 * 2 + 1) out [nr, if ok rv then CHR ''+'' else CHR ''-''];
     Some (out1, s1)
   })"

definition comm_testTransactions ::
  "'p comm_env \<Rightarrow> string option \<Rightarrow> 'p comm \<Rightarrow> (int \<times> string \<times> 'p comm) option" where
  "comm_testTransactions env deviceId s = do {
     (fd1, p1) \<leftarrow> openSocketInternal env deviceId (peer s);
     (fd2, p2) \<leftarrow> openSocketInternal env deviceId p1;
     let append = (\<lambda>nr fd text bits. trx_test env nr fd IPC_CMDQ_GCODE_APPEND ''xw''
                     [VBlob text, VInt (sint (bits :: 16 word))]);
     r0 \<leftarrow> append (CHR ''0'') fd1 ''123'' TRX_FIRST_CHUNK_BIT (\<lambda>rv. rv \<ge> 0) ([], s\<lparr>peer := p2\<rparr>);
     r1 \<leftarrow> trx_test env (CHR ''1'') fd1 IPC_CMDQ_GCODE_APPEND_FILE ''x'' [VBlob ''/tmp/i.dont.exist''] (\<lambda>rv. rv = -3) r0;
     r2 \<leftarrow> append (CHR ''2'') fd1 ''456'' 0 (\<lambda>rv. rv \<ge> 0) r1;
     r3 \<leftarrow> append (CHR ''3'') fd2 ''789'' TRX_FIRST_CHUNK_BIT (\<lambda>rv. rv \<ge> 0) r2;
     r4 \<leftarrow> append (CHR ''4'') fd1 ''789'' TRX_LAST_CHUNK_BIT (\<lambda>rv. rv \<ge> 0) r3;
     r5 \<leftarrow> trx_test env (CHR ''5'') fd1 IPC_CMDQ_GCODE_STOPPRINT ''x'' [VBlob ''stop_gcode''] (\<lambda>rv. rv \<ge> 0) r4;
     (out, s6) \<leftarrow> append (CHR ''6'') fd2 ''456'' 0 (\<lambda>rv. rv = -2) r5;
     let (c1, p3) = os_close env fd1 (peer s6);
     let (c2, p4) = os_close env fd2 p3;
     Some (0, out, s6\<lparr>peer := p4\<rparr>)
   }"

section \<open>The packets of a text\<close>

function packets :: "string \<Rightarrow> string list option" where
  "packets rest =
     (if rest = [] then Some []
      else case packet_len rest of
        None \<Rightarrow> None
      | Some n \<Rightarrow> map_option ((#) (take n rest)) (packets (drop n rest)))"
  by pat_completeness auto
termination
  by (relation "measure length") (auto dest: packet_len_Some)

declare packets.simps [simp del]

lemma packets_Nil [simp]: "packets [] = Some []"
  by (simp add: packets.simps)

lemma packets_step:
  "rest \<noteq> [] \<Longrightarrow> packets rest = Some ps \<longleftrightarrow>
     (\<exists>n qs. packet_len rest = Some n \<and> packets (drop n rest) = Some qs \<and> ps = take n rest # qs)"
  by (subst packets.simps) (auto split: option.split)

lemma packet_ends_line:
  assumes "packet_len rest = Some n" "n \<noteq> length rest"
  shows "last (take n rest) = NL"
proof -
  have b: "back_to_newline rest MAX_PACKET_SIZE = Some n" "\<not> length rest \<le> MAX_PACKET_SIZE"
    using assms by (auto simp: packet_len_def split: if_splits)
  then have n: "0 < n" "n \<le> MAX_PACKET_SIZE" "rest ! (n - 1) = NL" using back_to_newline_Some by auto
  moreover have "last (take n rest) = rest ! (n - 1)"
    using n b(2) by (subst last_conv_nth) auto
  ultimately show ?thesis by simp
qed

lemma packets_spec:
  "packets rest = Some ps \<Longrightarrow> concat ps = rest \<and> (\<forall>p \<in> set ps. p \<noteq> [] \<and> length p \<le> MAX_PACKET_SIZE) \<and>
     (\<forall>p \<in> set (butlast ps). last p = NL)"
proof (induction rest arbitrary: ps rule: packets.induct)
  case (1 rest)
  show ?case
  proof (cases "rest = []")
    case True
    with 1 show ?thesis by simp
  next
    case False
    with "1.prems" obtain n qs where n: "packet_len rest = Some n" and q: "packets (drop n rest) = Some qs"
      and ps: "ps = take n rest # qs"
      by (auto simp: packets_step)
    note IH = "1.IH" [OF False n q]
    have len: "0 < n" "n \<le> length rest" "n \<le> MAX_PACKET_SIZE" using packet_len_Some [OF n False] by auto
    have "qs \<noteq> [] \<Longrightarrow> last (take n rest) = NL"
      using packet_ends_line [OF n] q by (cases "n = length rest") auto
    with IH ps len False show ?thesis by auto
  qed
qed

text \<open>A line that does not fit: its first bytes fill a packet and it goes on.\<close>

definition long_line :: "string \<Rightarrow> bool" where
  "long_line s \<longleftrightarrow> (\<exists>u l v. s = u @ l @ v \<and> (u = [] \<or> last u = NL) \<and> NL \<notin> set l \<and>
     length l = MAX_PACKET_SIZE \<and> v \<noteq> [])"

lemma back_to_newline_None: "k \<le> length s \<Longrightarrow> back_to_newline s k = None \<longleftrightarrow> NL \<notin> set (take k s)"
  by (induction k) (auto simp: take_Suc_conv_app_nth)

lemma back_to_newline_last:
  "k \<le> length s \<Longrightarrow> back_to_newline s k = Some n \<Longrightarrow> NL \<notin> set (drop n (take k s))"
proof (induction k)
  case (Suc k)
  then show ?case
    by (auto simp: take_Suc_conv_app_nth split: if_splits dest: back_to_newline_Some)
qed simp

lemma packet_len_None: "packet_len s = None \<longleftrightarrow> MAX_PACKET_SIZE < length s \<and> NL \<notin> set (take MAX_PACKET_SIZE s)"
  by (auto simp: packet_len_def back_to_newline_None)

lemma long_line_drop:
  assumes n: "packet_len s = Some n" and s: "s \<noteq> []"
  shows "long_line s \<longleftrightarrow> long_line (drop n s)"
proof (cases "n = length s")
  case True
  have "length s \<le> MAX_PACKET_SIZE" using True packet_len_Some [OF n s] by simp
  then have "\<not> long_line s" by (auto simp: long_line_def)
  moreover have "\<not> long_line []" by (auto simp: long_line_def MAX_PACKET_SIZE_def)
  ultimately show ?thesis using True by simp
next
  case False
  have len: "0 < n" "n \<le> length s" "n \<le> MAX_PACKET_SIZE" using packet_len_Some [OF n s] by auto
  have big: "MAX_PACKET_SIZE < length s" and bk: "back_to_newline s MAX_PACKET_SIZE = Some n"
    using n False by (auto simp: packet_len_def split: if_splits)
  have nl: "last (take n s) = NL" by (rule packet_ends_line [OF n False])
  show ?thesis
  proof
    assume "long_line (drop n s)"
    then obtain u l v where 1: "drop n s = u @ l @ v" "u = [] \<or> last u = NL" "NL \<notin> set l"
      "length l = MAX_PACKET_SIZE" "v \<noteq> []" by (auto simp: long_line_def)
    have "s = (take n s @ u) @ l @ v" using 1(1) by (metis append.assoc append_take_drop_id)
    moreover have "last (take n s @ u) = NL" using 1(2) nl by (cases "u = []") auto
    ultimately show "long_line s" unfolding long_line_def using 1 by blast
  next
    assume "long_line s"
    then obtain u l v where 1: "s = u @ l @ v" "u = [] \<or> last u = NL" "NL \<notin> set l"
      "length l = MAX_PACKET_SIZE" "v \<noteq> []" by (auto simp: long_line_def)
    have "n \<le> length u"
    proof (rule ccontr)
      assume "\<not> n \<le> length u"
      then have "s ! (n - 1) = l ! (n - 1 - length u)" using 1(1,4) len
        by (auto simp: nth_append)
      moreover have "s ! (n - 1) = NL" using back_to_newline_Some [OF bk] by simp
      moreover have "n - 1 - length u < length l" using 1(4) len \<open>\<not> n \<le> length u\<close> by arith
      ultimately show False using 1(3) by (metis nth_mem)
    qed
    then have "drop n s = drop n u @ l @ v" using 1(1) by simp
    moreover have "drop n u = [] \<or> last (drop n u) = NL" using 1(2) \<open>n \<le> length u\<close>
      by (cases "n = length u") (auto simp: last_drop)
    ultimately show "long_line (drop n s)" unfolding long_line_def using 1 by blast
  qed
qed

lemma packets_None: "packets rest = None \<longleftrightarrow> long_line rest"
proof (induction rest rule: packets.induct)
  case (1 rest)
  show ?case
  proof (cases "rest = []")
    case True
    then show ?thesis by (auto simp: long_line_def MAX_PACKET_SIZE_def)
  next
    case False
    show ?thesis
    proof (cases "packet_len rest")
      case None
      then have "rest = [] @ take MAX_PACKET_SIZE rest @ drop MAX_PACKET_SIZE rest"
        "NL \<notin> set (take MAX_PACKET_SIZE rest)" "length (take MAX_PACKET_SIZE rest) = MAX_PACKET_SIZE"
        "drop MAX_PACKET_SIZE rest \<noteq> []"
        by (auto simp: packet_len_None)
      then have "long_line rest" unfolding long_line_def by blast
      with None False show ?thesis by (subst packets.simps) simp
    next
      case (Some n)
      with "1.IH" [OF False Some] long_line_drop [OF Some False] False show ?thesis
        by (subst packets.simps) simp
    qed
  qed
qed

end
