(* ===== verification/EndToEnd.thy ===== *)
theory EndToEnd
  imports ServerAppend Communicator MarlinProtocol
begin

text \<open>
  Both ends of the connection together: the functions of \<open>communicator.c\<close> with the model of
  the server as the process at the other end, and the Marlin driver behind it.
\<close>

section \<open>The server as the peer\<close>

text \<open>
  The bytes of a command reach the main loop in pieces \<open>pieces b\<close>, one per iteration, and the
  reply is what the server has sent to this client since. A server that is gone closes the
  connection.
\<close>

definition deliver ::
  "'a AbstractDriver_scheme env \<Rightarrow> (bytes \<Rightarrow> bytes list) \<Rightarrow> nat \<Rightarrow> bytes \<Rightarrow> 'a AbstractDriver_scheme Server \<Rightarrow>
     'a AbstractDriver_scheme Server option" where
  "deliver env pieces i b s = fold_option (\<lambda>s p. clients_loop env (\<lambda>_. [RdData p]) 1 i s) s (pieces b)"

definition server_exchange ::
  "'a AbstractDriver_scheme env \<Rightarrow> (bytes \<Rightarrow> bytes list) \<Rightarrow> nat \<Rightarrow> int \<Rightarrow> bytes \<Rightarrow>
     'a AbstractDriver_scheme Server option \<Rightarrow> int \<times> bytes \<times> 'a AbstractDriver_scheme Server option" where
  "server_exchange env pieces i fd b ps =
     (case ps of
        None \<Rightarrow> (-1, [], None)
      | Some s \<Rightarrow> (case deliver env pieces i b s of
            None \<Rightarrow> (int (length b), [], None)
          | Some s' \<Rightarrow> (int (length b),
              take READ_BUF_SIZE (concat (drop (length (csent (clients s ! i))) (csent (clients s' ! i)))), Some s')))"

definition good_cut :: "(bytes \<Rightarrow> bytes list) \<Rightarrow> bool" where
  "good_cut pieces \<longleftrightarrow> (\<forall>b. concat (pieces b) = b \<and> (\<forall>p \<in> set (pieces b). p \<noteq> [] \<and> length p \<le> READ_BUF_SIZE))"

text \<open>The front-end's environment: its own memory, and this server at the other end.\<close>

definition serves :: "'a AbstractDriver_scheme env \<Rightarrow> (bytes \<Rightarrow> bytes list) \<Rightarrow> nat \<Rightarrow>
    'a AbstractDriver_scheme Server option comm_env \<Rightarrow> bool" where
  "serves env pieces i cenv \<longleftrightarrow> calm env \<and> good_cut pieces \<and> \<not> cbulk cenv \<and> (\<forall>n > 0. calloc cenv n) \<and>
     exchange cenv = server_exchange env pieces i"

text \<open>The client's entry in the server between two requests.\<close>

definition idle_client :: "nat \<Rightarrow> 'a AbstractDriver_scheme Server \<Rightarrow> bool" where
  "idle_client i s \<longleftrightarrow> i < length (clients s) \<and> cfd (clients s ! i) \<noteq> -1 \<and> cbuffer (clients s ! i) = []"

lemma deliver_command:
  assumes "calm env" "good_cut pieces" "is_cmd b" "idle_client i s"
  shows "deliver env pieces i b s = runCommand env i b s"
proof -
  have i: "i < length (clients s)" "set_buf i [] s = s"
    using assms(4) set_buf_same [of i s] by (auto simp: idle_client_def)
  have pieces: "concat (pieces b) = concat [b]" "\<forall>p \<in> set (pieces b). p \<noteq> [] \<and> length p \<le> READ_BUF_SIZE"
    using assms(2) by (auto simp: good_cut_def)
  note calm = calmD [OF assms(1)]
  have "deliver env pieces i b (set_buf i [] s) = map_option (\<lambda>(s', b'). set_buf i b' s')
      (feed ipc_cmd_is_complete (\<lambda>s f. runCommand env i f s) s [] (pieces b))"
    unfolding deliver_def by (rule receive_pieces [OF calm i(1) pieces(2)])
  also have "feed ipc_cmd_is_complete (\<lambda>s f. runCommand env i f s) s [] (pieces b) =
      map_option (\<lambda>s'. (s', [])) (fold_option (\<lambda>s f. runCommand env i f s) s [b])"
    by (rule feed_commands) (use assms(3) pieces(1) runCommand_tail [OF _ calm(1)] in auto)
  also have "map_option (\<lambda>(s', b'). set_buf i b' s') \<dots> = map_option (set_buf i []) (runCommand env i b s)"
    by (cases "runCommand env i b s") simp_all
  also have "\<dots> = runCommand env i b s"
    using runCommand_set_buf [OF calm(1), of i b "[]" s] i(2) by simp
  finally show ?thesis by (simp add: i(2))
qed

text \<open>One exchange: the command is run, and the messages it sends to this client come back.\<close>

lemma server_exchange_command:
  assumes "serves env pieces i cenv" "is_cmd b" "idle_client i s" "runCommand env i b s = Some s'"
    and "csent (clients s' ! i) = csent (clients s ! i) @ [r]" "length r \<le> READ_BUF_SIZE"
  shows "exchange cenv fd b (Some s) = (int (length b), r, Some s')"
proof -
  have "deliver env pieces i b s = Some s'"
    using deliver_command [OF _ _ assms(2,3), of env pieces] assms(1,4) by (simp add: serves_def)
  then show ?thesis
    using assms(1,5,6) by (simp add: serves_def server_exchange_def)
qed

text \<open>And the front-end's view of it.\<close>

lemma request_served:
  assumes "serves env pieces i cenv" "0 \<le> fd" "idle_client i s"
    and "ipc_construct_cmd (calloc cenv) code fmt vals = Some (Some b)" "is_cmd b"
    and "runCommand env i b s = Some s'" "csent (clients s' ! i) = csent (clients s ! i) @ [r]"
    and "r \<noteq> []" "length r \<le> READ_BUF_SIZE" "peer c = Some s"
  shows "request_fd cenv fd code fmt vals expected c =
    Option.bind (handleBasicResponse cenv (Some r) expected (c\<lparr>peer := Some s'\<rparr>)) (\<lambda>(rv, c1). Some (rv, Some r, c1))"
proof -
  have "\<not> cbulk cenv" using assms(1) by (simp add: serves_def)
  then show ?thesis
    using server_exchange_command [OF assms(1,5,3,6,7,9), of fd] assms(2,4,8,10)
    by (simp add: request_fd_def sendAndReceiveDataWithFd_def log_ipc_cmd_def)
qed

section \<open>Sending g-code\<close>

lemma reply_read:
  assumes "\<not> cbulk cenv" "\<And>n. 0 < n \<Longrightarrow> calloc cenv n"
  shows "handleBasicResponse cenv (Some ok_reply) 0 c = Some (0, c)"
    "handleBasicResponse cenv (Some (append_reply gsr)) 0 c =
       Some (if gsr = GSR_OK then (0, c) else (-2, c\<lparr>cerror := Some (getGcodeSetResultString gsr)\<rparr>))"
proof -
  have ok: "ipc_cmd_get ok_reply = 0xE0" "ipc_cmd_num_args ok_reply = 0"
    using ipc_cmd_get_encode [of "0xE0" "[]" "[]"] ipc_cmd_num_args_encode [of "[]" "0xE0" "[]"]
    by (simp_all add: ok_reply_def)
  show 1: "handleBasicResponse cenv (Some ok_reply) 0 c = Some (0, c)"
    using assms(1) by (simp add: handleBasicResponse_def log_ipc_cmd_def ok)
  let ?t = "getGcodeSetResultString gsr" and ?c = "ipc_code IPC_CMDR_GCODE_ADD_FAILED"
  have w: "wf_cmd ?c [?t]" by (cases gsr) (simp_all add: wf_cmd_def)
  have get: "ipc_cmd_get (text_reply IPC_CMDR_GCODE_ADD_FAILED ?t) = 0xE3"
    using ipc_cmd_get_encode [of ?c "[?t]" "[]"] by (simp add: text_reply_def)
  have str: "string_arg cenv (text_reply IPC_CMDR_GCODE_ADD_FAILED ?t) = Some (cstr ?t)"
    using get_string_arg_encode [OF w, of 0 "calloc cenv" "[]"] assms(2) by (simp add: string_arg_def text_reply_def)
  have fmt: "format_text (cstr ?t) = Some ?t"
    by (cases gsr) (simp_all add: cstr_def)
  show "handleBasicResponse cenv (Some (append_reply gsr)) 0 c =
       Some (if gsr = GSR_OK then (0, c) else (-2, c\<lparr>cerror := Some (getGcodeSetResultString gsr)\<rparr>))"
  proof (cases "gsr = GSR_OK")
    case True
    then show ?thesis by (simp add: append_reply_def 1)
  next
    case False
    with assms(1) show ?thesis
      by (simp add: append_reply_def handleBasicResponse_def log_ipc_cmd_def get str fmt setError_def)
  qed
qed

text \<open>The arguments of a packet are those of an append command.\<close>

definition md_num :: "ipc_gcode_metadata_s option \<Rightarrow> int" where
  "md_num m = (case m of Some x \<Rightarrow> seq_number x | None \<Rightarrow> -1)"

definition md_ttl :: "ipc_gcode_metadata_s option \<Rightarrow> int" where
  "md_ttl m = (case m of Some x \<Rightarrow> seq_total x | None \<Rightarrow> -1)"

definition md_src :: "ipc_gcode_metadata_s option \<Rightarrow> string option" where
  "md_src m = map_option cstr (Option.bind m meta_source)"

lemma trx_bits_flags: "trx_bits k is_last = word_of_int (chunk_flags (k = 0) is_last)"
  by (cases "k = 0"; cases is_last; simp add: trx_bits_def chunk_flags_def TRX_FIRST_CHUNK_BIT_def TRX_LAST_CHUNK_BIT_def)

abbreviation packet_cmd :: "int \<Rightarrow> ipc_gcode_metadata_s option \<Rightarrow> string \<Rightarrow> int \<Rightarrow> bytes" where
  "packet_cmd tot m t k \<equiv> append_cmd t k tot (md_num m) (md_ttl m) (md_src m)"

lemma send_packet_request:
  assumes "\<And>n. 0 < n \<Longrightarrow> calloc cenv n" "append_fits t tot (md_num m) (md_ttl m) (md_src m)"
  shows "\<exists>fmt vals. ipc_construct_cmd (calloc cenv) IPC_CMDQ_GCODE_APPEND fmt vals =
      Some (Some (packet_cmd tot m t (chunk_flags (k = 0) is_last))) \<and>
    send_packet cenv tot m t (trx_bits k is_last) c =
      map_option (\<lambda>(rv, r, s1). (rv, s1)) (request cenv IPC_CMDQ_GCODE_APPEND fmt vals 0 c)"
proof -
  let ?b = "trx_bits k is_last"
  let ?vals = "[VBlob t, VInt (sint ?b), VInt tot, VInt (md_num m), VInt (md_ttl m)]"
  have w: "(word_of_int (sint ?b) :: 16 word) = word_of_int (chunk_flags (k = 0) is_last)"
    by (simp add: trx_bits_flags)
  show ?thesis
  proof (cases "Option.bind m meta_source")
    case None
    have "arg_bytes ''xwWWW'' ?vals = Some (append_args t (chunk_flags (k = 0) is_last) tot (md_num m) (md_ttl m) (md_src m))"
      using None w by (simp add: append_args_def md_src_def)
    with construct_encode [where al = "calloc cenv" and fmt = "''xwWWW''" and c = IPC_CMDQ_GCODE_APPEND] assms(1)
    have "ipc_construct_cmd (calloc cenv) IPC_CMDQ_GCODE_APPEND (Some ''xwWWW'') ?vals =
        Some (Some (packet_cmd tot m t (chunk_flags (k = 0) is_last)))"
      by (simp add: append_cmd_def append_args_def split: option.split)
    then show ?thesis
      using None by (intro exI [of _ "Some ''xwWWW''"] exI [of _ ?vals])
        (simp add: send_packet_def md_num_def md_ttl_def)
  next
    case (Some src)
    have "arg_bytes ''xwWWWs'' (?vals @ [VStr src]) =
        Some (append_args t (chunk_flags (k = 0) is_last) tot (md_num m) (md_ttl m) (md_src m))"
      using Some w by (simp add: append_args_def md_src_def)
    with construct_encode [where al = "calloc cenv" and fmt = "''xwWWWs''" and c = IPC_CMDQ_GCODE_APPEND] assms(1)
    have "ipc_construct_cmd (calloc cenv) IPC_CMDQ_GCODE_APPEND (Some ''xwWWWs'') (?vals @ [VStr src]) =
        Some (Some (packet_cmd tot m t (chunk_flags (k = 0) is_last)))"
      by (simp add: append_cmd_def append_args_def split: option.split)
    then show ?thesis
      using Some by (intro exI [of _ "Some ''xwWWWs''"] exI [of _ "?vals @ [VStr src]"])
        (simp add: send_packet_def md_num_def md_ttl_def)
  qed
qed

definition sent_by :: "nat \<Rightarrow> 'a AbstractDriver_scheme Server \<Rightarrow> bytes list" where
  "sent_by i s = csent (clients s ! i)"

lemma ok_reply_short: "ok_reply \<noteq> [] \<and> length ok_reply \<le> READ_BUF_SIZE"
  by (simp add: ok_reply_def encode_def store_ns_def READ_BUF_SIZE_def)

lemma append_reply_short: "append_reply gsr \<noteq> [] \<and> length (append_reply gsr) \<le> READ_BUF_SIZE"
  using ok_reply_short by (cases gsr) (simp_all add: append_reply_def text_reply_def encode_def store_ns_def store_nl_def READ_BUF_SIZE_def)

text \<open>A packet that is not the last one.\<close>

lemma send_packet_middle:
  fixes k :: nat
  assumes "serves env pieces i cenv" "0 \<le> csock c" "peer c = Some s" "idle_client i s" "\<not> cancelled (trx_of i s)"
    and fits: "append_fits t tot (md_num m) (md_ttl m) (md_src m)"
  defines "s1 \<equiv> push_sent i [ok_reply] (upd_client i (upd_trx (\<lambda>x.
      x\<lparr>tbuffer := (if k = 0 then [] else tbuffer (trx_of i s)) @ cstr t, active := active x \<or> k = 0\<rparr>)) s)"
  shows "send_packet cenv tot m t (trx_bits k False) c = Some (0, c\<lparr>peer := Some s1\<rparr>)"
    "idle_client i s1" "\<not> cancelled (trx_of i s1)" "sdriver s1 = sdriver s"
    "tbuffer (trx_of i s1) = (if k = 0 then [] else tbuffer (trx_of i s)) @ cstr t"
proof -
  have calm: "calm env" and al: "\<And>n. 0 < n \<Longrightarrow> calloc cenv n" and bulk: "\<not> cbulk cenv"
    using assms(1) by (auto simp: serves_def)
  have i: "i < length (clients s)" "cfd (clients s ! i) \<noteq> -1" "cbuffer (clients s ! i) = []"
    using assms(4) by (simp_all add: idle_client_def)
  have run: "runCommand env i (packet_cmd tot m t (chunk_flags (k = 0) False)) s = Some s1"
    using append_piece [OF calm fits chunk_flags_bits(3,4) i(1,2) assms(5), of "k = 0" False] by (simp add: s1_def)
  have sent: "csent (clients s1 ! i) = csent (clients s ! i) @ [ok_reply]"
    using i(1) by (simp add: s1_def push_sent_def upd_client_twice nth_upd_client upd_trx_def)
  obtain fmt vals where f: "ipc_construct_cmd (calloc cenv) IPC_CMDQ_GCODE_APPEND fmt vals =
      Some (Some (packet_cmd tot m t (chunk_flags (k = 0) False)))"
    and send: "send_packet cenv tot m t (trx_bits k False) c =
      map_option (\<lambda>(rv, r, s1). (rv, s1)) (request cenv IPC_CMDQ_GCODE_APPEND fmt vals 0 c)"
    using send_packet_request [OF al fits, of k False c] by auto
  have "request cenv IPC_CMDQ_GCODE_APPEND fmt vals 0 c = Some (0, Some ok_reply, c\<lparr>peer := Some s1\<rparr>)"
    using request_served [OF assms(1,2,4) f append_is_cmd [OF fits] run sent _ _ assms(3)] ok_reply_short
      reply_read(1) [OF bulk al] by simp
  then show "send_packet cenv tot m t (trx_bits k False) c = Some (0, c\<lparr>peer := Some s1\<rparr>)"
    using send by simp
  show "idle_client i s1" "\<not> cancelled (trx_of i s1)" "sdriver s1 = sdriver s"
    "tbuffer (trx_of i s1) = (if k = 0 then [] else tbuffer (trx_of i s)) @ cstr t"
    using i assms(5) by (simp_all add: s1_def push_sent_def upd_client_twice nth_upd_client upd_trx_def idle_client_def)
qed

text \<open>The last packet: the driver gets the text, and its answer comes back.\<close>

definition outcome_of :: "GCODE_SET_RESULT \<Rightarrow> 'p comm \<Rightarrow> int \<times> 'p comm" where
  "outcome_of gsr c = (if gsr = GSR_OK then (0, c) else (-2, c\<lparr>cerror := Some (getGcodeSetResultString gsr)\<rparr>))"

lemma send_packet_last:
  fixes k :: nat
  assumes "serves env pieces i cenv" "0 \<le> csock c" "peer c = Some s" "idle_client i s" "\<not> cancelled (trx_of i s)"
    and fits: "append_fits t tot (md_num m) (md_ttl m) (md_src m)"
    and d: "sdriver s = Some d" "op_append (ops env) ((if k = 0 then [] else tbuffer (trx_of i s)) @ cstr t) tot
      (Some (meta (md_num m) (md_ttl m) (md_src m))) d = Some (gsr, d1)"
  shows "send_packet cenv tot m t (trx_bits k True) c = Some (outcome_of gsr
    (c\<lparr>peer := Some (push_sent i [append_reply gsr] (close_trx i (s\<lparr>sdriver := Some d1\<rparr>)))\<rparr>))"
proof -
  let ?s1 = "push_sent i [append_reply gsr] (close_trx i (s\<lparr>sdriver := Some d1\<rparr>))"
  have calm: "calm env" and al: "\<And>n. 0 < n \<Longrightarrow> calloc cenv n" and bulk: "\<not> cbulk cenv"
    using assms(1) by (auto simp: serves_def)
  have i: "i < length (clients s)" "cfd (clients s ! i) \<noteq> -1"
    using assms(4) by (simp_all add: idle_client_def)
  have run: "runCommand env i (packet_cmd tot m t (chunk_flags (k = 0) True)) s = Some ?s1"
    using append_piece [OF calm fits chunk_flags_bits(3,4) i assms(5), of "k = 0" True] d
    by (simp add: close_trx_def)
  have sent: "csent (clients ?s1 ! i) = csent (clients s ! i) @ [append_reply gsr]"
    using i(1) by (simp add: push_sent_def close_trx_def upd_client_twice nth_upd_client upd_trx_def)
  obtain fmt vals where f: "ipc_construct_cmd (calloc cenv) IPC_CMDQ_GCODE_APPEND fmt vals =
      Some (Some (packet_cmd tot m t (chunk_flags (k = 0) True)))"
    and send: "send_packet cenv tot m t (trx_bits k True) c =
      map_option (\<lambda>(rv, r, s1). (rv, s1)) (request cenv IPC_CMDQ_GCODE_APPEND fmt vals 0 c)"
    using send_packet_request [OF al fits, of k True c] by auto
  have "request cenv IPC_CMDQ_GCODE_APPEND fmt vals 0 c =
      (case outcome_of gsr (c\<lparr>peer := Some ?s1\<rparr>) of (rv, c1) \<Rightarrow> Some (rv, Some (append_reply gsr), c1))"
    using request_served [OF assms(1,2,4) f append_is_cmd [OF fits] run sent _ _ assms(3)] append_reply_short [of gsr]
      reply_read(2) [OF bulk al, of gsr] by (simp add: outcome_of_def)
  then show ?thesis
    using send by (simp add: outcome_of_def)
qed

lemma send_packets_served:
  assumes "serves env pieces i cenv" "0 \<le> csock c"
  shows "packets rest = Some ps \<Longrightarrow> rest \<noteq> [] \<Longrightarrow> NUL \<notin> set rest \<Longrightarrow>
    peer c = Some s \<Longrightarrow> idle_client i s \<Longrightarrow> \<not> cancelled (trx_of i s) \<Longrightarrow>
    in_range 32 tot \<Longrightarrow> in_range 32 (md_num m) \<Longrightarrow> in_range 32 (md_ttl m) \<Longrightarrow>
    (\<forall>t. md_src m = Some t \<longrightarrow> length t < 4294967296) \<Longrightarrow> sdriver s = Some d \<Longrightarrow>
    op_append (ops env) ((if k = 0 then [] else tbuffer (trx_of i s)) @ rest) tot
      (Some (meta (md_num m) (md_ttl m) (md_src m))) d = Some (gsr, d1) \<Longrightarrow>
    send_packets cenv tot m k 0 rest c = Some (outcome_of gsr
      (c\<lparr>peer := Some (push_sent i (replicate (length ps - 1) ok_reply @ [append_reply gsr])
        (close_trx i (s\<lparr>sdriver := Some d1\<rparr>)))\<rparr>))"
  using assms(2)
proof (induction ps arbitrary: rest c s k)
  case Nil
  then show ?case by (auto dest: packets_spec)
next
  case (Cons p ps)
  obtain n where n: "packet_len rest = Some n" "packets (drop n rest) = Some ps" "p = take n rest"
    using Cons.prems(1,2) by (auto simp: packets_step)
  have len: "0 < n" "n \<le> length rest" "n \<le> MAX_PACKET_SIZE" using packet_len_Some [OF n(1) Cons.prems(2)] by auto
  have no0: "NUL \<notin> set (take n rest)" "NUL \<notin> set (drop n rest)"
    using Cons.prems(3) by (auto dest: in_set_takeD in_set_dropD)
  have cs: "cstr (take n rest) = take n rest" by (rule cstr_no_NUL [OF no0(1)])
  have fits: "append_fits (take n rest) tot (md_num m) (md_ttl m) (md_src m)"
    using Cons.prems(7-10) len by (simp add: append_fits_def MAX_PACKET_SIZE_def)
  show ?case
  proof (cases "n = length rest")
    case True
    then have ps: "ps = []" using n(2) by simp
    have "send_packet cenv tot m (take n rest) (trx_bits k True) c = Some (outcome_of gsr
      (c\<lparr>peer := Some (push_sent i [append_reply gsr] (close_trx i (s\<lparr>sdriver := Some d1\<rparr>)))\<rparr>))"
      using True Cons.prems(12) cs
      by (intro send_packet_last [OF assms(1) Cons.prems(13,4-6) fits Cons.prems(11)]) simp
    then show ?thesis
      using Cons.prems(2) n True ps
      by (subst send_packets.simps) (auto simp: outcome_of_def send_packets.simps)
  next
    case False
    then have rest': "drop n rest \<noteq> []" using len by simp
    let ?b = "(if k = 0 then [] else tbuffer (trx_of i s)) @ cstr (take n rest)"
    let ?s1 = "push_sent i [ok_reply] (upd_client i (upd_trx (\<lambda>x. x\<lparr>tbuffer := ?b, active := active x \<or> k = 0\<rparr>)) s)"
    note mid = send_packet_middle [OF assms(1) Cons.prems(13,4-6) fits, of k]
    have i: "i < length (clients s)" using Cons.prems(5) by (simp add: idle_client_def)
    have "send_packets cenv tot m (k + 1) 0 (drop n rest) (c\<lparr>peer := Some ?s1\<rparr>) = Some (outcome_of gsr
      ((c\<lparr>peer := Some ?s1\<rparr>)\<lparr>peer := Some (push_sent i (replicate (length ps - 1) ok_reply @ [append_reply gsr])
        (close_trx i (?s1\<lparr>sdriver := Some d1\<rparr>)))\<rparr>))"
      using mid(2-) Cons.prems(7-13) rest' n(2) no0(2) cs by (intro Cons.IH) auto
    moreover have "ps \<noteq> []" using n(2) rest' by (auto dest: packets_spec)
    ultimately show ?thesis
      using mid(1) n(1) Cons.prems(2) False close_after_piece [OF i]
      by (subst send_packets.simps) (cases ps; simp)
  qed
qed

text \<open>
  A line that does not fit: the packets before it have been sent, the driver has not been called,
  and the transaction stays open.
\<close>

lemma send_packets_stuck:
  assumes "serves env pieces i cenv" "0 \<le> csock c"
  shows "packets rest = None \<Longrightarrow> NUL \<notin> set rest \<Longrightarrow>
    peer c = Some s \<Longrightarrow> idle_client i s \<Longrightarrow> \<not> cancelled (trx_of i s) \<Longrightarrow>
    in_range 32 tot \<Longrightarrow> in_range 32 (md_num m) \<Longrightarrow> in_range 32 (md_ttl m) \<Longrightarrow>
    (\<forall>t. md_src m = Some t \<longrightarrow> length t < 4294967296) \<Longrightarrow> k = 0 \<and> packet_len rest \<noteq> None \<or> active (trx_of i s) \<Longrightarrow>
    \<exists>s'. send_packets cenv tot m k 0 rest c = Some (-1, c\<lparr>peer := Some s'\<rparr>) \<and>
      sdriver s' = sdriver s \<and> idle_client i s' \<and> active (trx_of i s')"
  using assms(2)
proof (induction rest arbitrary: c s k rule: packets.induct)
  case (1 rest)
  have ne: "rest \<noteq> []" using "1.prems"(1) by auto
  show ?case
  proof (cases "packet_len rest")
    case None
    then have "send_packets cenv tot m k 0 rest c = Some (-1, c)"
      using ne by (subst send_packets.simps) simp
    then show ?thesis using "1.prems" None by (intro exI [of _ s]) (cases c, simp)
  next
    case (Some n)
    then have len: "0 < n" "n \<le> length rest" "n \<le> MAX_PACKET_SIZE" using packet_len_Some ne by auto
    have d: "packets (drop n rest) = None" using "1.prems"(1) Some ne by (subst (asm) packets.simps) simp
    then have n: "n \<noteq> length rest" by auto
    have no0: "NUL \<notin> set (drop n rest)" using "1.prems"(2) by (auto dest: in_set_dropD)
    have fits: "append_fits (take n rest) tot (md_num m) (md_ttl m) (md_src m)"
      using "1.prems"(6-9) len by (simp add: append_fits_def MAX_PACKET_SIZE_def)
    let ?f = "upd_trx (\<lambda>x. x\<lparr>tbuffer := (if k = 0 then [] else tbuffer (trx_of i s)) @ cstr (take n rest),
        active := active x \<or> k = 0\<rparr>)"
    let ?s1 = "push_sent i [ok_reply] (upd_client i ?f s)"
    note mid = send_packet_middle [OF assms(1) "1.prems"(11,3-5) fits, of k]
    have act: "active (trx_of i ?s1)"
      using "1.prems"(4,10) by (auto simp: push_sent_def upd_client_twice nth_upd_client upd_trx_def idle_client_def)
    have "\<exists>s'. send_packets cenv tot m (k + 1) 0 (drop n rest) (c\<lparr>peer := Some ?s1\<rparr>) =
        Some (-1, (c\<lparr>peer := Some ?s1\<rparr>)\<lparr>peer := Some s'\<rparr>) \<and>
      sdriver s' = sdriver ?s1 \<and> idle_client i s' \<and> active (trx_of i s')"
      using mid(2,3) act "1.prems"(6-9,11) d no0 by (intro "1.IH" [OF ne Some]) auto
    then show ?thesis
      using mid(1,4) Some ne n by (subst send_packets.simps) simp
  qed
qed

section \<open>The Marlin driver behind the server\<close>

definition marlin_ops :: "clock \<Rightarrow> MarlinDriver driver_ops" where
  "marlin_ops clk = \<lparr>op_append = AD_appendGCode, op_clear = AD_clearGCode, op_start = M_startPrint PRINTING,
     op_stop = M_stopPrintCode, op_heatup = heatup M_sendCode, op_update = (\<lambda>es. M_update es clk)\<rparr>"

text \<open>Every call of the server is a step of the driver, whatever the clock says.\<close>

definition marlin_env :: "MarlinDriver env \<Rightarrow> bool" where
  "marlin_env env \<longleftrightarrow> (\<exists>clk. ops env = marlin_ops clk)"

interpretation marlin: driver_contract marlin_env reachable
  by unfold_locales
    (auto simp: marlin_env_def marlin_ops_def intro: reachable.step [OF _ append_step] reachable.step [OF _ clear_step]
      reachable.step [OF _ start_step] reachable.step [OF _ stop_step] reachable.step [OF _ heatup_step]
      reachable.step [OF _ update_step])

section \<open>A concrete system\<close>

definition demo_env :: "MarlinDriver env" where
  "demo_env = \<lparr>alloc = \<lambda>n. True, bulk_log = False, files = \<lambda>f. Inl 2, strerror = \<lambda>e. ''No such file'',
     ops = marlin_ops (at_second 1)\<rparr>"

definition demo_server :: "MarlinDriver \<Rightarrow> MarlinDriver Server" where
  "demo_server d = \<lparr>clients = [Client_init 6], sdriver = Some d, socketFd = 4, masterFds = {4, 6}, maxFd = 6\<rparr>"

text \<open>Every byte in a read of its own.\<close>

definition bytewise :: "bytes \<Rightarrow> bytes list" where
  "bytewise b = map (\<lambda>c. [c]) b"

definition demo_cenv :: "MarlinDriver Server option comm_env" where
  "demo_cenv = \<lparr>calloc = \<lambda>n. True, cbulk = False, os_connect = \<lambda>path p. (5, p), os_close = \<lambda>fd p. (0, p),
     exchange = server_exchange demo_env bytewise 0\<rparr>"

definition demo_comm :: "MarlinDriver \<Rightarrow> MarlinDriver Server option comm" where
  "demo_comm d = \<lparr>csock = 5, cerror = None, peer = Some (demo_server d)\<rparr>"

lemma demo_facts:
  "calm demo_env" "good_cut bytewise" "serves demo_env bytewise 0 demo_cenv" "idle_client 0 (demo_server d)"
  "\<not> cancelled (trx_of 0 (demo_server d))" "peer (demo_comm d) = Some (demo_server d)" "0 \<le> csock (demo_comm d)"
  "sdriver (demo_server d) = Some d" "op_append (ops demo_env) = AD_appendGCode"
proof -
  show c: "calm demo_env" by (simp add: calm_def demo_env_def)
  show g: "good_cut bytewise" by (auto simp: good_cut_def bytewise_def READ_BUF_SIZE_def)
  show "serves demo_env bytewise 0 demo_cenv" using c g by (simp add: serves_def demo_cenv_def)
qed (simp_all add: idle_client_def demo_server_def Client_init_def demo_comm_def demo_env_def marlin_ops_def)

lemma demo_append:
  obtains d1 where "AD_appendGCode two_lines (-1) (Some (meta (-1) (-1) None)) idle_driver = Some (GSR_OK, d1)"
    "reachable d1" "mlines d1 = [''G28'', ''G1 X2'']"
proof -
  let ?m = "Some (meta (-1) (-1) None)"
  have "append_sanity GCodeBuffer_init ?m = GSR_OK"
    by (simp add: append_sanity_def GCodeBuffer_init_def MetaData_init_def meta_def)
  moreover have "(bufferSize GCodeBuffer_init + int (length two_lines)) mod 2 ^ 64 \<le> MAX_BUFFER_SIZE"
    by (simp add: GCodeBuffer_init_def MAX_BUFFER_SIZE_def two_lines_def)
  ultimately obtain g where g: "gcb_append two_lines (-1) ?m GCodeBuffer_init = Some (GSR_OK, g)"
    by (simp add: gcb_append_Some)
  have gl: "lines_of g = gcode_lines False two_lines"
    using gt.app_ok [where m = "(-1, ?m)" and t = two_lines and s = GCodeBuffer_init] g GCodeBuffer_init_inv
    by (auto simp: gcb_inv_def) (auto simp: GCodeBuffer_init_def lines_of_def)
  have "rfind_prefix ''M109'' two_lines = None" "rfind_prefix ''M190'' two_lines = None"
    by (simp_all add: two_lines_def)
  then have a: "AD_appendGCode two_lines (-1) ?m idle_driver =
      Some (GSR_OK, setState BUFFERING (idle_driver\<lparr>gcodeBuffer := g\<rparr>))"
    by (simp add: AD_appendGCode_def idle_facts g extractGCodeInfo_def store_number_def buffered_def Let_def)
  show thesis
    using that [OF a reachable.step [OF idle_reachable append_step [OF a]]] gl two_lines_lines
    by (simp add: setState_def)
qed

section \<open>Properties\<close>

text \<open>C1: Sending a text with \<open>comm_sendGCodeData\<close> to a server whose client has no
  cancelled transaction, through a connection that delivers the bytes in any pieces: if no line of it
  is too long for a packet, the driver's \<open>appendGCode\<close> is called exactly once, with exactly the
  text, its metadata and its total line count, however many packets it took; nothing else of the server
  changes, apart from the replies sent and the transaction, which ends empty and inactive; and the
  caller gets 0, or -2 with the driver's reason as the error.\<close>

theorem gcode_transfer:
  assumes "serves env pieces i cenv" "0 \<le> csock c" "peer c = Some s" "idle_client i s" "\<not> cancelled (trx_of i s)"
    and "text \<noteq> []" "NUL \<notin> set text" "\<not> long_line text"
    and "in_range 32 tot" "in_range 32 (md_num m)" "in_range 32 (md_ttl m)" "\<forall>t. md_src m = Some t \<longrightarrow> length t < 4294967296"
    and "sdriver s = Some d" "op_append (ops env) text tot (Some (meta (md_num m) (md_ttl m) (md_src m))) d = Some (gsr, d1)"
  shows "\<exists>replies. comm_sendGCodeData cenv text tot m c =
    Some (if gsr = GSR_OK then 0 else -2,
      c\<lparr>cerror := (if gsr = GSR_OK then None else Some (getGcodeSetResultString gsr)),
        peer := Some (push_sent i replies (upd_client i
          (upd_trx (\<lambda>t. t\<lparr>tbuffer := [], active := False\<rparr>)) (s\<lparr>sdriver := Some d1\<rparr>)))\<rparr>)"
proof -
  obtain ps where ps: "packets text = Some ps" using assms(8) packets_None by blast
  have "send_packets cenv tot m 0 0 text (clearError c) = Some (outcome_of gsr
      ((clearError c)\<lparr>peer := Some (push_sent i (replicate (length ps - 1) ok_reply @ [append_reply gsr])
        (close_trx i (s\<lparr>sdriver := Some d1\<rparr>)))\<rparr>))"
    by (rule send_packets_served [OF assms(1) _ ps assms(6,7) _ assms(4,5,9-13)])
      (use assms(2,3,14) in \<open>simp_all add: clearError_def\<close>)
  then show ?thesis
    using assms(7)
    by (intro exI [of _ "replicate (length ps - 1) ok_reply @ [append_reply gsr]"], cases c)
      (simp add: comm_sendGCodeData_def cstr_no_NUL outcome_of_def clearError_def close_trx_def)
qed

theorem gcode_transfer_witness:
  "\<exists>replies d1. reachable d1 \<and> mlines d1 = [''G28'', ''G1 X2''] \<and>
     comm_sendGCodeData demo_cenv two_lines (-1) None (demo_comm idle_driver) =
       Some (0, (demo_comm idle_driver)\<lparr>cerror := None, peer := Some (push_sent 0 replies (upd_client 0
          (upd_trx (\<lambda>t. t\<lparr>tbuffer := [], active := False\<rparr>)) ((demo_server idle_driver)\<lparr>sdriver := Some d1\<rparr>)))\<rparr>)"
proof -
  obtain d1 where d1: "AD_appendGCode two_lines (-1) (Some (meta (-1) (-1) None)) idle_driver = Some (GSR_OK, d1)"
    "reachable d1" "mlines d1 = [''G28'', ''G1 X2'']"
    by (rule demo_append)
  have t: "two_lines \<noteq> []" "NUL \<notin> set two_lines" "\<not> long_line two_lines"
    by (auto simp: two_lines_def long_line_def MAX_PACKET_SIZE_def dest: arg_cong [where f = length])
  have "\<exists>replies. comm_sendGCodeData demo_cenv two_lines (-1) None (demo_comm idle_driver) =
      Some (0, (demo_comm idle_driver)\<lparr>cerror := None, peer := Some (push_sent 0 replies (upd_client 0
        (upd_trx (\<lambda>t. t\<lparr>tbuffer := [], active := False\<rparr>)) ((demo_server idle_driver)\<lparr>sdriver := Some d1\<rparr>)))\<rparr>)"
    using gcode_transfer [OF demo_facts(3,7,6,4,5) t, of "-1" None, OF _ _ _ _ demo_facts(8), of idle_driver GSR_OK d1] d1(1) demo_facts(9)
    by (simp add: in_range_def md_num_def md_ttl_def md_src_def)
  then show ?thesis using d1(2,3) by blast
qed

text \<open>C34: A text with a line too long for a packet (its first packet's worth of bytes has no
  newline and there is more) whose first line fits: \<open>comm_sendGCodeData\<close> returns -1 without an
  error message, the driver is not called, but the packets before the line have been sent and the
  client's transaction on the server stays open, so that a file it wants to append afterwards is
  refused with \<open>retry_later\<close>.\<close>

theorem long_line_leaves_transaction:
  assumes "serves env pieces i cenv" "0 \<le> csock c" "peer c = Some s" "idle_client i s" "\<not> cancelled (trx_of i s)"
    and "NUL \<notin> set text" "long_line text" "NL \<in> set (take MAX_PACKET_SIZE text)"
    and "in_range 32 tot" "in_range 32 (md_num m)" "in_range 32 (md_ttl m)" "\<forall>t. md_src m = Some t \<longrightarrow> length t < 4294967296"
  shows "\<exists>s'. comm_sendGCodeData cenv text tot m c = Some (-1, c\<lparr>cerror := None, peer := Some s'\<rparr>) \<and>
    sdriver s' = sdriver s \<and>
    (\<forall>f. length f < 4294967296 \<longrightarrow> runCommand env i (encode (ipc_code IPC_CMDQ_GCODE_APPEND_FILE) [f]) s' =
      Some (push_sent i [text_reply IPC_CMDR_RETRY_LATER ''transaction in progress''] s'))"
proof -
  have p: "packets text = None" "packet_len text \<noteq> None"
    using assms(7,8) packets_None packet_len_None by blast+
  obtain s' where s': "send_packets cenv tot m 0 0 text (clearError c) = Some (-1, (clearError c)\<lparr>peer := Some s'\<rparr>)"
    "sdriver s' = sdriver s" "idle_client i s'" "active (trx_of i s')"
    using send_packets_stuck [OF assms(1) _ p(1) assms(6) _ assms(4,5,9-12), of "clearError c" 0] assms(2,3) p(2)
    by (auto simp: clearError_def)
  have "calm env" using assms(1) by (simp add: serves_def)
  then have "runCommand env i (encode (ipc_code IPC_CMDQ_GCODE_APPEND_FILE) [f]) s' =
      Some (push_sent i [text_reply IPC_CMDR_RETRY_LATER ''transaction in progress''] s')" if "length f < 4294967296" for f
    using s'(3,4) that by (intro appendFile_active) (simp_all add: idle_client_def wf_cmd_def)
  with s'(1,2) assms(6) show ?thesis
    by (intro exI [of _ s']) (simp add: comm_sendGCodeData_def cstr_no_NUL clearError_def)
qed

theorem long_line_leaves_transaction_witness:
  "\<exists>s'. comm_sendGCodeData demo_cenv (''G28'' @ [NL] @ replicate 2000 (CHR ''x'')) (-1) None (demo_comm idle_driver) =
      Some (-1, (demo_comm idle_driver)\<lparr>cerror := None, peer := Some s'\<rparr>) \<and> sdriver s' = Some idle_driver"
proof -
  let ?t = "''G28'' @ [NL] @ replicate 2000 (CHR ''x'')"
  have "?t = ''G28\<newline>'' @ replicate MAX_PACKET_SIZE (CHR ''x'') @ replicate (2000 - MAX_PACKET_SIZE) (CHR ''x'')"
    unfolding replicate_add [symmetric] by (simp add: MAX_PACKET_SIZE_def)
  moreover have "2000 - MAX_PACKET_SIZE \<noteq> 0" by (simp add: MAX_PACKET_SIZE_def)
  ultimately have l: "long_line ?t"
    unfolding long_line_def
    by (intro exI [of _ "''G28\<newline>''"] exI [of _ "replicate MAX_PACKET_SIZE (CHR ''x'')"]
        exI [of _ "replicate (2000 - MAX_PACKET_SIZE) (CHR ''x'')"]) simp
  have n: "NUL \<notin> set ?t" "NL \<in> set (take MAX_PACKET_SIZE ?t)"
    by (simp_all add: MAX_PACKET_SIZE_def)
  show ?thesis
    using long_line_leaves_transaction [OF demo_facts(3,7) demo_facts(6) [of idle_driver] demo_facts(4,5) n(1) l n(2), of "-1" None]
      demo_facts(8) [of idle_driver]
    by (auto simp: in_range_def md_num_def md_ttl_def md_src_def)
qed

text \<open>C8: In every state the server can come to, started with a Marlin driver in a state that
  driver can be in, whatever clients send, in whatever pieces, whatever the printer answers and
  whatever the clock says: the driver is in a state reachable by its own operations (so that while it
  prints, its buffer has a line to acknowledge); \<open>masterFds\<close> holds exactly the listening socket
  and the descriptors of the clients, all different, none negative and none above \<open>maxFd\<close>;
  \<open>select\<close> watches exactly these and, of the descriptors the driver has registered, those up to
  \<open>maxFd\<close>; and the port of a connected driver is one of the registered, so that it is watched
  if and only if it is not above \<open>maxFd\<close>.\<close>

theorem server_invariants:
  assumes "server_reachable marlin_env reachable s"
  shows "(\<forall>d. sdriver s = Some d \<longrightarrow> reachable d \<and> (is_printing d \<longrightarrow> mlines d \<noteq> []) \<and>
      (isConnected d \<longrightarrow> (portFd (serial d) \<in> watched s \<longleftrightarrow> portFd (serial d) \<le> maxFd s))) \<and>
    masterFds s = set (socketFd s # map cfd (clients s)) \<and> distinct (socketFd s # map cfd (clients s)) \<and>
    (\<forall>fd \<in> masterFds s. 0 \<le> fd \<and> fd \<le> maxFd s) \<and>
    watched s = masterFds s \<union> {fd. fd \<le> maxFd s \<and> (\<exists>d. sdriver s = Some d \<and> fd \<in> registeredFds d)}"
proof -
  have f: "fds_ok s" by (rule reachable_fds [OF assms])
  have d: "reachable d" if "sdriver s = Some d" for d
    using marlin.server_reachable_inv [OF assms] that by (simp add: driver_ok_def)
  have m: "masterFds s = set (socketFd s # map cfd (clients s))" "distinct (socketFd s # map cfd (clients s))"
    "\<forall>fd \<in> masterFds s. 0 \<le> fd \<and> fd \<le> maxFd s"
    using f unfolding fds_ok_def by blast+
  note w = watched_fds [OF f, folded m(1)]
  have "is_printing d \<longrightarrow> mlines d \<noteq> []" if "sdriver s = Some d" for d
    using reachable_inv [OF d [OF that]] by (simp add: M_inv_def)
  moreover have "portFd (serial d) \<in> watched s \<longleftrightarrow> portFd (serial d) \<le> maxFd s"
    if "sdriver s = Some d" "isConnected d" for d
    using w m(3) that reachable_port_registered [OF d [OF that(1)]] by auto
  ultimately show ?thesis using d m w by blast
qed

theorem server_invariants_witness:
  "\<exists>s w. server_iteration demo_env (Some 6) (\<lambda>fd. []) [RdData ''T:20\<newline>''] (server_start 4 (Some opened_driver)) =
      Some (Go (w, s)) \<and> map cfd (clients s) = [6] \<and> masterFds s = {4, 6} \<and> sdriver s = Some idle_driver \<and>
      reachable idle_driver \<and> portFd (serial idle_driver) = 5 \<and> 5 \<in> watched s"
proof -
  have o: "reachable opened_driver"
    unfolding opened_driver_def by (rule reachable.step [OF reachable.new open_step]) (rule surjective_pairing)
  let ?init = "server_start 4 (Some opened_driver)"
  let ?s1 = "demo_server opened_driver"
  have 1: "accept_client (Some 6) ?init = Some ?s1"
    by (simp add: accept_client_def server_start_def demo_server_def FD_SETSIZE_def insert_commute)
  have rd: "client_readData [] (Client_init 6) = (0, Client_init 6)"
    by (simp add: client_readData_def readAndAppendAvailableData_def Client_init_def)
  have rc: "runCommands demo_env 0 ?s1 = Some ?s1"
    by (subst runCommands.simps) (simp add: demo_server_def Client_init_def ipc_cmd_is_complete_def)
  have 2: "clients_loop demo_env (\<lambda>fd. []) (length (clients ?s1)) 0 ?s1 = Some ?s1"
    using rc by (simp add: demo_server_def rd)
  have u: "op_update (ops demo_env) [RdData ''T:20\<newline>''] opened_driver = Some (Go (200, idle_driver))"
    using idle_update by (simp add: demo_env_def marlin_ops_def)
  let ?s = "?s1\<lparr>sdriver := Some idle_driver\<rparr>"
  obtain w where it: "server_iteration demo_env (Some 6) (\<lambda>fd. []) [RdData ''T:20\<newline>''] ?init = Some (Go (w, ?s))"
    using 1 2 u by (simp add: server_iteration_def demo_facts(8))
  have "server_reachable marlin_env reachable ?s"
    by (rule sr_iterate [OF sr_start _ _ it])
      (use o in \<open>auto simp: marlin_env_def demo_env_def server_start_def\<close>)
  note inv = server_invariants [OF this]
  have p: "portFd (serial idle_driver) = 5" "maxFd ?s = 6" by (simp_all add: idle_driver_def opened_driver_eq demo_server_def)
  have r: "reachable idle_driver" "5 \<in> watched ?s"
    using inv [THEN conjunct1] idle_facts(3) p by auto
  have "map cfd (clients ?s) = [6]" "masterFds ?s = {4, 6}" by (simp_all add: demo_server_def Client_init_def)
  then show ?thesis using it p(1) r by (intro exI [of _ ?s] exI [of _ w]) simp
qed

text \<open>C9: The server handles the commands of a client once each and in order, each with the
  effect it has alone, however the bytes of the commands are cut into reads: the state after the reads
  is the state after the commands, and the receive buffer is empty again.\<close>

theorem client_stream:
  assumes "\<not> bulk_log env" "\<And>n. 0 < n \<Longrightarrow> alloc env n" "i < length (clients s)" "cbuffer (clients s ! i) = []"
    and "\<forall>f \<in> set cmds. is_cmd f" "\<forall>p \<in> set pieces. p \<noteq> [] \<and> length p \<le> READ_BUF_SIZE" "concat pieces = concat cmds"
  shows "fold_option (\<lambda>s p. clients_loop env (\<lambda>_. [RdData p]) 1 i s) s pieces =
      fold_option (\<lambda>s f. runCommand env i f s) s cmds \<and>
    (\<forall>s'. fold_option (\<lambda>s f. runCommand env i f s) s cmds = Some s' \<longrightarrow> cbuffer (clients s' ! i) = [])"
proof -
  let ?r = "fold_option (\<lambda>s f. runCommand env i f s) s cmds"
  have s: "set_buf i [] s = s" using set_buf_same [OF assms(3)] assms(4) by simp
  have "fold_option (\<lambda>s p. clients_loop env (\<lambda>_. [RdData p]) 1 i s) (set_buf i [] s) pieces =
      map_option (\<lambda>(s', b'). set_buf i b' s') (feed ipc_cmd_is_complete (\<lambda>s f. runCommand env i f s) s [] pieces)"
    by (rule receive_pieces [OF assms(1-3,6)])
  also have "feed ipc_cmd_is_complete (\<lambda>s f. runCommand env i f s) s [] pieces = map_option (\<lambda>s'. (s', [])) ?r"
    by (rule feed_commands [OF assms(5,7)]) (use runCommand_tail [OF _ assms(1)] in auto)
  also have "map_option (\<lambda>(s', b'). set_buf i b' s') \<dots> = map_option (set_buf i []) ?r"
    by (simp add: option.map_comp comp_def)
  also have same: "\<dots> = ?r" using fold_set_buf [OF assms(1), of i "[]" s cmds] s by simp
  finally have 1: "fold_option (\<lambda>s p. clients_loop env (\<lambda>_. [RdData p]) 1 i s) s pieces = ?r" by (simp add: s)
  have "cbuffer (clients s' ! i) = []" if "?r = Some s'" for s'
  proof -
    have "set_buf i [] s' = s'" using same that by simp
    moreover have "length (clients s') = length (clients s)"
      using that by (induction cmds arbitrary: s) (auto simp: bind_eq_Some_conv dest: runCommand_length)
    ultimately show ?thesis using assms(3) by (metis nth_upd_client set_buf_def Client.select_convs(2)
      Client.surjective Client.update_convs(2))
  qed
  with 1 show ?thesis by blast
qed

text \<open>C27: A client that closes its connection in the middle of a command, again with its bytes cut into
  any reads: the commands that were complete are all run, once each and in order, and the bytes of the
  incomplete one have no effect; then the client's entry is gone from the list, with all others in their
  order, and its descriptor from the set for \<open>select\<close>.\<close>

theorem client_cut_off:
  assumes "\<not> bulk_log env" "\<And>n. 0 < n \<Longrightarrow> alloc env n" "i < length (clients s)" "cbuffer (clients s ! i) = []"
    and "\<forall>f \<in> set cmds. is_cmd f" "is_cmd g" "m < length g"
    and "\<forall>p \<in> set pieces. p \<noteq> [] \<and> length p \<le> READ_BUF_SIZE" "concat pieces = concat cmds @ take m g"
  shows "Option.bind (fold_option (\<lambda>s p. clients_loop env (\<lambda>_. [RdData p]) 1 i s) s pieces)
      (clients_loop env (\<lambda>_. [RdEOF]) 1 i) =
    map_option (\<lambda>s'. s'\<lparr>masterFds := masterFds s' - {cfd (clients s ! i)},
        clients := take i (clients s') @ drop (i + 1) (clients s')\<rparr>)
      (fold_option (\<lambda>s f. runCommand env i f s) s cmds)"
proof -
  let ?r = "fold_option (\<lambda>s f. runCommand env i f s) s cmds" and ?t = "take m g"
  have t: "ipc_cmd_is_complete ?t = 0" by (rule ipc.partial [OF assms(6,7)])
  have "fold_option (\<lambda>s p. clients_loop env (\<lambda>_. [RdData p]) 1 i s) (set_buf i [] s) pieces =
      map_option (\<lambda>(s', b'). set_buf i b' s') (feed ipc_cmd_is_complete (\<lambda>s f. runCommand env i f s) s [] pieces)"
    by (rule receive_pieces [OF assms(1-3,8)])
  also have "feed ipc_cmd_is_complete (\<lambda>s f. runCommand env i f s) s [] pieces = map_option (\<lambda>s'. (s', ?t)) ?r"
    by (rule feed_cut_off [OF assms(5-7,9)]) (use runCommand_tail [OF _ assms(1)] in auto)
  finally have 1: "fold_option (\<lambda>s p. clients_loop env (\<lambda>_. [RdData p]) 1 i s) s pieces = map_option (set_buf i ?t) ?r"
    using set_buf_same [OF assms(3)] assms(4) by (simp add: option.map_comp comp_def)
  have 2: "clients_loop env (\<lambda>_. [RdEOF]) 1 i (set_buf i ?t s') =
      Some (s'\<lparr>masterFds := masterFds s' - {cfd (clients s ! i)}, clients := take i (clients s') @ drop (i + 1) (clients s')\<rparr>)"
    if "?r = Some s'" for s'
  proof -
    have f: "fds_frame s s'"
      using that by (rule fold_commands_frame)
    then have i: "i < length (clients s')" "cfd (clients s' ! i) = cfd (clients s ! i)"
      using assms(3) unfolding fds_frame_def by (metis length_map) (metis assms(3) fds_frame_def f length_map nth_map)
    then show ?thesis by (rule close_cut_off [OF t])
  qed
  show ?thesis unfolding 1 using 2 by (cases ?r) simp_all
qed

theorem client_stream_witness:
  "fold_option (\<lambda>s p. clients_loop demo_env (\<lambda>_. [RdData p]) 1 0 s) (demo_server idle_driver)
      (bytewise (encode 0x18 [] @ encode 0x18 [])) =
    Some (push_sent 0 [progress_reply (progress_numbers idle_driver)]
      (push_sent 0 [progress_reply (progress_numbers idle_driver)] (demo_server idle_driver)))"
proof -
  let ?s = "demo_server idle_driver" and ?f = "encode 0x18 []"
  have c: "\<forall>f \<in> set [?f, ?f]. is_cmd f"
    unfolding is_cmd_def by (auto intro!: exI [of _ "0x18"] exI [of _ "[]"] simp: wf_cmd_def)
  have p: "\<forall>p \<in> set (bytewise (?f @ ?f)). p \<noteq> [] \<and> length p \<le> READ_BUF_SIZE" "concat (bytewise (?f @ ?f)) = concat [?f, ?f]"
    by (auto simp: bytewise_def READ_BUF_SIZE_def)
  have i: "0 < length (clients ?s)" "cbuffer (clients ?s ! 0) = []" "cfd (clients ?s ! 0) \<noteq> -1"
    using demo_facts(4) by (simp_all add: idle_client_def)
  note run = getProgress_calm [OF demo_facts(1), where i = 0 and d = idle_driver]
  have 1: "runCommand demo_env 0 ?f ?s = Some (push_sent 0 [progress_reply (progress_numbers idle_driver)] ?s)"
    using run [of ?s] i(3) demo_facts(8) by simp
  have 2: "runCommand demo_env 0 ?f (push_sent 0 [progress_reply (progress_numbers idle_driver)] ?s) =
      Some (push_sent 0 [progress_reply (progress_numbers idle_driver)]
        (push_sent 0 [progress_reply (progress_numbers idle_driver)] ?s))"
    using run [of "push_sent 0 [progress_reply (progress_numbers idle_driver)] ?s"] i(1,3) demo_facts(8)
    by (simp add: push_sent_reads)
  show ?thesis
    using client_stream [OF calmD [OF demo_facts(1)] i(1,2) c p] 1 2 by simp
qed

theorem client_cut_off_witness:
  "\<exists>d1 s'. Option.bind (fold_option (\<lambda>s p. clients_loop demo_env (\<lambda>_. [RdData p]) 1 0 s) (demo_server idle_driver)
        (bytewise (append_cmd two_lines (chunk_flags True True) (-1) (-1) (-1) None @
          take 3 (encode (ipc_code IPC_CMDQ_GCODE_CLEAR) []))))
      (clients_loop demo_env (\<lambda>_. [RdEOF]) 1 0) = Some s' \<and>
     clients s' = [] \<and> masterFds s' = {4} \<and> sdriver s' = Some d1 \<and> mlines d1 = [''G28'', ''G1 X2'']"
proof -
  let ?s = "demo_server idle_driver" and ?g = "encode (ipc_code IPC_CMDQ_GCODE_CLEAR) []"
  let ?a = "append_cmd two_lines (chunk_flags True True) (-1) (-1) (-1) None"
  obtain d1 where d1: "AD_appendGCode two_lines (-1) (Some (meta (-1) (-1) None)) idle_driver = Some (GSR_OK, d1)"
    "mlines d1 = [''G28'', ''G1 X2'']"
    by (rule demo_append)
  have f: "append_fits two_lines (-1) (-1) (-1) None" by (simp add: append_fits_def in_range_def two_lines_def)
  have g: "is_cmd ?g" "3 < length ?g"
    unfolding is_cmd_def by (intro exI [of _ "ipc_code IPC_CMDQ_GCODE_CLEAR"] exI [of _ "[]"]) (simp_all add: wf_cmd_def length_encode)
  have i: "0 < length (clients ?s)" "cbuffer (clients ?s ! 0) = []" "cfd (clients ?s ! 0) = 6"
    by (simp_all add: demo_server_def Client_init_def)
  have p: "\<forall>p \<in> set (bytewise (?a @ take 3 ?g)). p \<noteq> [] \<and> length p \<le> READ_BUF_SIZE"
      "concat (bytewise (?a @ take 3 ?g)) = concat [?a] @ take 3 ?g"
    by (auto simp: bytewise_def READ_BUF_SIZE_def)
  have "cstr two_lines = two_lines" by (rule cstr_no_NUL) (simp add: two_lines_def)
  then obtain s1 where s1: "runCommand demo_env 0 ?a ?s = Some s1" "sdriver s1 = Some d1"
    using append_piece_any [OF demo_facts(1) f chunk_flags_bits(3,4) i(1), of True True] i(3) d1(1) demo_facts(8,9) by (auto simp: push_sent_def)
  have fr: "fds_frame ?s s1" by (rule fold_commands_frame [where env = demo_env and i = 0 and cmds = "[?a]"]) (simp add: s1(1))
  then have "length (clients s1) = 1" "masterFds s1 = {4, 6}"
    by (auto simp: fds_frame_def demo_server_def dest: arg_cong [of _ _ length])
  then show ?thesis
    using client_cut_off [OF calmD [OF demo_facts(1)] i(1,2) _ g p] append_is_cmd [OF f] s1 i(3) d1(2) by auto
qed

text \<open>C35: When a client's transaction has been cancelled (another client cleared the g-code or
  stopped the print), its next piece with the last-chunk flag still hands the collected text to the
  driver, and the client gets two replies to its one command: \<open>trx_cancelled\<close>, and the driver's
  answer; the cancellation itself stays set.\<close>

theorem cancelled_still_appended:
  assumes "calm env" "append_fits text tot num ttl src" "i < length (clients s)" "cfd (clients s ! i) \<noteq> -1"
    and "cancelled (trx_of i s)" "sdriver s = Some d"
    and "op_append (ops env) (tbuffer (trx_of i s) @ cstr text) tot (Some (meta num ttl src)) d = Some (gsr, d1)"
  shows "\<exists>s'. runCommand env i (append_cmd text (chunk_flags False True) tot num ttl src) s = Some s' \<and>
    sdriver s' = Some d1 \<and> cancelled (trx_of i s') \<and> tbuffer (trx_of i s') = [] \<and>
    sent_by i s' = sent_by i s @ [text_reply IPC_CMDR_TRX_CANCELLED ''transaction cancelled'', append_reply gsr]"
proof -
  let ?u = "told_cancelled i s"
  let ?s' = "push_sent i [append_reply gsr] (close_trx i (?u\<lparr>sdriver := Some d1\<rparr>))"
  have "runCommand env i (append_cmd text (chunk_flags False True) tot num ttl src) s = Some ?s'"
    using append_piece_any [OF assms(1,2) chunk_flags_bits(3,4) assms(3,4), of False True] assms(6,7)
    by (simp add: close_trx_def)
  then show ?thesis
    using assms(3,5)
    by (intro exI [of _ ?s'])
      (simp add: told_cancelled_def push_sent_def close_trx_def upd_client_def upd_trx_def sent_by_def)
qed

theorem cancelled_still_appended_witness:
  "\<exists>s d1 s'. cancelled (trx_of 0 s) \<and>
     runCommand demo_env 0 (append_cmd two_lines (chunk_flags False True) (-1) (-1) (-1) None) s = Some s' \<and>
     sdriver s' = Some d1 \<and> mlines d1 = [''G28'', ''G1 X2''] \<and> length (sent_by 0 s') = 2"
proof -
  obtain d1 where d1: "AD_appendGCode two_lines (-1) (Some (meta (-1) (-1) None)) idle_driver = Some (GSR_OK, d1)"
    "mlines d1 = [''G28'', ''G1 X2'']"
    by (rule demo_append)
  let ?s = "upd_client 0 (upd_trx (\<lambda>t. t\<lparr>cancelled := True\<rparr>)) (demo_server idle_driver)"
  have s: "0 < length (clients ?s)" "cfd (clients ?s ! 0) \<noteq> -1" "cancelled (trx_of 0 ?s)" "sdriver ?s = Some idle_driver"
    "tbuffer (trx_of 0 ?s) = []" "sent_by 0 ?s = []"
    by (simp_all add: demo_server_def Client_init_def upd_client_def upd_trx_def sent_by_def)
  have f: "append_fits two_lines (-1) (-1) (-1) None" by (simp add: append_fits_def in_range_def two_lines_def)
  have "cstr two_lines = two_lines" by (rule cstr_no_NUL) (simp add: two_lines_def)
  then have o: "op_append (ops demo_env) (tbuffer (trx_of 0 ?s) @ cstr two_lines) (-1) (Some (meta (-1) (-1) None)) idle_driver =
      Some (GSR_OK, d1)"
    using d1(1) s(5) demo_facts(9) by simp
  obtain s' where "runCommand demo_env 0 (append_cmd two_lines (chunk_flags False True) (-1) (-1) (-1) None) ?s = Some s'"
    "sdriver s' = Some d1" "length (sent_by 0 s') = 2"
    using cancelled_still_appended [OF demo_facts(1) f s(1-4) o] s(6) by auto
  with s(3) d1(2) show ?thesis by (intro exI [of _ ?s] exI [of _ d1] exI [of _ s']) simp
qed

lemma read_longs_encode:
  assumes "\<And>n. 0 < n \<Longrightarrow> calloc cenv n" "wf_cmd c (map (\<lambda>n. store_nl (word_of_int n)) ns)" "\<forall>n \<in> set ns. in_range 32 n"
  shows "\<forall>j \<in> set js. j < length ns \<Longrightarrow>
    read_longs cenv (encode c (map (\<lambda>n. store_nl (word_of_int n)) ns)) js = Some (0, map ((!) ns) js)"
proof (induction js)
  case (Cons j js)
  then have j: "j < length ns" by simp
  have "ipc_cmd_get_long_arg (calloc cenv) (encode c (map (\<lambda>n. store_nl (word_of_int n)) ns)) j = Some (Inr (ns ! j))"
    using get_long_arg_encode [OF assms(2), of j "word_of_int (ns ! j)" "calloc cenv" "[]"] j assms(1,3) sint_in_range(2)
    by simp
  with Cons show ?case by simp
qed simp

text \<open>C29: What \<open>comm_getProgress\<close> reports is what the server's driver knows: the line being
  printed, the lines buffered, the total, the bytes buffered and their limit, and the numbers of the
  last piece, provided each fits the 32 bits it is sent in; asking changes nothing but the replies
  sent.\<close>

theorem progress_roundtrip:
  assumes "serves env pieces i cenv" "0 \<le> csock c" "peer c = Some s" "idle_client i s" "sdriver s = Some d"
    and "\<forall>n \<in> set (progress_numbers d). in_range 32 n"
  shows "\<exists>reply. comm_getProgress cenv c = Some (0,
      [currentLine (gcodeBuffer d), bufferedLines (gcodeBuffer d), getTotalLines (gcodeBuffer d), bufferSize (gcodeBuffer d),
       getMaxBufferSize, seqNumber (md (gcodeBuffer d)), seqTotal (md (gcodeBuffer d))],
      c\<lparr>cerror := None, peer := Some (push_sent i [reply] s)\<rparr>)"
proof -
  let ?ns = "progress_numbers d" and ?b = "encode (ipc_code IPC_CMDQ_GET_PROGRESS) []"
  let ?r = "progress_reply ?ns"
  have calm: "calm env" and al: "\<And>n. 0 < n \<Longrightarrow> calloc cenv n" and bulk: "\<not> cbulk cenv"
    using assms(1) by (auto simp: serves_def)
  have i: "i < length (clients s)" "cfd (clients s ! i) \<noteq> -1" using assms(4) by (simp_all add: idle_client_def)
  have len: "length ?ns = 7" by (simp add: progress_numbers_def Let_def)
  have w: "wf_cmd (ipc_code IPC_CMDR_OK) (map (\<lambda>n. store_nl (word_of_int n)) ?ns)"
    using len by (auto simp: wf_cmd_def store_nl_def)
  have con: "ipc_construct_cmd (calloc cenv) IPC_CMDQ_GET_PROGRESS None [] = Some (Some ?b)"
    by (rule construct_encode_NULL [OF al])
  have isc: "is_cmd ?b" unfolding is_cmd_def by (intro exI [of _ "ipc_code IPC_CMDQ_GET_PROGRESS"] exI [of _ "[]"]) (simp add: wf_cmd_def)
  have sent: "csent (clients (push_sent i [?r] s) ! i) = csent (clients s ! i) @ [?r]"
    using i(1) by (simp add: push_sent_def nth_upd_client)
  have short: "?r \<noteq> []" "length ?r \<le> READ_BUF_SIZE"
    by (simp_all add: progress_reply_def progress_numbers_def Let_def encode_def store_ns_def store_nl_def READ_BUF_SIZE_def)
  have reply: "handleBasicResponse cenv (Some ?r) 7 c' = Some (0, c')" for c' :: "'a AbstractDriver_scheme Server option comm"
    using bulk len by (simp add: handleBasicResponse_def log_ipc_cmd_def progress_reply_def)
  have "request cenv IPC_CMDQ_GET_PROGRESS None [] 7 (clearError c) =
      Some (0, Some ?r, (clearError c)\<lparr>peer := Some (push_sent i [?r] s)\<rparr>)"
    using request_served [OF assms(1) _ assms(4) con isc getProgress_calm [OF calm i(2) assms(5)] sent short] assms(2,3) reply
    by (simp add: clearError_def)
  moreover have "read_longs cenv ?r [0, 1, 2, 3, 4, 5, 6] = Some (0, map ((!) ?ns) [0, 1, 2, 3, 4, 5, 6])"
    unfolding progress_reply_def by (rule read_longs_encode [OF al w assms(6)]) (auto simp: len)
  moreover have "map ((!) ?ns) [0, 1, 2, 3, 4, 5, 6] = ?ns"
    by (simp add: progress_numbers_def Let_def)
  ultimately show ?thesis
    by (intro exI [of _ ?r]) (simp add: comm_getProgress_def clearError_def progress_numbers_def Let_def del: read_longs.simps)
qed

theorem progress_roundtrip_witness:
  "\<exists>c'. comm_getProgress demo_cenv (demo_comm idle_driver) = Some (0, [0, 0, 0, 0, 3145728, -1, -1], c')"
proof -
  have n: "progress_numbers idle_driver = [0, 0, 0, 0, 3145728, -1, -1]"
    by (simp add: progress_numbers_def idle_facts GCodeBuffer_init_def MetaData_init_def getTotalLines_def
        getMaxBufferSize_def MAX_BUFFER_SIZE_def Let_def)
  then have "\<forall>n \<in> set (progress_numbers idle_driver). in_range 32 n" by (simp add: in_range_def)
  from progress_roundtrip [OF demo_facts(3,7) demo_facts(6) [of idle_driver] demo_facts(4,8) this] n show ?thesis
    by (auto simp: progress_numbers_def Let_def)
qed

text \<open>C30: The cutting of a text into packets: it succeeds exactly when no line needs more than
  1016 bytes with its newline; then the packets put together are the text, none is empty or longer than
  1016 bytes, and each but the last ends with a newline.\<close>

theorem packets_fit:
  "(packets text = None \<longleftrightarrow> long_line text) \<and>
   (\<forall>ps. packets text = Some ps \<longrightarrow> concat ps = text \<and>
     (\<forall>p \<in> set ps. p \<noteq> [] \<and> length p \<le> 1016) \<and> (\<forall>p \<in> set (butlast ps). last p = NL))"
  using packets_None packets_spec [of "text"] by (auto simp: MAX_PACKET_SIZE_def)

theorem packets_fit_witness:
  "packets (''G28'' @ [NL]) = Some [''G28'' @ [NL]] \<and> concat [''G28'' @ [NL]] = ''G28'' @ [NL]"
proof -
  have "packets (''G28'' @ [NL]) = Some [''G28'' @ [NL]]"
    by (subst packets.simps) (simp add: packet_len_def MAX_PACKET_SIZE_def)
  with packets_fit [of "''G28'' @ [NL]"] show ?thesis by blast
qed

text \<open>The built-in test \<open>comm_testTransactions\<close> writes behind the block it allocates,
  whatever the server answers: seven results of two characters do not fit the room for six.\<close>

theorem test_transactions_overflow:
  "comm_testTransactions cenv deviceId c = None"
proof -
  have step: "length out' = length out + 2 \<and> length out' \<le> 12"
    if "trx_test cenv nr fd code fmt vals ok (out, s) = Some (out', s')" for nr fd code fmt vals ok out s out' s'
    using that by (auto simp: trx_test_def strcat_in_def bind_eq_Some_conv split: if_splits)
  show ?thesis
  proof (rule ccontr)
    assume "\<not> ?thesis"
    then obtain r where "comm_testTransactions cenv deviceId c = Some r" by auto
    then show False
      unfolding comm_testTransactions_def
      by (auto simp: bind_eq_Some_conv Let_def dest!: step)
  qed
qed

end
