(* ===== verification/S3GParser.thy ===== *)
theory S3GParser
  imports Prelude
begin

text \<open>
  The parser that cuts the bytes of a converted print into the commands of the S3G protocol,
  \<open>src/src/drivers/S3GParser.h\<close>: the table of formats, the parser's members as a record, one
  function per method. \<open>None\<close> is a read behind the end of the buffer. The abstract
  specification is a list of units (\<open>s3g_unit\<close>): the parser succeeds on exactly the buffers
  that are such a list written out, and gives one command per unit.
\<close>

section \<open>Formats\<close>

abbreviation byte_of :: "char \<Rightarrow> nat" where "byte_of \<equiv> of_char"

definition command_format :: "nat \<Rightarrow> string" where
  "command_format c =
     (if c = 129 then ''<iiiI'' else if c = 130 then ''<iii'' else if c = 131 then ''<BIH''
      else if c = 132 then ''<BIH'' else if c = 133 then ''<I'' else if c = 134 then ''<B''
      else if c = 135 then ''<BHH'' else if c = 136 then '''' else if c = 137 then ''<B''
      else if c = 138 then ''<H'' else if c = 139 then ''<iiiiiI'' else if c = 140 then ''<iiiii''
      else if c = 141 then ''<BHH'' else if c = 142 then ''<iiiiiIB'' else if c = 143 then ''<b''
      else if c = 144 then ''<b'' else if c = 145 then ''<BB'' else if c = 146 then ''<BBBBB''
      else if c = 147 then ''<HHB'' else if c = 148 then ''<BHB'' else if c = 149 then ''''
      else if c = 150 then ''<BB'' else if c = 151 then ''<B'' else if c = 152 then ''<B''
      else if c = 153 then '''' else if c = 154 then ''<B'' else if c = 155 then ''<iiiiiIBfh''
      else if c = 156 then ''<B'' else if c = 157 then ''<BBBIHHIIB'' else if c = 158 then ''<f''
      else '''')"

text \<open>The size of a format character; the search includes the terminator of the list.\<close>

definition calcsize_char :: "char \<Rightarrow> int" where
  "calcsize_char c =
     (case index_of ((=) c) (''@=<>!cbB?hHiIlLqQfdspP'' @ [NUL]) of
        Some i \<Rightarrow> int (byte_of ((''0000011112244448848005'' @ [NUL]) ! i)) - 48
      | None \<Rightarrow> 0)"

definition calcsize :: "string \<Rightarrow> int" where
  "calcsize format = sum_list (map calcsize_char format)"

abbreviation packet_len :: "nat \<Rightarrow> nat" where
  "packet_len c \<equiv> nat (calcsize (command_format c))"

section \<open>The parser\<close>

record S3GParser =
  bufferPos :: nat
  pbufferSize :: nat
  lineNumber :: nat
  pbuffer :: bytes
  commands :: "bytes list"

definition S3GParser_init :: S3GParser where
  "S3GParser_init = \<lparr>bufferPos = 0, pbufferSize = 0, lineNumber = 0, pbuffer = [], commands = []\<rparr>"

definition setBuffer :: "bytes \<Rightarrow> nat \<Rightarrow> S3GParser \<Rightarrow> S3GParser" where
  "setBuffer buf buflen p = p\<lparr>pbuffer := buf, pbufferSize := buflen, bufferPos := 0, lineNumber := 0\<rparr>"

definition getLineNumber :: "S3GParser \<Rightarrow> nat" where
  "getLineNumber p = lineNumber p"

text \<open>\<open>append(&buffer[pos], n)\<close> and \<open>buffer[pos]\<close>.\<close>

definition bytes_at :: "S3GParser \<Rightarrow> nat \<Rightarrow> nat \<Rightarrow> bytes option" where
  "bytes_at p pos n = (if pos + n \<le> length (pbuffer p) then Some (take n (drop pos (pbuffer p))) else None)"

definition byte_at :: "S3GParser \<Rightarrow> nat \<Rightarrow> char option" where
  "byte_at p pos = (if pos < length (pbuffer p) then Some (pbuffer p ! pos) else None)"

definition push_command :: "nat \<Rightarrow> bytes \<Rightarrow> nat \<Rightarrow> S3GParser \<Rightarrow> S3GParser" where
  "push_command c data pos p = p\<lparr>bufferPos := pos, commands := commands p @ [char_of c # data]\<rparr>"

definition parseToolAction :: "S3GParser \<Rightarrow> S3GParser option" where
  "parseToolAction p = do {
     head \<leftarrow> bytes_at p (bufferPos p) 3;
     l \<leftarrow> byte_at p (bufferPos p + 2);
     payload \<leftarrow> bytes_at p (bufferPos p + 3) (byte_of l);
     Some (push_command 136 (head @ payload) (bufferPos p + 3 + byte_of l) p)
   }"

text \<open>The loop that collects a text up to its terminator, which it leaves in the buffer.\<close>

function read_text :: "S3GParser \<Rightarrow> nat \<Rightarrow> string \<Rightarrow> (string \<times> nat) option" where
  "read_text p pos msg =
     (if pos < length (pbuffer p) then
        if pbuffer p ! pos = NUL then Some (msg, pos) else read_text p (pos + 1) (msg @ [pbuffer p ! pos])
      else None)"
  by pat_completeness auto
termination
  by (relation "measure (\<lambda>(p, pos, msg). length (pbuffer p) - pos)") auto

declare read_text.simps [simp del]

definition parseDisplayMessageAction :: "S3GParser \<Rightarrow> S3GParser option" where
  "parseDisplayMessageAction p =
     map_option (\<lambda>(msg, pos). push_command 149 msg pos p) (read_text p (bufferPos p + 4) [])"

definition parseBuildStartNotificationAction :: "S3GParser \<Rightarrow> S3GParser option" where
  "parseBuildStartNotificationAction p =
     map_option (\<lambda>(buildName, pos). push_command 153 buildName pos p) (read_text p (bufferPos p + 4) [])"

definition parse_fixed :: "nat \<Rightarrow> S3GParser \<Rightarrow> S3GParser option" where
  "parse_fixed c p =
     map_option (\<lambda>data. push_command c data (bufferPos p + packet_len c) p) (bytes_at p (bufferPos p) (packet_len c))"

text \<open>One command; the result says whether there was one.\<close>

definition parseNextCommand :: "S3GParser \<Rightarrow> (bool \<times> S3GParser) option" where
  "parseNextCommand p =
     (if bufferPos p \<ge> pbufferSize p then Some (False, p)
      else do {
        b \<leftarrow> byte_at p (bufferPos p);
        let c = byte_of b;
        let p1 = p\<lparr>bufferPos := bufferPos p + 1\<rparr>;
        p2 \<leftarrow> (if c = 136 then parseToolAction p1
              else if c = 149 then parseDisplayMessageAction p1
              else if c = 153 then parseBuildStartNotificationAction p1
              else parse_fixed c p1);
        Some (True, p2\<lparr>lineNumber := lineNumber p2 + 1\<rparr>)
      })"
lemma read_text_bounds:
  "read_text p pos msg = Some (msg', pos') \<Longrightarrow>
     pos \<le> pos' \<and> pos' < length (pbuffer p) \<and> pbuffer p ! pos' = NUL \<and>
     msg' = msg @ take (pos' - pos) (drop pos (pbuffer p)) \<and> NUL \<notin> set (take (pos' - pos) (drop pos (pbuffer p)))"
proof (induction p pos msg rule: read_text.induct)
  case (1 p pos msg)
  show ?case
  proof (cases "pos < length (pbuffer p) \<and> pbuffer p ! pos \<noteq> NUL")
    case True
    then have r: "read_text p (pos + 1) (msg @ [pbuffer p ! pos]) = Some (msg', pos')"
      using "1.prems" by (simp add: read_text.simps [of p pos])
    have ih: "pos + 1 \<le> pos'" "pos' < length (pbuffer p)" "pbuffer p ! pos' = NUL"
        "msg' = (msg @ [pbuffer p ! pos]) @ take (pos' - (pos + 1)) (drop (pos + 1) (pbuffer p))"
        "NUL \<notin> set (take (pos' - (pos + 1)) (drop (pos + 1) (pbuffer p)))"
      using 1 True r by auto
    have "take (pos' - pos) (drop pos (pbuffer p)) =
        pbuffer p ! pos # take (pos' - (pos + 1)) (drop (pos + 1) (pbuffer p))"
      using ih(1) True by (simp add: Cons_nth_drop_Suc [symmetric] Suc_diff_le take_Cons')
    then show ?thesis using ih True by auto
  next
    case False
    then show ?thesis using "1.prems" by (auto simp: read_text.simps [of p pos] split: if_splits)
  qed
qed

lemma read_text_finds:
  "drop pos (pbuffer p) = msg @ NUL # r \<Longrightarrow> NUL \<notin> set msg \<Longrightarrow>
     read_text p pos acc = Some (acc @ msg, pos + length msg)"
proof (induction msg arbitrary: pos acc)
  case Nil
  then have "pos < length (pbuffer p)" "pbuffer p ! pos = NUL"
    using nth_via_drop [of pos "pbuffer p" NUL r] by (auto simp: not_le [symmetric])
  then show ?case by (simp add: read_text.simps)
next
  case (Cons c msg)
  then have "pos < length (pbuffer p)" "pbuffer p ! pos = c"
    using nth_via_drop [of pos "pbuffer p" c "msg @ NUL # r"] by (auto simp: not_le [symmetric])
  moreover have "drop (pos + 1) (pbuffer p) = msg @ NUL # r"
    using Cons.prems(1) by (metis append_Cons drop_Suc list.sel(3) tl_drop Suc_eq_plus1)
  moreover have "c \<noteq> NUL" "NUL \<notin> set msg" using Cons.prems(2) by auto
  ultimately show ?case using Cons.IH [of "pos + 1" "acc @ [c]"] by (simp add: read_text.simps [of p pos])
qed

text \<open>What one command takes from the buffer.\<close>

lemma parseNextCommand_grows:
  assumes "parseNextCommand p = Some (True, p')"
  shows "bufferPos p < bufferPos p' \<and> bufferPos p < pbufferSize p \<and> pbufferSize p' = pbufferSize p \<and> pbuffer p' = pbuffer p"
  using assms
  by (auto simp: parseNextCommand_def parseToolAction_def parseDisplayMessageAction_def
      parseBuildStartNotificationAction_def parse_fixed_def push_command_def bind_eq_Some_conv Let_def
      split: if_splits dest!: read_text_bounds)

text \<open>\<open>while (parser_.parseNextCommand());\<close>\<close>

function parse_commands :: "S3GParser \<Rightarrow> S3GParser option" where
  "parse_commands p =
     (case parseNextCommand p of
        None \<Rightarrow> None
      | Some (again, p') \<Rightarrow> if again then parse_commands p' else Some p')"
  by pat_completeness auto
termination
  by (relation "measure (\<lambda>p. pbufferSize p - bufferPos p)") (auto dest!: parseNextCommand_grows)

declare parse_commands.simps [simp del]

section \<open>Streams of commands\<close>

text \<open>
  What the converter writes: a command of a fixed size, a tool command with its header of three
  bytes (the last one the size of its payload), a message or a build name with four bytes of options
  and a terminator. The terminator is not part of the unit: the parser takes it for a command of
  its own.
\<close>

datatype s3g_unit = Fixed nat bytes | Tool bytes bytes | Display bytes string | Build bytes string

fun is_text :: "s3g_unit \<Rightarrow> bool" where
  "is_text (Display opts msg) = True"
| "is_text (Build opts msg) = True"
| "is_text _ = False"

text \<open>The bytes of arguments that the protocol gives each command (the moves have coordinates and a
  rate of four bytes each, and so on), a table apart from the formats of the program; every other
  code has none.\<close>

definition ARGUMENT_SIZES :: "(nat \<times> nat) list" where
  "ARGUMENT_SIZES =
     [(129, 16), (130, 12), (131, 7), (132, 7), (133, 4), (134, 1), (135, 5), (137, 1), (138, 2), (139, 24),
      (140, 20), (141, 5), (142, 25), (143, 1), (144, 1), (145, 2), (146, 5), (147, 5), (148, 4), (150, 2),
      (151, 1), (152, 1), (154, 1), (155, 31), (156, 1), (157, 20), (158, 4)]"

definition argument_size :: "nat \<Rightarrow> nat" where
  "argument_size c = (case map_of ARGUMENT_SIZES c of None \<Rightarrow> 0 | Some n \<Rightarrow> n)"

fun unit_ok :: "s3g_unit \<Rightarrow> bool" where
  "unit_ok (Fixed c data) \<longleftrightarrow> c < 256 \<and> c \<notin> {136, 149, 153} \<and> length data = argument_size c"
| "unit_ok (Tool head payload) \<longleftrightarrow> length head = 3 \<and> length payload = byte_of (head ! 2)"
| "unit_ok (Display opts msg) \<longleftrightarrow> length opts = 4 \<and> NUL \<notin> set msg"
| "unit_ok (Build opts msg) \<longleftrightarrow> length opts = 4 \<and> NUL \<notin> set msg"

fun unit_bytes :: "s3g_unit \<Rightarrow> bytes" where
  "unit_bytes (Fixed c data) = char_of c # data"
| "unit_bytes (Tool head payload) = char_of (136 :: nat) # head @ payload"
| "unit_bytes (Display opts msg) = char_of (149 :: nat) # opts @ msg"
| "unit_bytes (Build opts msg) = char_of (153 :: nat) # opts @ msg"

fun unit_command :: "s3g_unit \<Rightarrow> bytes" where
  "unit_command (Fixed c data) = char_of c # data"
| "unit_command (Tool head payload) = char_of (136 :: nat) # head @ payload"
| "unit_command (Display opts msg) = char_of (149 :: nat) # msg"
| "unit_command (Build opts msg) = char_of (153 :: nat) # msg"

fun stream_ok :: "s3g_unit list \<Rightarrow> bool" where
  "stream_ok [] \<longleftrightarrow> True"
| "stream_ok (u # us) \<longleftrightarrow> unit_ok u \<and> (is_text u \<longrightarrow> us \<noteq> [] \<and> hd us = Fixed 0 []) \<and> stream_ok us"

definition stream_bytes :: "s3g_unit list \<Rightarrow> bytes" where
  "stream_bytes us = concat (map unit_bytes us)"

section \<open>The parser on a stream\<close>

text \<open>The formats of the program describe arguments of these sizes.\<close>

lemma packet_len_argument [simp]: "packet_len c = argument_size c"
  by (simp add: command_format_def argument_size_def ARGUMENT_SIZES_def calcsize_def calcsize_char_def)

lemma char_of_inj: "c < 256 \<Longrightarrow> d < 256 \<Longrightarrow> (char_of c :: char) = char_of d \<longleftrightarrow> c = (d :: nat)"
  by (metis of_char_of mod_less)

text \<open>The state after a unit.\<close>

definition past :: "S3GParser \<Rightarrow> s3g_unit \<Rightarrow> S3GParser" where
  "past p u = p\<lparr>bufferPos := bufferPos p + length (unit_bytes u), lineNumber := lineNumber p + 1,
     commands := commands p @ [unit_command u]\<rparr>"

abbreviation rest_of :: "S3GParser \<Rightarrow> bytes" where
  "rest_of p \<equiv> drop (bufferPos p) (pbuffer p)"

definition whole :: "S3GParser \<Rightarrow> bool" where
  "whole p \<longleftrightarrow> pbufferSize p = length (pbuffer p)"

lemma whole_past [simp]: "whole (past p u) = whole p"
  by (simp add: whole_def past_def)

lemma rest_past: "rest_of p = unit_bytes u @ r \<Longrightarrow> rest_of (past p u) = r"
proof -
  assume "rest_of p = unit_bytes u @ r"
  then have "drop (length (unit_bytes u)) (rest_of p) = r" by simp
  then show ?thesis by (simp add: past_def add.commute)
qed

lemma parse_step:
  assumes "whole p" "bufferPos p < length (pbuffer p)" "c = byte_of (pbuffer p ! bufferPos p)"
  shows "parseNextCommand p = Option.bind
      (if c = 136 then parseToolAction (p\<lparr>bufferPos := bufferPos p + 1\<rparr>)
       else if c = 149 then parseDisplayMessageAction (p\<lparr>bufferPos := bufferPos p + 1\<rparr>)
       else if c = 153 then parseBuildStartNotificationAction (p\<lparr>bufferPos := bufferPos p + 1\<rparr>)
       else parse_fixed c (p\<lparr>bufferPos := bufferPos p + 1\<rparr>))
      (\<lambda>p2. Some (True, p2\<lparr>lineNumber := lineNumber p2 + 1\<rparr>))"
  using assms by (simp add: parseNextCommand_def whole_def byte_at_def Let_def)

lemma parse_unit:
  assumes w: "whole p" and u: "unit_ok u" and r: "rest_of p = unit_bytes u @ r"
    and t: "is_text u \<longrightarrow> r \<noteq> [] \<and> hd r = NUL"
  shows "parseNextCommand p = Some (True, past p u)"
proof -
  have "\<exists>c data. unit_bytes u = char_of (c :: nat) # data \<and> c < 256"
  proof (cases u)
    case (Fixed c data)
    with u show ?thesis by (intro exI [of _ c] exI [of _ data]) auto
  qed (auto intro: exI [of _ 136] exI [of _ 149] exI [of _ 153])
  then obtain c :: nat and data where cd: "unit_bytes u = char_of c # data" "c < 256" by blast
  have "rest_of p \<noteq> []" using r cd by simp
  then have lt: "bufferPos p < length (pbuffer p)" by simp
  have b: "pbuffer p ! bufferPos p = char_of c" using nth_via_drop [of "bufferPos p" "pbuffer p"] r cd by simp
  let ?p = "p\<lparr>bufferPos := bufferPos p + 1\<rparr>"
  have d1: "drop (bufferPos p + 1) (pbuffer p) = data @ r"
    using r cd by (metis append_Cons drop_Suc list.sel(3) tl_drop Suc_eq_plus1)
  have len: "length (pbuffer p) = bufferPos p + 1 + length data + length r"
    using arg_cong [OF d1, of length] lt by simp
  have at: "drop (bufferPos p + 1 + k) (pbuffer p) = drop k (data @ r)" for k
    using d1 by (metis add.commute drop_drop)
  have c: "byte_of (char_of c :: char) = c" using cd by simp
  note step = parse_step [OF w lt, of c, unfolded b c, OF refl]
  show ?thesis
  proof (cases u)
    case (Fixed c' data')
    with cd u have f: "c' = c" "data' = data" by (auto simp: char_of_inj)
    then show ?thesis
      using step u Fixed d1 len by (simp add: parse_fixed_def bytes_at_def push_command_def past_def)
  next
    case (Tool head payload)
    with cd u have f: "c = 136" "data = head @ payload" "length head = 3" "length payload = byte_of (head ! 2)"
      by (auto simp: char_of_inj)
    have "pbuffer p ! (bufferPos p + 3) = head ! 2"
    proof -
      have "pbuffer p ! (bufferPos p + 1 + 2) = drop (bufferPos p + 1) (pbuffer p) ! 2" using len by (intro nth_drop [symmetric]) simp
      also have "\<dots> = head ! 2" unfolding d1 using f by (simp add: nth_append)
      finally show ?thesis by (simp add: eval_nat_numeral)
    qed
    then show ?thesis
      using step Tool f d1 at [of 3] len
      by (simp add: parseToolAction_def bytes_at_def byte_at_def push_command_def past_def eval_nat_numeral)
  next
    case (Display opts msg)
    then have f: "c = 149" "data = opts @ msg" "length opts = 4" "NUL \<notin> set msg"
      using cd u by (auto simp: char_of_inj)
    from t Display obtain r' where "r = NUL # r'" by (cases r) auto
    then have "drop (5 + bufferPos p) (pbuffer ?p) = msg @ NUL # r'" using at [of 4] f by (simp add: add.commute)
    then show ?thesis
      using step Display f read_text_finds [of "5 + bufferPos p" ?p msg r' "[]"]
      by (simp add: parseDisplayMessageAction_def push_command_def past_def)
  next
    case (Build opts msg)
    then have f: "c = 153" "data = opts @ msg" "length opts = 4" "NUL \<notin> set msg"
      using cd u by (auto simp: char_of_inj)
    from t Build obtain r' where "r = NUL # r'" by (cases r) auto
    then have "drop (5 + bufferPos p) (pbuffer ?p) = msg @ NUL # r'" using at [of 4] f by (simp add: add.commute)
    then show ?thesis
      using step Build f read_text_finds [of "5 + bufferPos p" ?p msg r' "[]"]
      by (simp add: parseBuildStartNotificationAction_def push_command_def past_def)
  qed
qed

lemma bytes_at_Some: "bytes_at p pos n = Some d \<longleftrightarrow> pos + n \<le> length (pbuffer p) \<and> d = take n (drop pos (pbuffer p))"
  by (auto simp: bytes_at_def)

lemma byte_at_Some: "byte_at p pos = Some c \<longleftrightarrow> pos < length (pbuffer p) \<and> c = pbuffer p ! pos"
  by (auto simp: byte_at_def)

text \<open>Every command the parser accepts is a unit of the stream.\<close>

lemma unit_of_parse:
  assumes w: "whole p" and s: "parseNextCommand p = Some (True, p')"
  obtains u where "unit_ok u" "rest_of p = unit_bytes u @ rest_of p'" "p' = past p u"
    "is_text u \<longrightarrow> rest_of p' \<noteq> [] \<and> hd (rest_of p') = NUL"
proof -
  let ?b = "pbuffer p" and ?n = "bufferPos p"
  let ?p = "p\<lparr>bufferPos := ?n + 1\<rparr>"
  define c where "c = byte_of (?b ! ?n)"
  have lt: "?n < length ?b" using s w by (auto simp: parseNextCommand_def whole_def split: if_splits)
  obtain p2 where p2: "(if c = 136 then parseToolAction ?p else if c = 149 then parseDisplayMessageAction ?p
       else if c = 153 then parseBuildStartNotificationAction ?p else parse_fixed c ?p) = Some p2"
     and p': "p' = p2\<lparr>lineNumber := lineNumber p2 + 1\<rparr>"
    using s unfolding parse_step [OF w lt c_def] by (auto simp only: bind_eq_Some_conv option.inject prod.inject)
  have c: "c < 256" "char_of c = ?b ! ?n" by (simp_all add: c_def)
  have r: "rest_of p = ?b ! ?n # drop (?n + 1) ?b" using lt by (simp add: Cons_nth_drop_Suc)
  note got = that
  have text_case: "thesis" if c': "c = 149 \<or> c = 153" and rt: "read_text ?p (5 + ?n) [] = Some (msg, pos)"
    and p2: "p2 = push_command c msg pos ?p" for msg pos
  proof -
    have t: "5 + ?n \<le> pos" "pos < length ?b" "?b ! pos = NUL" "NUL \<notin> set msg"
        "msg = take (pos - (5 + ?n)) (drop (5 + ?n) ?b)"
      using read_text_bounds [OF rt] by auto
    define opts where "opts = take 4 (drop (?n + 1) ?b)"
    define u where "u = (if c = 149 then Display opts msg else Build opts msg)"
    have o: "length opts = 4" using t(1,2) by (simp add: opts_def)
    have l: "length msg = pos - (5 + ?n)" using t(1,2) by (simp add: t(5))
    have "drop (?n + 1) ?b = opts @ drop (5 + ?n) ?b"
      using append_take_drop_id [of 4 "drop (?n + 1) ?b"] by (simp add: opts_def add.commute)
    also have "drop (5 + ?n) ?b = msg @ drop pos ?b"
      using append_take_drop_id [of "pos - (5 + ?n)" "drop (5 + ?n) ?b"] t(1,5) by simp
    finally have d: "rest_of p = unit_bytes u @ drop pos ?b" using r c c' by (auto simp: u_def)
    have "p' = past p u" using p' p2 c' o l t(1) by (auto simp: push_command_def past_def u_def)
    moreover have "rest_of p' = drop pos ?b" using p' p2 by (simp add: push_command_def)
    moreover have "unit_ok u" using o t(4) by (auto simp: u_def)
    moreover have "drop pos ?b \<noteq> []" "hd (drop pos ?b) = NUL" using t(2,3) by (auto simp: hd_drop_conv_nth)
    ultimately show thesis using d by - (rule got [of u]; simp)
  qed
  consider "c = 136" | "c = 149" | "c = 153" | "c \<notin> {136, 149, 153}" by blast
  then show ?thesis
  proof cases
    case 1
    let ?l = "byte_of (?b ! (?n + 3))"
    let ?head = "take 3 (drop (?n + 1) ?b)" and ?pl = "take ?l (drop (?n + 4) ?b)"
    have f: "?n + 4 + ?l \<le> length ?b" "p2 = push_command 136 (?head @ ?pl) (?n + 4 + ?l) ?p"
      using p2 1 by (auto simp: parseToolAction_def bind_eq_Some_conv bytes_at_Some byte_at_Some eval_nat_numeral)
    have h: "?head ! 2 = ?b ! (?n + 3)" using f by (simp add: eval_nat_numeral)
    have "drop (?n + 1) ?b = ?head @ drop (?n + 4) ?b"
      using append_take_drop_id [of 3 "drop (?n + 1) ?b"] by (simp add: add.commute)
    also have "drop (?n + 4) ?b = ?pl @ drop (?n + 4 + ?l) ?b"
      using append_take_drop_id [of ?l "drop (?n + 4) ?b"] by (simp add: add.commute)
    finally have "rest_of p = unit_bytes (Tool ?head ?pl) @ drop (?n + 4 + ?l) ?b" using r c 1 by simp
    moreover have "p' = past p (Tool ?head ?pl)" using p' f by (simp add: push_command_def past_def)
    moreover have "rest_of p' = drop (?n + 4 + ?l) ?b" using p' f by (simp add: push_command_def)
    moreover have "unit_ok (Tool ?head ?pl)" using f h by simp
    ultimately show ?thesis by - (rule that [of "Tool ?head ?pl"]; simp)
  next
    case 2
    then show ?thesis using p2 text_case by (auto simp: parseDisplayMessageAction_def)
  next
    case 3
    then show ?thesis using p2 text_case by (auto simp: parseBuildStartNotificationAction_def)
  next
    case 4
    let ?k = "packet_len c"
    let ?d = "take ?k (drop (?n + 1) ?b)"
    have f: "?n + 1 + ?k \<le> length ?b" "p2 = push_command c ?d (?n + 1 + ?k) ?p"
      using p2 4 by (auto simp: parse_fixed_def bytes_at_Some)
    have "drop (?n + 1) ?b = ?d @ drop (?n + 1 + ?k) ?b"
      using append_take_drop_id [of ?k "drop (?n + 1) ?b"] by (simp add: add.commute)
    then have "rest_of p = unit_bytes (Fixed c ?d) @ drop (?n + 1 + ?k) ?b" using r c by simp
    moreover have "p' = past p (Fixed c ?d)" using p' f by (simp add: push_command_def past_def)
    moreover have "rest_of p' = drop (?n + 1 + ?k) ?b" using p' f by (simp add: push_command_def)
    moreover have "unit_ok (Fixed c ?d)" using f c 4 by simp
    ultimately show ?thesis by - (rule that [of "Fixed c ?d"]; simp)
  qed
qed

lemma parse_end: "whole p \<Longrightarrow> parseNextCommand p = Some (False, p') \<longleftrightarrow> rest_of p = [] \<and> p' = p"
  by (auto simp: parseNextCommand_def whole_def bind_eq_Some_conv Let_def)

lemma unit_first: "unit_ok u \<Longrightarrow> unit_bytes u = NUL # r \<Longrightarrow> u = Fixed 0 [] \<and> r = []"
proof (cases u)
  case (Fixed c data)
  assume "unit_ok u" "unit_bytes u = NUL # r"
  moreover have "NUL = char_of (0 :: nat)" by (simp add: char_of_def)
  moreover from calculation Fixed have "c = 0" using char_of_inj [of c 0] by simp
  ultimately show ?thesis using Fixed by (simp add: argument_size_def ARGUMENT_SIZES_def)
qed (auto simp: char_of_def)

lemma stream_first:
  "stream_ok us \<Longrightarrow> stream_bytes us \<noteq> [] \<and> hd (stream_bytes us) = NUL \<longleftrightarrow> us \<noteq> [] \<and> hd us = Fixed 0 []"
proof (cases us)
  case (Cons u vs)
  assume ok: "stream_ok us"
  obtain c r where c: "unit_bytes u = c # r" by (cases u) auto
  show ?thesis
  proof
    assume "stream_bytes us \<noteq> [] \<and> hd (stream_bytes us) = NUL"
    then show "us \<noteq> [] \<and> hd us = Fixed 0 []" using unit_first [of u r] c Cons ok by (simp add: stream_bytes_def)
  qed (use Cons in \<open>auto simp: stream_bytes_def char_of_def\<close>)
qed (simp add: stream_bytes_def)

lemma parse_stream:
  "whole p \<Longrightarrow> stream_ok us \<Longrightarrow> rest_of p = stream_bytes us \<Longrightarrow>
     \<exists>p'. parse_commands p = Some p' \<and> commands p' = commands p @ map unit_command us"
proof (induction us arbitrary: p)
  case Nil
  then have "parseNextCommand p = Some (False, p)" by (simp add: parse_end stream_bytes_def)
  then show ?case by (simp add: parse_commands.simps [of p])
next
  case (Cons u us)
  have r: "rest_of p = unit_bytes u @ stream_bytes us" using Cons.prems(3) by (simp add: stream_bytes_def)
  have "parseNextCommand p = Some (True, past p u)"
    using Cons.prems r stream_first [of us] by (intro parse_unit [where r = "stream_bytes us"]) simp_all
  moreover obtain p' where "parse_commands (past p u) = Some p'"
      "commands p' = commands (past p u) @ map unit_command us"
    using Cons.IH [of "past p u"] Cons.prems rest_past [OF r] by auto
  ultimately show ?case by (simp add: parse_commands.simps [of p] past_def)
qed

lemma parsed_stream:
  "parse_commands p = Some p' \<Longrightarrow> whole p \<Longrightarrow>
     \<exists>us. stream_ok us \<and> rest_of p = stream_bytes us \<and> commands p' = commands p @ map unit_command us"
proof (induction p arbitrary: p' rule: parse_commands.induct)
  case (1 p)
  then obtain again q where q: "parseNextCommand p = Some (again, q)"
    by (auto simp: parse_commands.simps [of p] split: option.splits)
  have pc: "parse_commands p = (if again then parse_commands q else Some q)"
    using q by (simp add: parse_commands.simps [of p])
  show ?case
  proof (cases again)
    case False
    with q pc "1.prems" have "rest_of p = []" "p' = p" by (simp_all add: parse_end)
    then show ?thesis by (intro exI [of _ "[]"]) (simp add: stream_bytes_def)
  next
    case True
    obtain u where u: "unit_ok u" "rest_of p = unit_bytes u @ rest_of q" "q = past p u"
        "is_text u \<longrightarrow> rest_of q \<noteq> [] \<and> hd (rest_of q) = NUL"
      using unit_of_parse [OF "1.prems"(2)] q True by metis
    have "parse_commands q = Some p'" "whole q"
      using "1.prems" pc True u(3) by simp_all
    then obtain us where us: "stream_ok us" "rest_of q = stream_bytes us" "commands p' = commands q @ map unit_command us"
      using "1.IH" [OF q refl] True by blast
    have "stream_ok (u # us)" using u(1,4) us(1,2) stream_first [OF us(1)] by simp
    moreover have "rest_of p = stream_bytes (u # us)" using u(2) us(2) by (simp add: stream_bytes_def)
    moreover have "commands p' = commands p @ map unit_command (u # us)" using us(3) u(3) by (simp add: past_def)
    ultimately show ?thesis by blast
  qed
qed

section \<open>Properties\<close>

text \<open>C12: The parser reads inside its buffer, and returns, for exactly the buffers that are a
  stream of S3G commands, each with as many bytes of arguments as the protocol gives it
  (\<open>argument_size\<close>), and then it has cut the stream into its commands in order; each message and
  each build name, however, loses its options and leaves its terminator behind, which becomes a command
  of its own, code 0.\<close>

theorem parser_splits_streams:
  "map_option commands (parse_commands (setBuffer buf (length buf) p)) = Some out \<longleftrightarrow>
     (\<exists>us. stream_ok us \<and> buf = stream_bytes us \<and> out = commands p @ map unit_command us)"
proof -
  let ?p = "setBuffer buf (length buf) p"
  have p: "whole ?p" "rest_of ?p = buf" "commands ?p = commands p" by (simp_all add: setBuffer_def whole_def)
  show ?thesis
  proof
    assume "map_option commands (parse_commands ?p) = Some out"
    then show "\<exists>us. stream_ok us \<and> buf = stream_bytes us \<and> out = commands p @ map unit_command us"
      using parsed_stream [of ?p] p by auto
  next
    assume "\<exists>us. stream_ok us \<and> buf = stream_bytes us \<and> out = commands p @ map unit_command us"
    then obtain us where us: "stream_ok us" "buf = stream_bytes us" "out = commands p @ map unit_command us" by blast
    show "map_option commands (parse_commands ?p) = Some out"
      using parse_stream [OF p(1) us(1)] p(2,3) us(2,3) by auto
  qed
qed
theorem parser_splits_streams_witness:
  "let buf = map char_of [137, 31, 131, 3, 1, 0, 0, 0, 20, 0, 149, 0, 0, 0, 9, 72, 105, 0, 136, 0, 6, 1, 5 :: nat] in
   map_option commands (parse_commands (setBuffer buf (length buf) S3GParser_init)) =
     Some (map (map char_of) [[137, 31], [131, 3, 1, 0, 0, 0, 20, 0], [149, 72, 105], [0], [136, 0, 6, 1, 5 :: nat]])"
proof -
  let ?us = "[Fixed 137 (map char_of [31 :: nat]), Fixed 131 (map char_of [3, 1, 0, 0, 0, 20, 0 :: nat]),
    Display (map char_of [0, 0, 0, 9 :: nat]) (map char_of [72, 105 :: nat]), Fixed 0 [],
    Tool (map char_of [0, 6, 1 :: nat]) (map char_of [5 :: nat])]"
  let ?b = "map char_of [137, 31, 131, 3, 1, 0, 0, 0, 20, 0, 149, 0, 0, 0, 9, 72, 105, 0, 136, 0, 6, 1, 5 :: nat]"
  have ok: "stream_ok ?us" by (simp add: argument_size_def ARGUMENT_SIZES_def char_of_def bit_Suc_0_iff)
  have b: "?b = stream_bytes ?us" by (simp add: stream_bytes_def)
  have out: "map (map char_of) [[137, 31], [131, 3, 1, 0, 0, 0, 20, 0], [149, 72, 105], [0], [136, 0, 6, 1, 5 :: nat]] =
      commands S3GParser_init @ map unit_command ?us" by (simp add: S3GParser_init_def)
  show ?thesis
    unfolding Let_def by (rule parser_splits_streams [THEN iffD2]) (intro exI [of _ ?us] conjI ok b out)
qed

end
