(* ===== verification/Makerbot.thy ===== *)
theory Makerbot
  imports Driver S3GParser
begin

text \<open>
  The driver of Makerbot printers, \<open>src/src/drivers/MakerbotDriver.cpp\<close>: the record of
  \<open>AbstractDriver\<close> extended by the members of the class (and the two counters of the file), the
  conversion of g-code to a queue of S3G commands, the packets with their checksum and their replies,
  and the periodic \<open>update\<close>. The GPX library is a parameter (\<open>mb_env\<close>): its state is
  of a type of its own, \<open>gpx_convert\<close> gives the converted bytes. The events of the port that
  are still to be read are part of the state. The ratio of commands to lines, a float that is only
  logged, is left out.

  A result is \<open>None\<close> where the code is undefined, \<open>Exit\<close> where it ends the
  process, \<open>Go\<close> otherwise.
\<close>

unbundle bit_operations_syntax

section \<open>State\<close>

record 'g mb_env =
  gpx_clear_state :: "'g \<Rightarrow> 'g"
  gpx_setSuppressEpilogue :: "int \<Rightarrow> 'g \<Rightarrow> 'g"
  gpx_setBuildName :: "string \<Rightarrow> 'g \<Rightarrow> 'g"
  gpx_convert :: "bytes \<Rightarrow> 'g \<Rightarrow> bytes \<times> 'g"
  little_endian_macro :: bool
  little_endian_host :: bool

record 'g MakerbotDriver = AbstractDriver +
  parser :: S3GParser
  bufferSpace :: "32 word"
  queue :: "bytes list"
  validResponseReceived :: bool
  firmwareVersion :: "32 word"
  lastCode :: int
  counter :: int
  gpx :: 'g
  port_events :: "read_ev list"

definition PRINTER_BUFFER_SIZE :: int where "PRINTER_BUFFER_SIZE = 512"
definition GCODE_CVT_LINES :: nat where "GCODE_CVT_LINES = 25"
definition QUEUE_MIN_SIZE :: nat where "QUEUE_MIN_SIZE = 10"
definition QUEUE_FILL_SIZE :: nat where "QUEUE_FILL_SIZE = 30"

definition MakerbotDriver_init :: "'g mb_env \<Rightarrow> 'g \<Rightarrow> string \<Rightarrow> 32 word \<Rightarrow> 'g MakerbotDriver" where
  "MakerbotDriver_init env g path baud =
     (let d = AbstractDriver_init path baud
      in AbstractDriver.extend (d\<lparr>gcodeBuffer := setKeepGpxMacroComments True (gcodeBuffer d)\<rparr>)
        \<lparr>parser = S3GParser_init, bufferSpace = word_of_int PRINTER_BUFFER_SIZE, queue = [],
         validResponseReceived = False, firmwareVersion = 0, lastCode = -1, counter = 0,
         gpx = gpx_setBuildName env ''    Doodle3D'' (gpx_setSuppressEpilogue env 1 (gpx_clear_state env g)),
         port_events = []\<rparr>)"

text \<open>Sequencing, with early ends.\<close>

fun obind :: "'a outcome option \<Rightarrow> ('a \<Rightarrow> 'b outcome option) \<Rightarrow> 'b outcome option" where
  "obind None f = None"
| "obind (Some (Exit rv)) f = Some (Exit rv)"
| "obind (Some (Go x)) f = f x"

lemma obind_Go: "obind r f = Some (Go y) \<longleftrightarrow> (\<exists>x. r = Some (Go x) \<and> f x = Some (Go y))"
  by (cases "(r, f)" rule: obind.cases) auto

section \<open>Conversion\<close>

definition queueCommands :: "bytes list \<Rightarrow> 'g MakerbotDriver \<Rightarrow> 'g MakerbotDriver" where
  "queueCommands cmds d = d\<lparr>queue := queue d @ cmds\<rparr>"

definition convertGCode :: "'g mb_env \<Rightarrow> string \<Rightarrow> 'g MakerbotDriver \<Rightarrow> (nat \<times> 'g MakerbotDriver) option" where
  "convertGCode env gcode d =
     (let oldQueueSize = length (queue d)
      in if length gcode = 0 then Some (0, d)
         else do {
           let (cvtBuf, g) = gpx_convert env gcode (gpx d);
           p \<leftarrow> parse_commands (setBuffer cvtBuf (length cvtBuf) (parser d));
           let d1 = queueCommands (commands p) (d\<lparr>gpx := g\<rparr>);
           Some (length (queue d1) - oldQueueSize, d1\<lparr>parser := p\<lparr>commands := []\<rparr>\<rparr>)
         })"

definition resetPrinterBuffer :: "'g MakerbotDriver \<Rightarrow> 'g MakerbotDriver" where
  "resetPrinterBuffer d = d"

definition mb_abort :: "'g MakerbotDriver \<Rightarrow> 'g MakerbotDriver" where
  "mb_abort d = d"

definition fullStop :: "'g mb_env \<Rightarrow> 'g MakerbotDriver \<Rightarrow> 'g MakerbotDriver" where
  "fullStop env d =
     (let d1 = d\<lparr>queue := [], gpx := gpx_clear_state env (gpx d)\<rparr>
      in if isConnected d1 then mb_abort (resetPrinterBuffer d1) else d1)"

definition MB_setGCode ::
  "'g mb_env \<Rightarrow> string \<Rightarrow> int \<Rightarrow> MetaData option \<Rightarrow> 'g MakerbotDriver \<Rightarrow>
     (GCODE_SET_RESULT \<times> 'g MakerbotDriver) option" where
  "MB_setGCode env gcode totalLines metaData d =
     map_option (\<lambda>(gsr, d1). (gsr, fullStop env d1)) (AD_setGCode gcode totalLines metaData d)"

definition MB_clearGCode :: "'g mb_env \<Rightarrow> 'g MakerbotDriver \<Rightarrow> 'g MakerbotDriver" where
  "MB_clearGCode env d = fullStop env (AD_clearGCode d)"

definition MB_resetPrint :: "'g MakerbotDriver \<Rightarrow> bool \<times> 'g MakerbotDriver" where
  "MB_resetPrint d = (let (ok, d1) = AD_resetPrint d in if \<not> ok then (False, d1) else (True, d1))"

definition MB_startPrint :: "STATE \<Rightarrow> 'g MakerbotDriver \<Rightarrow> (bool \<times> 'g MakerbotDriver) option" where
  "MB_startPrint st d = Some (AD_startPrint MB_resetPrint st d)"

definition MB_startPrintCode ::
  "'g mb_env \<Rightarrow> string \<Rightarrow> STATE \<Rightarrow> 'g MakerbotDriver \<Rightarrow> (bool \<times> 'g MakerbotDriver) option" where
  "MB_startPrintCode env gcode st d = do {
     (gsr, d1) \<leftarrow> MB_setGCode env gcode (-1) None d;
     MB_startPrint st d1
   }"

definition MB_stopPrintCode ::
  "'g mb_env \<Rightarrow> string \<Rightarrow> 'g MakerbotDriver \<Rightarrow> (bool \<times> 'g MakerbotDriver) option" where
  "MB_stopPrintCode env endcode d = do {
     (gsr, d1) \<leftarrow> MB_setGCode env endcode (-1) None (MB_clearGCode env d);
     AD_stopPrintCode MB_resetPrint (MB_setGCode env) MB_startPrint endcode d1
   }"

definition MB_stopPrint :: "'g mb_env \<Rightarrow> 'g MakerbotDriver \<Rightarrow> (bool \<times> 'g MakerbotDriver) option" where
  "MB_stopPrint env d = MB_stopPrintCode env [] d"

text \<open>The two methods with an empty body.\<close>

definition MB_sendCode :: "string \<Rightarrow> 'g MakerbotDriver \<Rightarrow> 'g MakerbotDriver option" where
  "MB_sendCode code d = Some d"

definition MB_readResponseCode :: "string \<Rightarrow> 'g MakerbotDriver \<Rightarrow> 'g MakerbotDriver option" where
  "MB_readResponseCode code d = Some d"
section \<open>Checksum and numbers\<close>

definition crc_step :: "8 word \<Rightarrow> 8 word" where
  "crc_step crc = (if crc AND 1 \<noteq> 0 then drop_bit 1 crc XOR 0x8C else drop_bit 1 crc)"

definition crc_ibutton_update :: "8 word \<Rightarrow> 8 word \<Rightarrow> 8 word" where
  "crc_ibutton_update crc data = (crc_step ^^ 8) (crc XOR data)"

abbreviation byte_word :: "char \<Rightarrow> 8 word" where "byte_word c \<equiv> word_of_nat (byte_of c)"

text \<open>The loops over a packet.\<close>

definition crc_bytes :: "8 word \<Rightarrow> bytes \<Rightarrow> 8 word" where
  "crc_bytes crc data = foldl (\<lambda>crc b. crc_ibutton_update crc (byte_word b)) crc data"

definition getResponseMessage :: "int \<Rightarrow> string" where
  "getResponseMessage code =
     (if code = 0x80 then ''Generic Packet error, packet discarded''
      else if code = 0x81 then ''Success''
      else if code = 0x82 then ''Action buffer overflow, entire packet discarded''
      else if code = 0x83 then ''CRC mismatch, packet discarded''
      else if code = 0x84 then ''Query packet too big, packet discarded''
      else if code = 0x85 then ''Command not supported/recognized''
      else if code = 0x87 then ''Downstream timeout''
      else if code = 0x88 then ''Tool lock timeout''
      else if code = 0x89 then ''Cancel build''
      else if code = 0x8A then ''Bot is Building from SD''
      else if code = 0x8B then ''Bot is shutdown due to Overheat''
      else if code = 0x8C then ''Packet timeout error, packet discarded''
      else ''Unknown response code: '' @ itoa code)"

text \<open>
  Numbers of the reply, at a position that must lie in it. \<open>read32\<close> swaps the four bytes
  unless the macro is defined, and then reads them in the order of the host.
\<close>

fun le_value :: "bytes \<Rightarrow> nat" where
  "le_value [] = 0"
| "le_value (b # bs) = byte_of b + 256 * le_value bs"

definition read16 :: "bytes \<Rightarrow> nat \<Rightarrow> 16 word option" where
  "read16 buf pos = (if pos + 2 \<le> length buf then Some (word_of_nat (le_value (take 2 (drop pos buf)))) else None)"

definition read32 :: "'g mb_env \<Rightarrow> bytes \<Rightarrow> nat \<Rightarrow> 32 word option" where
  "read32 env buf pos =
     (if pos + 4 \<le> length buf then
        let b = take 4 (drop pos buf); b1 = (if little_endian_macro env then b else rev b)
        in Some (word_of_nat (le_value (if little_endian_host env then b1 else rev b1)))
      else None)"

section \<open>Packets\<close>

text \<open>What a failed read leads to; closing the port is followed by the end of the process.\<close>

definition handleReadError :: "int \<Rightarrow> int \<Rightarrow> bool" where
  "handleReadError rv errno \<longleftrightarrow> rv = -2 \<or> rv = -1 \<and> errno = ENXIO \<or> rv = -1 \<and> errno = EBADF"

definition readAndCheckError_byte :: "int \<Rightarrow> 'g MakerbotDriver \<Rightarrow> (int \<times> 'g MakerbotDriver) outcome option" where
  "readAndCheckError_byte timeout d =
     (let (rv, e, es) = readByteDirect timeout (port_events d)
      in Some (if handleReadError rv e then Exit 1 else Go (rv, d\<lparr>port_events := es\<rparr>)))"

definition readAndCheckError ::
  "nat \<Rightarrow> int \<Rightarrow> 'g MakerbotDriver \<Rightarrow> (int \<times> bytes \<times> 'g MakerbotDriver) outcome option" where
  "readAndCheckError buflen timeout d =
     (let (rv, e, data, es) = readBytesDirect buflen timeout (port_events d)
      in Some (if handleReadError rv e then Exit 1 else Go (rv, data, d\<lparr>port_events := es\<rparr>)))"

definition RESPONSE_TIMEOUT :: int where "RESPONSE_TIMEOUT = 250"

definition tool_reading :: "int \<Rightarrow> 16 word \<Rightarrow> 'g MakerbotDriver \<Rightarrow> 'g MakerbotDriver" where
  "tool_reading toolcmd t d =
     (if toolcmd = 2 then d\<lparr>temperature := t\<rparr>
      else if toolcmd = 30 then d\<lparr>bedTemperature := t\<rparr>
      else if toolcmd = 32 then d\<lparr>targetTemperature := t\<rparr>
      else if toolcmd = 33 then d\<lparr>targetBedTemperature := t\<rparr>
      else d)"

text \<open>The switch over the command that was sent.\<close>

definition interpret_response ::
  "'g mb_env \<Rightarrow> nat \<Rightarrow> int \<Rightarrow> bytes \<Rightarrow> 'g MakerbotDriver \<Rightarrow> 'g MakerbotDriver option" where
  "interpret_response env cmd toolcmd buf d =
     (if cmd = 0 then map_option (\<lambda>v. d\<lparr>firmwareVersion := ucast v\<rparr>) (read16 buf 1)
      else if cmd = 2 then map_option (\<lambda>v. d\<lparr>bufferSpace := v\<rparr>) (read32 env buf 1)
      else if cmd = 10 then
        map_option (\<lambda>t. let d1 = tool_reading toolcmd t d
                        in if dstate d1 = CONNECTING then setState IDLE d1 else d1) (read16 buf 1)
      else Some d)"

text \<open>
  The reply to a packet. A data part that is cut short leaves bytes of the array unset, over which
  the checksum is then computed: undefined.
\<close>

definition parseResponse ::
  "'g mb_env \<Rightarrow> nat \<Rightarrow> int \<Rightarrow> 'g MakerbotDriver \<Rightarrow> (int \<times> 'g MakerbotDriver) outcome option" where
  "parseResponse env cmd toolcmd d =
     obind (readAndCheckError_byte RESPONSE_TIMEOUT d) (\<lambda>(rv, d1).
       if rv < 0 then Some (Go (rv, d1))
       else if rv \<noteq> 0xD5 then Some (Go (-99, d1))
       else obind (readAndCheckError_byte RESPONSE_TIMEOUT d1) (\<lambda>(len, d2).
         if len \<le> 0 then Some (Go (len, d2))
         else obind (readAndCheckError (nat len) RESPONSE_TIMEOUT d2) (\<lambda>(rv, buf, d3).
           if rv \<le> 0 then Some (Go (rv, d3))
           else obind (readAndCheckError_byte RESPONSE_TIMEOUT d3) (\<lambda>(crc, d4).
             if crc < 0 then Some (Go (len, d4))
             else if length buf < nat len then None
             else if crc \<noteq> uint (crc_bytes 0 buf) then Some (Go (-3, d4))
             else map_option (\<lambda>d5. Go (0, d5)) (interpret_response env cmd toolcmd buf d4)))))"

text \<open>A byte of a payload; a C++ string has its terminator behind it.\<close>

definition payload_at :: "bytes \<Rightarrow> nat \<Rightarrow> nat option" where
  "payload_at payload i =
     (if i < length payload then Some (byte_of (payload ! i)) else if i = length payload then Some 0 else None)"

definition s3g_packet :: "bytes \<Rightarrow> bytes" where
  "s3g_packet payload =
     [char_of (0xD5 :: nat), char_of (length payload)] @ payload @ [char_of (unat (crc_bytes 0 payload))]"

fun send_tries ::
  "'g mb_env \<Rightarrow> bytes \<Rightarrow> nat \<Rightarrow> int \<Rightarrow> nat \<Rightarrow> 'g MakerbotDriver \<Rightarrow> (int \<times> 'g MakerbotDriver) outcome option" where
  "send_tries env pktBuf cmd toolcmd 0 d = None"
| "send_tries env pktBuf cmd toolcmd (Suc retries) d =
     obind (parseResponse env cmd toolcmd (d\<lparr>serial := snd (serial_write pktBuf (serial d))\<rparr>)) (\<lambda>(rv, d1).
       let d2 = (if rv = 0 then d1\<lparr>validResponseReceived := True\<rparr> else d1)
       in if rv = 0 \<or> rv = -3 \<or> retries = 0 then Some (Go (rv, d2))
          else send_tries env pktBuf cmd toolcmd retries d2)"

definition RETRIES :: nat where "RETRIES = 5"
definition DRAIN_BUF_SIZE :: nat where "DRAIN_BUF_SIZE = 100"

text \<open>
  Bytes that are waiting are read first, as many as the packet has, into an array of 100.
\<close>

definition sendPacket ::
  "'g mb_env \<Rightarrow> bytes \<Rightarrow> bool \<Rightarrow> 'g MakerbotDriver \<Rightarrow> (bool \<times> 'g MakerbotDriver) outcome option" where
  "sendPacket env payload updateBufferSpace d =
     obind (readAndCheckError (length payload) 0 d) (\<lambda>(rv2, buf, d1).
       if length buf > DRAIN_BUF_SIZE then None
       else case payload_at payload 0 of None \<Rightarrow> None | Some cmd \<Rightarrow>
         let d2 = d1\<lparr>lastCode := int cmd,
               bufferSpace := (if updateBufferSpace then bufferSpace d1 - word_of_nat (length payload) else bufferSpace d1)\<rparr>
         in case (if cmd = 10 then map_option int (payload_at payload 2) else Some (-1)) of None \<Rightarrow> None
            | Some toolcmd \<Rightarrow>
                obind (send_tries env (s3g_packet payload) cmd toolcmd RETRIES d2) (\<lambda>(rv, d3). Some (Go (rv = 0, d3))))"

section \<open>Queries\<close>

definition query :: "nat list \<Rightarrow> bytes" where
  "query ns = map char_of ns"

fun send_all :: "'g mb_env \<Rightarrow> bytes list \<Rightarrow> bool \<Rightarrow> 'g MakerbotDriver \<Rightarrow> (bool \<times> 'g MakerbotDriver) outcome option" where
  "send_all env [] rv d = Some (Go (rv, d))"
| "send_all env (p # ps) rv d = obind (sendPacket env p False d) (\<lambda>(ok, d1). send_all env ps (rv \<and> ok) d1)"

definition updateTemperatures :: "'g mb_env \<Rightarrow> 'g MakerbotDriver \<Rightarrow> (bool \<times> 'g MakerbotDriver) outcome option" where
  "updateTemperatures env d = send_all env (map (\<lambda>t. query [10, 0, t]) [2, 30, 32, 33]) True d"

definition getFirmwareVersion :: "'g mb_env \<Rightarrow> 'g MakerbotDriver \<Rightarrow> (32 word \<times> 'g MakerbotDriver) outcome option" where
  "getFirmwareVersion env d = obind (sendPacket env (query [0]) False d) (\<lambda>(ok, d1). Some (Go (firmwareVersion d1, d1)))"

definition requestBufferSpace :: "'g mb_env \<Rightarrow> 'g MakerbotDriver \<Rightarrow> (int \<times> 'g MakerbotDriver) outcome option" where
  "requestBufferSpace env d = obind (sendPacket env (query [2]) True d) (\<lambda>(ok, d1). Some (Go (sint (bufferSpace d1), d1)))"

definition playSong :: "'g mb_env \<Rightarrow> nat \<Rightarrow> 'g MakerbotDriver \<Rightarrow> 'g MakerbotDriver outcome option" where
  "playSong env song d = obind (sendPacket env (query [151, song]) True d) (\<lambda>(ok, d1). Some (Go d1))"

section \<open>The queue\<close>

fun send_queue :: "'g mb_env \<Rightarrow> bytes list \<Rightarrow> 'g MakerbotDriver \<Rightarrow> 'g MakerbotDriver outcome option" where
  "send_queue env [] d = Some (Go (d\<lparr>queue := []\<rparr>))"
| "send_queue env (command # q) d =
     (if length command > unat (bufferSpace d - 5) then Some (Go (d\<lparr>queue := command # q\<rparr>))
      else obind (sendPacket env command True (d\<lparr>queue := q\<rparr>)) (\<lambda>(ok, d1). send_queue env q d1))"

definition processQueue :: "'g mb_env \<Rightarrow> 'g MakerbotDriver \<Rightarrow> 'g MakerbotDriver outcome option" where
  "processQueue env d =
     (if queue d \<noteq> [] then
        obind (requestBufferSpace env d) (\<lambda>(space, d1).
          if space > 480 then send_queue env (queue d1) d1 else Some (Go d1))
      else
        obind (requestBufferSpace env d) (\<lambda>(space, d1).
          Some (Go (if space < PRINTER_BUFFER_SIZE then d1 else setState IDLE d1))))"

section \<open>The periodic update\<close>

definition buffer_measure :: "'g MakerbotDriver \<Rightarrow> nat" where
  "buffer_measure d = length (concat (buckets (gcodeBuffer d)))"

lemma getNextLine_pos:
  assumes "getNextLine k g = (amt, text)" "amt > 0"
  shows "\<exists>b bs. buckets g = b # bs \<and> NL \<in> set b"
proof (cases "buckets g")
  case Nil
  with assms show ?thesis by (simp add: getNextLine_def)
next
  case (Cons b bs)
  have "find_char NL b 0 \<noteq> None"
    using assms Cons by (cases "find_char NL b 0") (simp_all add: getNextLine_def Let_def)
  then show ?thesis using Cons by (simp add: find_char_None)
qed

lemma eraseLine_measure:
  assumes "buckets g = b # bs" "b \<noteq> []" "eraseLine k g = Some (n, g')"
  shows "length (concat (buckets g')) < length (concat (buckets g))"
proof -
  obtain pos c where pc: "(if k > 1 then find_more b (k - 1) (find_char NL b 0) 1 else (find_char NL b 0, 1)) = (pos, c)"
    by fastforce
  let ?rest = "case pos of None \<Rightarrow> [] | Some p \<Rightarrow> drop (p + 1) b"
  have "buckets g' = (if ?rest = [] then bs else ?rest # bs)"
    using assms(3) unfolding eraseLine_def assms(1) list.case Let_def pc prod.case by (auto split: if_splits)
  moreover have "length ?rest < length b" using assms(2) by (cases pos) auto
  ultimately have "\<exists>rest. buckets g' = (if rest = [] then bs else rest # bs) \<and> length rest < length b" by blast
  then show ?thesis using assms by auto
qed

lemma convertGCode_frame:
  assumes "convertGCode env code d = Some (n, d')"
  shows "gcodeBuffer d' = gcodeBuffer d" "dstate d' = dstate d" "serial d' = serial d"
  using assms by (auto simp: convertGCode_def queueCommands_def Let_def bind_eq_Some_conv split: if_splits prod.splits)

text \<open>The loop that fills the queue.\<close>

function refill :: "'g mb_env \<Rightarrow> 'g MakerbotDriver \<Rightarrow> 'g MakerbotDriver option" where
  "refill env d =
     (if length (queue d) < QUEUE_FILL_SIZE then
        let (amt, lines) = getNextLine GCODE_CVT_LINES (gcodeBuffer d)
        in case convertGCode env lines d of None \<Rightarrow> None
           | Some (cmds, d1) \<Rightarrow>
               if amt > 0 then
                 case eraseLine (nat amt) (gcodeBuffer d1) of None \<Rightarrow> None
                 | Some (n, g) \<Rightarrow> refill env (d1\<lparr>gcodeBuffer := setCurrentLine (currentLine g + amt) g\<rparr>)
               else Some d1
      else Some d)"
  by pat_completeness auto
termination
proof (relation "measure (\<lambda>(env, d). buffer_measure d)", goal_cases)
  case (2 env d x amt lines r cmds d1 p n g)
  then have "getNextLine GCODE_CVT_LINES (gcodeBuffer d) = (amt, lines)" "0 < amt" by simp_all
  from getNextLine_pos [OF this] obtain b bs where b: "buckets (gcodeBuffer d) = b # bs" "b \<noteq> []" by fastforce
  have "gcodeBuffer d1 = gcodeBuffer d" using 2 convertGCode_frame by fastforce
  then show ?case using eraseLine_measure [OF b, of "nat amt" n g] 2 by (simp add: buffer_measure_def setCurrentLine_def)
qed simp

declare refill.simps [simp del]

definition is_active :: "'a AbstractDriver_scheme \<Rightarrow> bool" where
  "is_active d \<longleftrightarrow> dstate d = PRINTING \<or> dstate d = STOPPING"

definition UPDATE_TICKS :: int where "UPDATE_TICKS = 30"

text \<open>What every thirtieth update asks the printer.\<close>

definition poll_printer :: "'g mb_env \<Rightarrow> 'g MakerbotDriver \<Rightarrow> 'g MakerbotDriver outcome option" where
  "poll_printer env d =
     obind (if \<not> validResponseReceived d then obind (getFirmwareVersion env d) (\<lambda>(ver, d1). Some (Go d1)) else Some (Go d))
       (\<lambda>d1. obind (updateTemperatures env d1) (\<lambda>(ok, d2).
          obind (requestBufferSpace env d2) (\<lambda>(space, d3). Some (Go (d3\<lparr>counter := 0\<rparr>)))))"

definition MB_update :: "'g mb_env \<Rightarrow> 'g MakerbotDriver \<Rightarrow> (int \<times> 'g MakerbotDriver) outcome option" where
  "MB_update env d =
     (if \<not> isConnected d then Some (Go (-1, d))
      else case (if is_active d \<and> length (queue d) < QUEUE_MIN_SIZE then refill env d else Some d) of None \<Rightarrow> None
      | Some d1 \<Rightarrow>
          obind (if is_active d1 then processQueue env d1 else Some (Go d1)) (\<lambda>d2.
            obind (if counter d2 = UPDATE_TICKS then poll_printer env d2 else Some (Go d2)) (\<lambda>d3.
              Some (Go (1000 div 30, d3\<lparr>counter := counter d3 + 1\<rparr>)))))"

definition MB_getCurrentLine :: "'g MakerbotDriver \<Rightarrow> int" where
  "MB_getCurrentLine d = currentLine (gcodeBuffer d)"

definition MB_getBufferedLines :: "'g MakerbotDriver \<Rightarrow> int" where
  "MB_getBufferedLines d = bufferedLines (gcodeBuffer d)"

section \<open>The checksum\<close>

lemma bit_crc_step: "bit (crc_step c) n \<longleftrightarrow> bit c (Suc n) \<noteq> (bit c 0 \<and> n \<in> {2, 3, 7})"
proof -
  have o: "c AND 1 \<noteq> 0 \<longleftrightarrow> bit c 0" by (simp add: and_one_eq bit_0 odd_iff_mod_2_eq_one)
  have b: "bit (0x8C :: 8 word) n \<longleftrightarrow> n \<in> {2, 3, 7}"
  proof (cases "n < 8")
    case True
    then have "n \<in> {0, 1, 2, 3, 4, 5, 6, 7}" by auto
    then show ?thesis by auto
  next
    case False
    then show ?thesis using bit_imp_le_length [of "0x8C :: 8 word" n] by auto
  qed
  show ?thesis by (cases "bit c 0") (simp_all only: crc_step_def o b if_True if_False bit_xor_iff bit_drop_bit_eq, simp_all)
qed

lemma crc_step_inj: "crc_step a = crc_step b \<Longrightarrow> a = b"
proof (rule bit_word_eqI)
  fix n
  assume eq: "crc_step a = crc_step b" and n: "n < LENGTH(8)"
  have e: "(bit a (Suc n) \<noteq> (bit a 0 \<and> n \<in> {2, 3, 7})) = (bit b (Suc n) \<noteq> (bit b 0 \<and> n \<in> {2, 3, 7}))" for n
    using eq bit_crc_step by metis
  have "\<not> bit a (Suc 7)" "\<not> bit b (Suc 7)" using bit_imp_le_length by fastforce+
  then have 0: "bit a 0 = bit b 0" using e [of 7] by simp
  show "bit a n = bit b n" using 0 e [of "n - 1"] by (cases n) auto
qed

lemma crc_steps_inj: "(crc_step ^^ n) a = (crc_step ^^ n) b \<longleftrightarrow> a = b"
  by (induction n) (auto dest: crc_step_inj)

lemma crc_update_inj: "crc_ibutton_update a x = crc_ibutton_update b x \<longleftrightarrow> a = b"
  "crc_ibutton_update a x = crc_ibutton_update a y \<longleftrightarrow> x = y"
  by (auto simp: crc_ibutton_update_def crc_steps_inj) (metis xor.left_commute xor_self_eq xor.right_neutral)+

lemma byte_word_inj: "byte_word a = byte_word b \<longleftrightarrow> a = b"
  by (auto simp: word_of_nat_eq_iff take_bit_nat_eq_self of_char_eq_iff)

lemma crc_bytes_simps [simp]:
  "crc_bytes c [] = c" "crc_bytes c (b # bs) = crc_bytes (crc_ibutton_update c (byte_word b)) bs"
  "crc_bytes c (xs @ ys) = crc_bytes (crc_bytes c xs) ys"
  by (simp_all add: crc_bytes_def)

lemma crc_bytes_inj: "crc_bytes a bs = crc_bytes b bs \<longleftrightarrow> a = b"
  by (induction bs arbitrary: a b) (simp_all add: crc_update_inj)

lemma crc_one_byte: "crc_bytes c (xs @ x # ys) = crc_bytes c (xs @ y # ys) \<longleftrightarrow> x = y"
  by (simp add: crc_bytes_inj crc_update_inj byte_word_inj)

section \<open>Replies\<close>

definition pending :: "bytes \<Rightarrow> read_ev list \<Rightarrow> read_ev list" where
  "pending b es = (if b = [] then es else RdData b # es)"

lemma read_pending:
  "a \<noteq> [] \<Longrightarrow> readBytesDirect (length a) t (RdData (a @ b) # es) = (int (length a), 0, a, pending b es)"
  by (simp add: pending_def Let_def)

lemma read_byte_pending: "readByteDirect t (RdData (c # b) # es) = (of_char c, 0, pending b es)"
  using read_pending [of "[c]" t b es] by (simp add: readByteDirect_def)

lemma read_pending_or_none:
  "a \<noteq> [] \<Longrightarrow> readBytesDirect (length a) t (pending (a @ b) es) = (int (length a), 0, a, pending b es)"
  "readByteDirect t (pending (c # b) es) = (of_char c, 0, pending b es)"
  using read_pending [of a t b es] read_byte_pending [of t c b es] by (simp_all add: pending_def)

lemma int_of_char: "int (byte_of c) = of_char c"
  by (cases c) (simp add: of_char_def)

lemma of_char_nonneg [simp]: "0 \<le> (of_char c :: int)" "(of_char c :: int) \<noteq> -1" "(of_char c :: int) \<noteq> -2"
proof -
  show "0 \<le> (of_char c :: int)" "(of_char c :: int) \<noteq> -1" "(of_char c :: int) \<noteq> -2"
    by (simp_all add: int_of_char [symmetric])
qed

lemma checked_reads:
  assumes "port_events d = pending (a @ b) es"
  shows "a = [c] \<Longrightarrow> readAndCheckError_byte t d = Some (Go (of_char c, d\<lparr>port_events := pending b es\<rparr>))"
    "a \<noteq> [] \<Longrightarrow> readAndCheckError (length a) t d = Some (Go (int (length a), a, d\<lparr>port_events := pending b es\<rparr>))"
  using assms read_pending_or_none
  by (simp_all add: readAndCheckError_byte_def readAndCheckError_def handleReadError_def)

definition reply_frame :: "bytes \<Rightarrow> char \<Rightarrow> bytes" where
  "reply_frame data crc = [char_of (0xD5 :: nat), char_of (length data)] @ data @ [crc]"

lemma of_char_int [simp]: "(of_char (char_of (n :: nat)) :: int) = int (n mod 256)"
  by (simp add: int_of_char [symmetric])

text \<open>A reply that does not start with 0xD5, and one of length 0.\<close>

lemma parse_no_start:
  assumes "port_events d = RdData (c # b) # es" "c \<noteq> char_of (0xD5 :: nat)"
  shows "parseResponse env cmd toolcmd d = Some (Go (-99, d\<lparr>port_events := pending b es\<rparr>))"
proof -
  have r: "readAndCheckError_byte RESPONSE_TIMEOUT d = Some (Go (of_char c, d\<lparr>port_events := pending b es\<rparr>))"
    using checked_reads(1) [of d "[c]" b es c] assms(1) by (simp add: pending_def)
  have "(of_char c :: int) \<noteq> 0xD5" "\<not> (of_char c :: int) < 0"
    using assms(2) by (metis char_of_char int_of_char of_nat_eq_iff of_nat_numeral) (simp add: not_less)
  then show ?thesis by (simp add: parseResponse_def r)
qed

lemma parse_no_length:
  assumes "port_events d = RdData (char_of (0xD5 :: nat) # NUL # b) # es"
  shows "parseResponse env cmd toolcmd d = Some (Go (0, d\<lparr>port_events := pending b es\<rparr>))"
proof -
  let ?d1 = "d\<lparr>port_events := pending (NUL # b) es\<rparr>"
  have 1: "readAndCheckError_byte RESPONSE_TIMEOUT d = Some (Go (0xD5, ?d1))"
    using checked_reads(1) [of d "[char_of (0xD5 :: nat)]" "NUL # b" es] assms by (simp add: pending_def)
  have 2: "readAndCheckError_byte RESPONSE_TIMEOUT ?d1 = Some (Go (0, d\<lparr>port_events := pending b es\<rparr>))"
    using checked_reads(1) [of ?d1 "[NUL]" b es] by simp
  show ?thesis by (simp add: parseResponse_def 1 2)
qed

lemma parse_reply:
  assumes ev: "port_events d = pending (reply_frame data crc @ r) es" and len: "0 < length data" "length data < 256"
  shows "parseResponse env cmd toolcmd d =
    (if byte_word crc = crc_bytes 0 data
     then map_option (\<lambda>d'. Go (0, d')) (interpret_response env cmd toolcmd data (d\<lparr>port_events := pending r es\<rparr>))
     else Some (Go (-3, d\<lparr>port_events := pending r es\<rparr>)))"
proof -
  let ?D = "char_of (0xD5 :: nat)" and ?L = "char_of (length data)"
  let ?d1 = "d\<lparr>port_events := pending (?L # data @ crc # r) es\<rparr>"
  let ?d2 = "d\<lparr>port_events := pending (data @ crc # r) es\<rparr>"
  let ?d3 = "d\<lparr>port_events := pending (crc # r) es\<rparr>"
  let ?d4 = "d\<lparr>port_events := pending r es\<rparr>"
  have 1: "readAndCheckError_byte RESPONSE_TIMEOUT d = Some (Go (0xD5, ?d1))"
    using checked_reads(1) [of d "[?D]" "?L # data @ crc # r" es ?D] ev by (simp add: reply_frame_def)
  have 2: "readAndCheckError_byte RESPONSE_TIMEOUT ?d1 = Some (Go (int (length data), ?d2))"
    using checked_reads(1) [of ?d1 "[?L]" "data @ crc # r" es ?L] len by simp
  have 3: "readAndCheckError (length data) RESPONSE_TIMEOUT ?d2 = Some (Go (int (length data), data, ?d3))"
    using checked_reads(2) [of ?d2 data "crc # r" es] len by simp
  have 4: "readAndCheckError_byte RESPONSE_TIMEOUT ?d3 = Some (Go (of_char crc, ?d4))"
    using checked_reads(1) [of ?d3 "[crc]" r es crc] by simp
  have nn: "\<not> (of_char crc :: int) < 0" by (simp add: not_less)
  have b: "(of_char crc :: int) = uint (byte_word crc)"
    by (simp add: int_of_char [symmetric] unsigned_of_nat take_bit_nat_eq_self)
  have c: "(of_char crc :: int) \<noteq> uint (crc_bytes 0 data) \<longleftrightarrow> byte_word crc \<noteq> crc_bytes 0 data"
    unfolding b by (simp add: word_uint_eq_iff)
  have k: "(0xD5 < (0 :: int)) = False" "((0xD5 :: int) \<noteq> 0xD5) = False" "(int (length data) \<le> 0) = False"
    "nat (int (length data)) = length data" "(length data < length data) = False"
    using len by auto
  show ?thesis
    by (cases "byte_word crc = crc_bytes 0 data")
      (simp_all only: parseResponse_def 1 2 3 4 k nn c obind.simps prod.case if_True if_False refl simp_thms)
qed

section \<open>What a packet leaves as it was\<close>

text \<open>Everything but the port, the readings of the printer and the answers it gave.\<close>

definition same_job :: "'g MakerbotDriver \<Rightarrow> 'g MakerbotDriver \<Rightarrow> bool" where
  "same_job d d' \<longleftrightarrow> queue d' = queue d \<and> gcodeBuffer d' = gcodeBuffer d \<and> gpx d' = gpx d \<and> parser d' = parser d \<and>
     counter d' = counter d \<and> portFd (serial d') = portFd (serial d) \<and>
     (dstate d' = dstate d \<or> dstate d = CONNECTING \<and> dstate d' = IDLE)"

lemma same_job_refl [simp]: "same_job d d"
  by (simp add: same_job_def)

lemma same_job_trans: "same_job a b \<Longrightarrow> same_job b c \<Longrightarrow> same_job a c"
  by (auto simp: same_job_def)

lemma read_byte_job:
  assumes "readAndCheckError_byte t d = Some (Go (rv, d'))"
  shows "same_job d d'" "serial d' = serial d" "bufferSpace d' = bufferSpace d"
  using assms by (auto simp: readAndCheckError_byte_def same_job_def split: prod.splits if_splits)

lemma read_bytes_job:
  assumes "readAndCheckError n t d = Some (Go (rv, data, d'))"
  shows "same_job d d'" "serial d' = serial d" "bufferSpace d' = bufferSpace d"
  using assms by (auto simp: readAndCheckError_def same_job_def split: prod.splits if_splits)

lemma interpret_job:
  assumes "interpret_response env cmd tool buf d = Some d'"
  shows "same_job d d'" "serial d' = serial d" "cmd \<noteq> 2 \<Longrightarrow> bufferSpace d' = bufferSpace d"
  using assms
  by (auto simp: interpret_response_def same_job_def tool_reading_def setState_def Let_def split: if_splits)

lemma parseResponse_job:
  assumes "parseResponse env cmd tool d = Some (Go (rv, d'))"
  shows "same_job d d' \<and> serial d' = serial d \<and> (cmd \<noteq> 2 \<longrightarrow> bufferSpace d' = bufferSpace d)"
proof -
  note job = read_byte_job
  obtain rv1 d1 where 1: "readAndCheckError_byte RESPONSE_TIMEOUT d = Some (Go (rv1, d1))"
    using assms by (auto simp: parseResponse_def obind_Go)
  show ?thesis
  proof (cases "d' = d1")
    case True
    then show ?thesis using job [OF 1] by simp
  next
    case False
    then obtain len d2 where 2: "readAndCheckError_byte RESPONSE_TIMEOUT d1 = Some (Go (len, d2))"
      using assms 1 by (auto simp: parseResponse_def obind_Go split: if_splits)
    show ?thesis
    proof (cases "d' = d2")
      case True
      then show ?thesis using job [OF 1] job [OF 2] by (auto intro: same_job_trans)
    next
      case n2: False
      then obtain rv3 buf d3 where 3: "readAndCheckError (nat len) RESPONSE_TIMEOUT d2 = Some (Go (rv3, buf, d3))"
        using assms 1 2 False by (auto simp: parseResponse_def obind_Go split: if_splits)
      show ?thesis
      proof (cases "d' = d3")
        case True
        then show ?thesis using job [OF 1] job [OF 2] read_bytes_job [OF 3] by (auto intro: same_job_trans)
      next
        case n3: False
        then obtain crc d4 where 4: "readAndCheckError_byte RESPONSE_TIMEOUT d3 = Some (Go (crc, d4))"
            "d' = d4 \<or> interpret_response env cmd tool buf d4 = Some d'"
          using assms 1 2 3 False n2 by (auto simp: parseResponse_def obind_Go split: if_splits)
        have "same_job d d4" "serial d4 = serial d" "bufferSpace d4 = bufferSpace d"
          using job [OF 1] job [OF 2] read_bytes_job [OF 3] job [OF 4(1)] by (auto intro: same_job_trans)
        then show ?thesis using 4(2) interpret_job by (metis same_job_trans)
      qed
    qed
  qed
qed

lemma send_tries_job:
  assumes "send_tries env pkt cmd tool n d = Some (Go (rv, d'))"
  shows "same_job d d' \<and> (cmd \<noteq> 2 \<longrightarrow> bufferSpace d' = bufferSpace d) \<and>
    (isConnected d \<longrightarrow> (\<exists>k. 1 \<le> k \<and> k \<le> n \<and> written (serial d') = written (serial d) @ replicate k pkt))"
  using assms
proof (induction n arbitrary: d)
  case 0
  then show ?case by simp
next
  case (Suc n)
  let ?w = "d\<lparr>serial := snd (serial_write pkt (serial d))\<rparr>"
  from Suc.prems obtain rv1 d1 where 1: "parseResponse env cmd tool ?w = Some (Go (rv1, d1))"
    by (auto simp: obind_Go)
  define d2 where "d2 = (if rv1 = 0 then d1\<lparr>validResponseReceived := True\<rparr> else d1)"
  have r: "(if rv1 = 0 \<or> rv1 = -3 \<or> n = 0 then Some (Go (rv1, d2)) else send_tries env pkt cmd tool n d2) = Some (Go (rv, d'))"
    using Suc.prems unfolding send_tries.simps 1 obind.simps prod.case Let_def d2_def .
  have w: "same_job d ?w" by (simp add: same_job_def serial_write_def)
  have j: "same_job d d2" "serial d2 = snd (serial_write pkt (serial d))" "cmd \<noteq> 2 \<longrightarrow> bufferSpace d2 = bufferSpace d"
    using parseResponse_job [OF 1] same_job_trans [OF w] by (auto simp: d2_def same_job_def)
  have c: "isConnected d2 = isConnected d"
    using j(2) by (simp add: isConnected_def serial_isOpen_def serial_write_def)
  have wr: "written (serial d2) = written (serial d) @ [pkt]" if "isConnected d"
    using that j(2) by (simp add: isConnected_def serial_isOpen_def serial_write_def)
  show ?case
  proof (cases "rv1 = 0 \<or> rv1 = -3 \<or> n = 0")
    case True
    then have "d' = d2" using r by auto
    then show ?thesis using j wr by (auto intro!: exI [of _ 1])
  next
    case False
    then have s: "send_tries env pkt cmd tool n d2 = Some (Go (rv, d'))" using r by simp
    note ih = Suc.IH [OF s]
    have "\<exists>k. 1 \<le> k \<and> k \<le> Suc n \<and> written (serial d') = written (serial d) @ replicate k pkt" if "isConnected d"
    proof -
      from that c ih obtain k where "1 \<le> k" "k \<le> n" "written (serial d') = written (serial d2) @ replicate k pkt" by auto
      then show ?thesis using wr [OF that] by (intro exI [of _ "Suc k"]) simp
    qed
    then show ?thesis using ih j same_job_trans by auto
  qed
qed

definition charge :: "bool \<Rightarrow> bytes \<Rightarrow> 32 word" where
  "charge updateBufferSpace payload = (if updateBufferSpace then word_of_nat (length payload) else 0)"

lemma sendPacket_job:
  assumes "sendPacket env p u d = Some (Go (ok, d'))"
  shows "same_job d d'" "payload_at p 0 \<noteq> Some 2 \<Longrightarrow> bufferSpace d' = bufferSpace d - charge u p"
    "isConnected d \<Longrightarrow> \<exists>k. 1 \<le> k \<and> k \<le> RETRIES \<and> written (serial d') = written (serial d) @ replicate k (s3g_packet p)"
proof -
  from assms obtain rv2 buf d1 cmd tool rv where 1: "readAndCheckError (length p) 0 d = Some (Go (rv2, buf, d1))"
    and cmd: "payload_at p 0 = Some cmd"
    and 2: "send_tries env (s3g_packet p) cmd tool RETRIES
      (d1\<lparr>lastCode := int cmd, bufferSpace := (if u then bufferSpace d1 - word_of_nat (length p) else bufferSpace d1)\<rparr>) =
      Some (Go (rv, d'))"
    by (auto simp: sendPacket_def obind_Go Let_def split: if_splits option.splits)
  note a = read_bytes_job [OF 1] and b = send_tries_job [OF 2]
  show "same_job d d'" using a(1) b by (auto simp: same_job_def)
  show "bufferSpace d' = bufferSpace d - charge u p" if "payload_at p 0 \<noteq> Some 2"
    using that cmd a b by (simp add: charge_def)
  show "\<exists>k. 1 \<le> k \<and> k \<le> RETRIES \<and> written (serial d') = written (serial d) @ replicate k (s3g_packet p)" if "isConnected d"
    using that a b by (simp add: isConnected_def)
qed

lemma same_job_connected: "same_job d d' \<Longrightarrow> isConnected d' = isConnected d"
  by (simp add: same_job_def isConnected_def serial_isOpen_def)

section \<open>The queue fits the printer\<close>

definition sent_as :: "nat list \<Rightarrow> bytes list \<Rightarrow> bytes list" where
  "sent_as ns cmds = concat (map2 (\<lambda>n c. replicate n (s3g_packet c)) ns cmds)"

definition payload_size :: "bytes list \<Rightarrow> nat" where
  "payload_size cmds = sum_list (map length cmds)"

text \<open>What \<open>send_queue\<close> takes from the queue and writes, for a space of \<open>space\<close> bytes.\<close>

definition sends :: "nat \<Rightarrow> bytes list \<Rightarrow> bytes list \<Rightarrow> bytes list \<Rightarrow> nat \<Rightarrow> bool" where
  "sends space q rest out left \<longleftrightarrow>
     (\<exists>sent ns. q = sent @ rest \<and> length ns = length sent \<and> (\<forall>n \<in> set ns. 1 \<le> n \<and> n \<le> RETRIES) \<and>
        out = sent_as ns sent \<and> payload_size sent + left = space \<and> 5 \<le> left \<and>
        (rest \<noteq> [] \<longrightarrow> left < length (hd rest) + 5))"

lemma sends_Cons:
  assumes "sends (space - length c) q rest out left" "length c \<le> space" "1 \<le> k" "k \<le> RETRIES"
  shows "sends space (c # q) rest (replicate k (s3g_packet c) @ out) left"
proof -
  from assms(1) obtain sent ns where s: "q = sent @ rest" "length ns = length sent" "\<forall>n \<in> set ns. 1 \<le> n \<and> n \<le> RETRIES"
    "out = sent_as ns sent" "payload_size sent + left = space - length c" "5 \<le> left"
    "rest \<noteq> [] \<longrightarrow> left < length (hd rest) + 5"
    by (auto simp: sends_def)
  show ?thesis
    unfolding sends_def using s assms(2-)
    by (intro exI [of _ "c # sent"] exI [of _ "k # ns"]) (auto simp: sent_as_def payload_size_def)
qed

lemma send_queue_sends:
  assumes "send_queue env q d = Some (Go d')" "5 \<le> unat (bufferSpace d)" "isConnected d"
    and "\<forall>c \<in> set q. payload_at c 0 \<noteq> Some 2"
  shows "\<exists>out. written (serial d') = written (serial d) @ out \<and>
    sends (unat (bufferSpace d)) q (queue d') out (unat (bufferSpace d'))"
  using assms
proof (induction q arbitrary: d)
  case Nil
  then show ?case by (auto simp: sends_def sent_as_def payload_size_def)
next
  case (Cons c q)
  let ?s = "unat (bufferSpace d)"
  have "(5 :: 32 word) \<le> bufferSpace d" using Cons.prems(2) by (simp add: word_le_nat_alt)
  then have s5: "unat (bufferSpace d - 5) = ?s - 5" by (simp add: unat_sub)
  show ?case
  proof (cases "length c > unat (bufferSpace d - 5)")
    case True
    then have "d' = d\<lparr>queue := c # q\<rparr>" using Cons.prems(1) by simp
    then show ?thesis using True s5 Cons.prems(2) by (auto simp: sends_def sent_as_def payload_size_def)
  next
    case False
    then obtain ok d1 where 1: "sendPacket env c True (d\<lparr>queue := q\<rparr>) = Some (Go (ok, d1))"
      and 2: "send_queue env q d1 = Some (Go d')"
      using Cons.prems(1) by (auto simp: obind_Go)
    have le: "length c \<le> ?s - 5" using False s5 by simp
    have "?s < 2 ^ LENGTH(32)" by (rule unsigned_less)
    then have lt: "length c < 2 ^ 32" using le by simp
    then have lc: "unat (word_of_nat (length c) :: 32 word) = length c" by (simp add: unsigned_of_nat take_bit_nat_eq_self)
    have c2: "payload_at c 0 \<noteq> Some 2" using Cons.prems(4) by simp
    have "bufferSpace d1 = bufferSpace d - word_of_nat (length c)"
      using sendPacket_job(2) [OF 1 c2] by (simp add: charge_def)
    moreover have "word_of_nat (length c) \<le> bufferSpace d" using le lc by (simp add: word_le_nat_alt)
    ultimately have sp: "unat (bufferSpace d1) = ?s - length c" using lc by (simp add: unat_sub)
    have five: "5 \<le> unat (bufferSpace d1)" using sp le Cons.prems(2) by linarith
    have con: "isConnected d1" using same_job_connected [OF sendPacket_job(1) [OF 1]] Cons.prems(3) by (simp add: isConnected_def)
    obtain k where k: "1 \<le> k" "k \<le> RETRIES" "written (serial d1) = written (serial d) @ replicate k (s3g_packet c)"
      using sendPacket_job(3) [OF 1] Cons.prems(3) by (auto simp: isConnected_def)
    obtain out where out: "written (serial d') = written (serial d1) @ out"
        "sends (?s - length c) q (queue d') out (unat (bufferSpace d'))"
      using Cons.IH [OF 2] sp five con Cons.prems(4) by auto
    have "sends ?s (c # q) (queue d') (replicate k (s3g_packet c) @ out) (unat (bufferSpace d'))"
      using sends_Cons [OF out(2)] k le by simp
    then show ?thesis using out(1) k(3) by auto
  qed
qed

lemma requestBufferSpace_job:
  assumes "requestBufferSpace env d = Some (Go (space, d'))"
  shows "same_job d d'" "space = sint (bufferSpace d')"
    "isConnected d \<Longrightarrow> \<exists>k. 1 \<le> k \<and> k \<le> RETRIES \<and>
       written (serial d') = written (serial d) @ replicate k (s3g_packet (query [2]))"
  using assms sendPacket_job by (fastforce simp: requestBufferSpace_def obind_Go)+

lemma sint_uint_32: "0 \<le> sint (w :: 32 word) \<Longrightarrow> sint w = int (unat w)"
  using uint_sint [of w] sint_lt [of w] by (simp add: take_bit_int_eq_self)

section \<open>A packet that is answered\<close>

abbreviation packet_out :: "bytes \<Rightarrow> bool \<Rightarrow> nat \<Rightarrow> 'g MakerbotDriver \<Rightarrow> 'g MakerbotDriver" where
  "packet_out p u cmd d \<equiv> d\<lparr>lastCode := int cmd,
     bufferSpace := (if u then bufferSpace d - word_of_nat (length p) else bufferSpace d),
     serial := snd (serial_write (s3g_packet p) (serial d))\<rparr>"

lemma sendPacket_reply:
  assumes ev: "port_events d = RdBlock False # RdData (reply_frame data crc) # es"
    and data: "0 < length data" "length data < 256" "byte_word crc = crc_bytes 0 data"
    and cmd: "payload_at p 0 = Some cmd" "(if cmd = 10 then map_option int (payload_at p 2) else Some (-1)) = Some tool"
    and r: "interpret_response env cmd tool data ((packet_out p u cmd d)\<lparr>port_events := es\<rparr>) = Some d'"
  shows "sendPacket env p u d = Some (Go (True, d'\<lparr>validResponseReceived := True\<rparr>))"
proof -
  let ?es = "pending (reply_frame data crc @ []) es"
  have ne: "RdData (reply_frame data crc) # es = ?es" by (simp add: pending_def reply_frame_def)
  have 1: "readAndCheckError (length p) 0 d = Some (Go (0, [], d\<lparr>port_events := ?es\<rparr>))"
    using ev unfolding ne by (simp add: readAndCheckError_def handleReadError_def)
  define sp where "sp = (if u then bufferSpace d - word_of_nat (length p) else bufferSpace d)"
  let ?start = "d\<lparr>port_events := ?es, lastCode := int cmd, bufferSpace := sp\<rparr>"
  let ?d = "?start\<lparr>serial := snd (serial_write (s3g_packet p) (serial d))\<rparr>"
  have pe: "port_events ?d = pending (reply_frame data crc @ []) es" by simp
  have e: "?d\<lparr>port_events := pending [] es\<rparr> = (packet_out p u cmd d)\<lparr>port_events := es\<rparr>"
    by (simp add: pending_def sp_def)
  have "parseResponse env cmd tool ?d = Some (Go (0, d'))"
    using parse_reply [OF pe data(1,2), of env cmd tool] unfolding e r by (simp add: data(3))
  then have 3: "send_tries env (s3g_packet p) cmd tool (Suc 4) ?start = Some (Go (0, d'\<lparr>validResponseReceived := True\<rparr>))"
    unfolding send_tries.simps by simp
  show ?thesis
    unfolding sendPacket_def 1 using cmd 3 by (cases u) (simp_all add: DRAIN_BUF_SIZE_def RETRIES_def Let_def sp_def)
qed

section \<open>Properties\<close>


text \<open>For the witnesses: a library that turns every text into one command (enable steppers), a
  big-endian host.\<close>

definition demo_mb_env :: "unit mb_env" where
  "demo_mb_env = \<lparr>gpx_clear_state = id, gpx_setSuppressEpilogue = \<lambda>n. id, gpx_setBuildName = \<lambda>s. id,
     gpx_convert = \<lambda>t g. (query [137, 31], g), little_endian_macro = False, little_endian_host = False\<rparr>"

definition demo_mb :: "STATE \<Rightarrow> bytes list \<Rightarrow> read_ev list \<Rightarrow> unit MakerbotDriver" where
  "demo_mb st q es = (MakerbotDriver_init demo_mb_env () ''/dev/ttyACM0'' 115200)
     \<lparr>dstate := st, serial := Serial_init\<lparr>portFd := 3\<rparr>, queue := q, port_events := es\<rparr>"

definition answer :: "nat list \<Rightarrow> read_ev list" where
  "answer ns = [RdBlock False, RdData (reply_frame (query ns) (char_of (unat (crc_bytes 0 (query ns)))))]"

lemma byte_word_char_of: "byte_word (char_of (unat (w :: 8 word))) = w"
proof -
  have "unat w < 2 ^ LENGTH(8)" by (rule unsigned_less)
  then show ?thesis by simp
qed

lemma sendPacket_answer:
  assumes "port_events d = answer ns @ es" "ns \<noteq> []" "length ns < 256" "payload_at p 0 = Some cmd" "cmd \<noteq> 10"
    and "interpret_response env cmd (-1) (query ns) ((packet_out p u cmd d)\<lparr>port_events := es\<rparr>) = Some d'"
  shows "sendPacket env p u d = Some (Go (True, d'\<lparr>validResponseReceived := True\<rparr>))"
proof (rule sendPacket_reply [OF _ _ _ byte_word_char_of assms(4)])
  show "port_events d = RdBlock False # RdData (reply_frame (query ns) (char_of (unat (crc_bytes 0 (query ns))))) # es"
    using assms(1) by (simp add: answer_def)
qed (use assms in \<open>simp_all add: query_def\<close>)

lemma request_answer:
  assumes "port_events d = answer [0x81, a, b, c, e] @ es"
    and "read32 env (query [0x81, a, b, c, e]) 1 = Some v"
  shows "requestBufferSpace env d = Some (Go (sint v,
    (packet_out (query [2]) True 2 d)\<lparr>port_events := es, bufferSpace := v, validResponseReceived := True\<rparr>))"
  unfolding requestBufferSpace_def
  by (subst sendPacket_answer [OF assms(1), where p = "query [2]" and cmd = 2])
    (use assms(2) in \<open>auto simp: interpret_response_def query_def payload_at_def\<close>)

lemma demo_space_512: "read32 demo_mb_env (query [0x81, 0, 2, 0, 0]) 1 = Some 512"
  by (simp add: read32_def query_def demo_mb_env_def Let_def)


section \<open>Filling the queue\<close>

abbreviation job_lines :: "'g MakerbotDriver \<Rightarrow> string list" where
  "job_lines d \<equiv> lines_of (gcodeBuffer d)"

definition s3g_commands :: "bytes \<Rightarrow> bytes list option" where
  "s3g_commands buf = map_option commands (parse_commands (setBuffer buf (length buf) S3GParser_init))"

text \<open>Converting texts one after the other.\<close>

fun convert_all :: "'g mb_env \<Rightarrow> 'g \<Rightarrow> string list \<Rightarrow> (bytes list \<times> 'g) option" where
  "convert_all env g [] = Some ([], g)"
| "convert_all env g (t # ts) = do {
     let (buf, g1) = gpx_convert env t g;
     cs \<leftarrow> s3g_commands buf;
     (rest, g2) \<leftarrow> convert_all env g1 ts;
     Some (cs @ rest, g2)
   }"

text \<open>What the driver relies on the library for: it writes streams of S3G commands.\<close>

definition writes_s3g :: "'g mb_env \<Rightarrow> bool" where
  "writes_s3g env \<longleftrightarrow> (\<forall>t g. \<exists>us. stream_ok us \<and> fst (gpx_convert env t g) = stream_bytes us)"

lemma s3g_commands_stream: "stream_ok us \<Longrightarrow> s3g_commands (stream_bytes us) = Some (map unit_command us)"
  unfolding s3g_commands_def
  using parse_stream [of "setBuffer (stream_bytes us) (length (stream_bytes us)) S3GParser_init" us]
  by (auto simp: setBuffer_def whole_def S3GParser_init_def)

lemma convertGCode_stream:
  assumes "commands (parser d) = []" "writes_s3g env" "t \<noteq> []"
  obtains cs g p d' where "gpx_convert env t (gpx d) = (fst (gpx_convert env t (gpx d)), g)"
    "s3g_commands (fst (gpx_convert env t (gpx d))) = Some cs" "convertGCode env t d = Some (length cs, d')"
    "d' = d\<lparr>gpx := g, queue := queue d @ cs, parser := p\<rparr>" "commands p = []" "[] \<notin> set cs"
proof -
  obtain buf g where b: "gpx_convert env t (gpx d) = (buf, g)" by fastforce
  then obtain us where us: "stream_ok us" "buf = stream_bytes us"
    using assms(2) unfolding writes_s3g_def by (metis fst_conv)
  let ?p = "setBuffer buf (length buf) (parser d)"
  obtain p where p: "parse_commands ?p = Some p" "commands p = map unit_command us"
    using parse_stream [of ?p us] us assms(1) by (auto simp: setBuffer_def whole_def)
  have ne: "[] \<notin> set (map unit_command us)"
  proof -
    have "[] \<noteq> unit_command u" for u by (cases u) auto
    then show ?thesis by auto
  qed
  have "convertGCode env t d = Some (length (commands p),
      d\<lparr>gpx := g, queue := queue d @ commands p, parser := p\<lparr>commands := []\<rparr>\<rparr>)"
    using b p assms(3) by (simp add: convertGCode_def queueCommands_def Let_def)
  then show thesis
    using that [of g "map unit_command us" _ "p\<lparr>commands := []\<rparr>"] b us p s3g_commands_stream [OF us(1)] ne by simp
qed

lemma next_and_erase:
  assumes ok: "gcb_ok g" and ne: "lines_of g \<noteq> []"
  obtains j t g' where "getNextLine k g = (int j, t)" "eraseLine j g = Some (int j, g')" "1 \<le> j" "j \<le> max 1 k"
    "erases g j g'" "text_lines t = take j (lines_of g)" "j \<le> length (lines_of g)" "t \<noteq> []"
proof -
  let ?j = "taken k g"
  have b: "1 \<le> ?j" "?j \<le> length (lines_of g)" "?j \<le> max 1 k" using taken_bounds [OF ok ne, of k] by auto
  have "taken ?j g = ?j" using b(1) by (simp add: taken_def max_def)
  then obtain g' where g': "eraseLine ?j g = Some (int ?j, g')" "erases g ?j g'"
    using eraseLine_erases [OF ok ne, of ?j] by auto
  let ?t = "snd (getNextLine k g)"
  have t: "getNextLine k g = (int ?j, ?t)" using getNextLine_lines [OF ok ne, of k] by simp
  have tl: "text_lines ?t = take ?j (lines_of g)" by (rule getNextLine_text [OF ok ne])
  have "?t \<noteq> []" using tl b(1) ne by (auto simp: text_lines_def)
  then show thesis using that [OF t g'(1) b(1,3) g'(2) tl b(2)] by blast
qed

text \<open>What filling the queue is to achieve.\<close>

definition fills :: "'g mb_env \<Rightarrow> 'g MakerbotDriver \<Rightarrow> 'g MakerbotDriver \<Rightarrow> bool" where
  "fills env d d' \<longleftrightarrow>
     (\<exists>ts cs. convert_all env (gpx d) ts = Some (cs, gpx d') \<and> queue d' = queue d @ cs \<and>
        job_lines d = concat (map text_lines ts) @ job_lines d' \<and>
        (\<forall>t \<in> set ts. 1 \<le> length (text_lines t) \<and> length (text_lines t) \<le> GCODE_CVT_LINES) \<and>
        currentLine (gcodeBuffer d') = currentLine (gcodeBuffer d) + int (length (concat (map text_lines ts))) \<and>
        ([] \<notin> set (queue d) \<longrightarrow> [] \<notin> set (queue d')))"

text \<open>What a driver's buffer keeps: the lines read and the lines left are not more than were sent.\<close>

definition job_ok :: "'g MakerbotDriver \<Rightarrow> bool" where
  "job_ok d \<longleftrightarrow> gcb_ok (gcodeBuffer d) \<and> 0 \<le> currentLine (gcodeBuffer d) \<and>
     currentLine (gcodeBuffer d) + bufferedLines (gcodeBuffer d) \<le> totalLinesSent (gcodeBuffer d) \<and>
     commands (parser d) = [] \<and> [] \<notin> set (queue d)"

lemma erased_inv:
  assumes "erases g j g'" "gcb_ok g" "0 \<le> currentLine g" "currentLine g + bufferedLines g \<le> totalLinesSent g"
    "j \<le> length (lines_of g)"
  defines "g2 \<equiv> setCurrentLine (currentLine g' + int j) g'"
  shows "gcb_ok g2" "0 \<le> currentLine g2" "currentLine g2 + bufferedLines g2 \<le> totalLinesSent g2"
    "lines_of g2 = drop j (lines_of g)" "currentLine g2 = currentLine g + int j"
proof -
  note e = erasesD [OF assms(1)]
  have b: "bufferedLines g = int (length (lines_of g))" using assms(2) by (simp add: gcb_ok_def)
  then have le: "currentLine g + int j \<le> totalLinesSent g" using assms(4,5) by linarith
  have s: "currentLine g2 = currentLine g + int j" "lines_of g2 = lines_of g'" "bufferedLines g2 = bufferedLines g - int j"
      "totalLinesSent g2 = totalLinesSent g" "bufferSize g2 = bufferSize g'" "buckets g2 = buckets g'"
    using e le by (simp_all add: g2_def setCurrentLine_def lines_of_def)
  show "0 \<le> currentLine g2" "lines_of g2 = drop j (lines_of g)" "currentLine g2 = currentLine g + int j"
    "currentLine g2 + bufferedLines g2 \<le> totalLinesSent g2"
    using s e assms(3,4) by simp_all
  show "gcb_ok g2"
    using e(1,4) [unfolded gcb_ok_def] s assms(2) [unfolded gcb_ok_def] b le unfolding gcb_ok_def by auto
qed

lemma fills_refl: "fills env d d"
  unfolding fills_def by (intro exI [of _ "[]"]) simp

lemma refill_fills:
  "job_ok d \<Longrightarrow> writes_s3g env \<Longrightarrow>
     \<exists>d'. refill env d = Some d' \<and> fills env d d' \<and> job_ok d' \<and>
       (QUEUE_FILL_SIZE \<le> length (queue d') \<or> job_lines d' = []) \<and>
       port_events d' = port_events d \<and> serial d' = serial d \<and> dstate d' = dstate d \<and> bufferSpace d' = bufferSpace d"
proof (induction env d rule: refill.induct)
  case (1 env d)
  let ?g = "gcodeBuffer d"
  have ok: "gcb_ok ?g" using "1.prems" by (simp add: job_ok_def)
  show ?case
  proof (cases "QUEUE_FILL_SIZE \<le> length (queue d)")
    case True
    then have "refill env d = Some d" by (simp add: refill.simps [of env d])
    then show ?thesis using True "1.prems" fills_refl by blast
  next
    case False
    then have lt: "length (queue d) < QUEUE_FILL_SIZE" by simp
    show ?thesis
    proof (cases "job_lines d = []")
      case True
      then have "refill env d = Some d"
        using lt getNextLine_none [OF ok True] by (simp add: refill.simps [of env d] convertGCode_def)
      then show ?thesis using True "1.prems" fills_refl by blast
    next
      case ne: False
      obtain j t g' where j: "getNextLine GCODE_CVT_LINES ?g = (int j, t)" "eraseLine j ?g = Some (int j, g')" "1 \<le> j"
          "j \<le> max 1 GCODE_CVT_LINES" "erases ?g j g'" "text_lines t = take j (lines_of ?g)"
          "j \<le> length (lines_of ?g)" "t \<noteq> []"
        using next_and_erase [OF ok ne] .
      obtain cs gp p d1 where c: "gpx_convert env t (gpx d) = (fst (gpx_convert env t (gpx d)), gp)"
          "s3g_commands (fst (gpx_convert env t (gpx d))) = Some cs" "convertGCode env t d = Some (length cs, d1)"
          "d1 = d\<lparr>gpx := gp, queue := queue d @ cs, parser := p\<rparr>" "commands p = []" "[] \<notin> set cs"
        using convertGCode_stream [OF _ "1.prems"(2) j(8), of d] "1.prems"(1) by (metis job_ok_def)
      define g2 where "g2 = setCurrentLine (currentLine g' + int j) g'"
      let ?d2 = "d1\<lparr>gcodeBuffer := g2\<rparr>"
      have g1: "gcodeBuffer d1 = ?g" using c(4) by simp
      note inv = erased_inv [OF j(5) ok _ _ j(7), folded g2_def]
      have job: "0 \<le> currentLine ?g" "currentLine ?g + bufferedLines ?g \<le> totalLinesSent ?g"
        using "1.prems"(1) by (simp_all add: job_ok_def)
      have r: "refill env d = refill env ?d2"
        using lt j(1,2,3) c(3) by (simp add: refill.simps [of env d] g1 g2_def)
      have "job_ok ?d2" using inv job "1.prems"(1) c(4-6) by (simp add: job_ok_def)
      then obtain d' where d': "refill env ?d2 = Some d'" "fills env ?d2 d'" "job_ok d'"
          "QUEUE_FILL_SIZE \<le> length (queue d') \<or> job_lines d' = []"
          "port_events d' = port_events d" "serial d' = serial d" "dstate d' = dstate d" "bufferSpace d' = bufferSpace d"
        using "1.IH" [OF lt j(1) [symmetric] refl c(3) refl _ _ refl] j(1,2,3) "1.prems"(2) c(4) g1 g2_def by fastforce
      have lines: "lines_of g2 = drop j (lines_of ?g)" using inv job by simp
      have "fills env d d'"
      proof -
        from d'(2) obtain ts cs' where f: "convert_all env gp ts = Some (cs', gpx d')" "queue d' = (queue d @ cs) @ cs'"
            "lines_of g2 = concat (map text_lines ts) @ job_lines d'"
            "\<forall>t \<in> set ts. 1 \<le> length (text_lines t) \<and> length (text_lines t) \<le> GCODE_CVT_LINES"
            "currentLine (gcodeBuffer d') = currentLine g2 + int (length (concat (map text_lines ts)))"
            "[] \<notin> set (queue d) \<longrightarrow> [] \<notin> set (queue d')"
          using c(4,6) by (auto simp: fills_def)
        have "length (text_lines t) = j" using j(6,7) by simp
        moreover have "max 1 GCODE_CVT_LINES = GCODE_CVT_LINES" by (simp add: GCODE_CVT_LINES_def)
        moreover have "convert_all env (gpx d) (t # ts) = Some (cs @ cs', gpx d')"
          using f(1) c(1,2) by (cases "gpx_convert env t (gpx d)") simp
        moreover have "job_lines d = concat (map text_lines (t # ts)) @ job_lines d'"
          using f(3) lines j(6) append_take_drop_id [of j "lines_of ?g"] by simp
        ultimately show ?thesis
          unfolding fills_def using f j(3,4) inv(5) job
          by (intro exI [of _ "t # ts"] exI [of _ "cs @ cs'"]) auto
      qed
      then show ?thesis using r d' by simp
    qed
  qed
qed

section \<open>The operations of the driver keep its job in order\<close>

lemma append_job:
  assumes "AD_appendGCode code n m d = Some (gsr, d')" "job_ok d"
  shows "job_ok d'" "queue d' = queue d"
proof -
  obtain g where g: "gcb_append code n m (gcodeBuffer d) = Some (gsr, g)"
    and e: "if gsr = GSR_OK then \<exists>d2. extractGCodeInfo code (d\<lparr>gcodeBuffer := g\<rparr>) = Some d2 \<and>
       d' = setState (buffered (dstate d2)) d2 else d' = d\<lparr>gcodeBuffer := g\<rparr>"
    by (rule AD_append_Some [OF assms(1)])
  have ok: "gcb_ok (gcodeBuffer d)" using assms(2) by (simp add: job_ok_def)
  have *: "gcodeBuffer d' = g" "queue d' = queue d" "parser d' = parser d"
  proof -
    have "\<exists>t b st. d' = d\<lparr>gcodeBuffer := g, targetTemperature := t, targetBedTemperature := b, dstate := st\<rparr> \<or>
        d' = d\<lparr>gcodeBuffer := g\<rparr>"
    proof (cases "gsr = GSR_OK")
      case True
      with e obtain d2 where "extractGCodeInfo code (d\<lparr>gcodeBuffer := g\<rparr>) = Some d2"
        "d' = setState (buffered (dstate d2)) d2" by auto
      with extractGCodeInfo_frame [OF this(1)] show ?thesis unfolding setState_def by auto
    qed (use e in auto)
    then show "gcodeBuffer d' = g" "queue d' = queue d" "parser d' = parser d" by auto
  qed
  then show "queue d' = queue d" by simp
  have "gcb_ok g \<and> currentLine g = currentLine (gcodeBuffer d) \<and>
    currentLine g + bufferedLines g \<le> totalLinesSent g"
  proof (cases "gsr = GSR_OK")
    case True
    note r = g [unfolded True]
    note a = addsD [OF gcb_append_lines(1) [OF ok gcb_append_md(1) [OF ok r] r]]
    have "bufferedLines (gcodeBuffer d) = int (length (job_lines d))" "bufferedLines g = int (length (lines_of g))"
      using a(1) ok by (simp_all add: gcb_ok_def)
    then show ?thesis using a gcb_append_md(4) [OF ok r] assms(2) by (simp add: job_ok_def)
  next
    case False
    then have "g = gcodeBuffer d"
      using gt.app_rejected [where s = "gcodeBuffer d" and m = "(n, m)" and t = code and s' = g] g ok by auto
    then show ?thesis using assms(2) by (simp add: job_ok_def)
  qed
  then show "job_ok d'" using * assms(2) by (simp add: job_ok_def)
qed

lemma job_ok_cleared: "job_ok d \<Longrightarrow> job_ok (d\<lparr>gcodeBuffer := gcb_clear (gcodeBuffer d)\<rparr>)"
  using gcb_clear_inv by (simp add: job_ok_def gcb_inv_def) (simp add: gcb_clear_def)

lemma set_is_append:
  "AD_setGCode code n m d = AD_appendGCode code n m (d\<lparr>gcodeBuffer := gcb_clear (gcodeBuffer d)\<rparr>)"
  by (simp add: AD_setGCode_def AD_appendGCode_def gcb_set_def)

lemma fullStop_eq: "fullStop env d = d\<lparr>queue := [], gpx := gpx_clear_state env (gpx d)\<rparr>"
  by (simp add: fullStop_def resetPrinterBuffer_def mb_abort_def Let_def)

lemma fullStop_job: "job_ok d \<Longrightarrow> job_ok (fullStop env d)"
  by (simp add: fullStop_eq job_ok_def)

lemma MB_setGCode_job:
  assumes "MB_setGCode env code n m d = Some (gsr, d')" "job_ok d"
  shows "job_ok d'" "queue d' = []"
proof -
  obtain d1 where d1: "AD_setGCode code n m d = Some (gsr, d1)" "d' = fullStop env d1"
    using assms(1) by (auto simp: MB_setGCode_def)
  show "job_ok d'"
    using append_job(1) [OF d1(1) [unfolded set_is_append] job_ok_cleared [OF assms(2)]] d1(2) fullStop_job by simp
  show "queue d' = []" by (simp add: d1(2) fullStop_eq)
qed

lemma MB_clearGCode_job: "job_ok d \<Longrightarrow> job_ok (MB_clearGCode env d)"
  using job_ok_cleared [of d]
  by (auto simp: MB_clearGCode_def AD_clearGCode_def setState_def Let_def job_ok_def fullStop_eq)

lemma MB_resetPrint_eq: "MB_resetPrint = AD_resetPrint"
  by (rule ext) (auto simp: MB_resetPrint_def AD_resetPrint_def Let_def split: prod.splits)

lemma resetPrint_job: "job_ok d \<Longrightarrow> job_ok (snd (AD_resetPrint d)) \<and> queue (snd (AD_resetPrint d)) = queue d"
  by (auto simp: AD_resetPrint_def setState_def setCurrentLine_def Let_def job_ok_def gcb_ok_def lines_of_def)

lemma startPrint_job: "MB_startPrint st d = Some (ok, d') \<Longrightarrow> job_ok d \<Longrightarrow> job_ok d'"
  using resetPrint_job [of d]
  by (auto simp: MB_startPrint_def AD_startPrint_def MB_resetPrint_eq setState_def Let_def job_ok_def split: if_splits)

lemma stopPrint_job:
  assumes "MB_stopPrintCode env code d = Some (ok, d')" "job_ok d"
  shows "job_ok d'"
proof -
  from assms(1) obtain gsr d1 gsr2 d2 where 1: "MB_setGCode env code (-1) None (MB_clearGCode env d) = Some (gsr, d1)"
    and 2: "MB_setGCode env code (-1) None (snd (AD_resetPrint d1)) = Some (gsr2, d2)"
    and 3: "MB_startPrint STOPPING d2 = Some (ok, d')"
    by (auto simp: MB_stopPrintCode_def AD_stopPrintCode_def MB_resetPrint_eq bind_eq_Some_conv)
  have "job_ok d1" by (rule MB_setGCode_job(1) [OF 1 MB_clearGCode_job [OF assms(2)]])
  then have "job_ok d2" using MB_setGCode_job(1) [OF 2] resetPrint_job by blast
  then show ?thesis using startPrint_job [OF 3] by blast
qed

lemma same_job_ok: "same_job d d' \<Longrightarrow> job_ok d \<Longrightarrow> job_ok d'"
  by (simp add: same_job_def job_ok_def)

lemma send_queue_job:
  "send_queue env q d = Some (Go d') \<Longrightarrow> job_ok d \<Longrightarrow> [] \<notin> set q \<Longrightarrow> job_ok d'"
proof (induction q arbitrary: d)
  case Nil
  then show ?case by (auto simp: job_ok_def)
next
  case (Cons c q)
  show ?case
  proof (cases "length c > unat (bufferSpace d - 5)")
    case True
    then show ?thesis using Cons.prems by (auto simp: job_ok_def)
  next
    case False
    then obtain ok d1 where 1: "sendPacket env c True (d\<lparr>queue := q\<rparr>) = Some (Go (ok, d1))" "send_queue env q d1 = Some (Go d')"
      using Cons.prems(1) by (auto simp: obind_Go)
    have "job_ok (d\<lparr>queue := q\<rparr>)" using Cons.prems(2,3) by (auto simp: job_ok_def)
    then show ?thesis using same_job_ok [OF sendPacket_job(1) [OF 1(1)]] Cons.IH [OF 1(2)] Cons.prems(3) by simp
  qed
qed

lemma setState_job: "job_ok (setState st d) = job_ok d"
  by (simp add: job_ok_def setState_def)

lemma processQueue_job:
  assumes "processQueue env d = Some (Go d')" "job_ok d"
  shows "job_ok d'"
proof -
  from assms(1) obtain space d1 where 1: "requestBufferSpace env d = Some (Go (space, d1))"
    and 2: "d' = d1 \<or> d' = setState IDLE d1 \<or> send_queue env (queue d1) d1 = Some (Go d')"
    by (auto simp: processQueue_def obind_Go split: if_splits)
  have "job_ok d1" using same_job_ok [OF requestBufferSpace_job(1) [OF 1] assms(2)] .
  then show ?thesis using 2 send_queue_job [of env "queue d1" d1 d'] by (auto simp: setState_job) (auto simp: job_ok_def)
qed

lemma send_all_job: "send_all env ps rv d = Some (Go (ok, d')) \<Longrightarrow> same_job d d'"
proof (induction ps arbitrary: rv d)
  case (Cons p ps)
  then obtain ok1 d1 where "sendPacket env p False d = Some (Go (ok1, d1))" "send_all env ps (rv \<and> ok1) d1 = Some (Go (ok, d'))"
    by (auto simp: obind_Go)
  then show ?case using Cons.IH sendPacket_job(1) same_job_trans by blast
qed simp

lemma poll_job:
  assumes "poll_printer env d = Some (Go d')" "job_ok d"
  shows "job_ok d'"
proof -
  from assms(1) obtain d1 ok d2 space d3 where
    1: "(if \<not> validResponseReceived d then obind (getFirmwareVersion env d) (\<lambda>(ver, d1). Some (Go d1)) else Some (Go d)) = Some (Go d1)"
    and 2: "updateTemperatures env d1 = Some (Go (ok, d2))" "requestBufferSpace env d2 = Some (Go (space, d3))"
    and 3: "d' = d3\<lparr>counter := 0\<rparr>"
    by (auto simp: poll_printer_def obind_Go)
  have "same_job d d1"
    using 1 sendPacket_job(1) by (fastforce simp: getFirmwareVersion_def obind_Go split: if_splits)
  also have "same_job d1 d2" using send_all_job [OF 2(1) [unfolded updateTemperatures_def]] .
  finally (same_job_trans) have "same_job d d2" .
  then have "same_job d d3" using requestBufferSpace_job(1) [OF 2(2)] by (rule same_job_trans)
  then show ?thesis using 3 same_job_ok [OF _ assms(2), of d3] by (simp add: job_ok_def)
qed

lemma update_job:
  assumes "MB_update env d = Some (Go (w, d'))" "job_ok d" "writes_s3g env"
  shows "job_ok d'"
proof (cases "isConnected d")
  case True
  then obtain d1 d2 d3 where 1: "(if is_active d \<and> length (queue d) < QUEUE_MIN_SIZE then refill env d else Some d) = Some d1"
    and 2: "(if is_active d1 then processQueue env d1 else Some (Go d1)) = Some (Go d2)"
    and 3: "(if counter d2 = UPDATE_TICKS then poll_printer env d2 else Some (Go d2)) = Some (Go d3)"
    and 4: "d' = d3\<lparr>counter := counter d3 + 1\<rparr>"
    using assms(1) unfolding MB_update_def by (auto simp: obind_Go split: option.splits)
  have "job_ok d1" using 1 refill_fills [OF assms(2,3)] assms(2) by (auto split: if_splits)
  then have "job_ok d2" using 2 processQueue_job by (auto split: if_splits)
  then have "job_ok d3" using 3 poll_job by (auto split: if_splits)
  then show ?thesis using 4 by (simp add: job_ok_def)
qed (use assms in \<open>simp add: MB_update_def\<close>)

section \<open>Properties of replies and of the job\<close>

lemma silent_packet:
  assumes "port_events d = []" "payload_at p 0 = Some cmd" "cmd \<noteq> 10"
  shows "sendPacket env p u d = Some (Exit 1)"
proof -
  have pr: "parseResponse env c t e = Some (Exit 1)" if "port_events e = []" for e :: "'a MakerbotDriver" and c t
    using that by (simp add: parseResponse_def readAndCheckError_byte_def readByteDirect_def handleReadError_def)
  have "send_tries env pkt c t (Suc 4) e = Some (Exit 1)" if "port_events e = []" for e :: "'a MakerbotDriver" and pkt c t
    unfolding send_tries.simps using that by (simp add: pr)
  then show ?thesis
    using assms by (simp add: sendPacket_def readAndCheckError_def handleReadError_def DRAIN_BUF_SIZE_def RETRIES_def Let_def)
qed

text \<open>C10: Filling the queue ends: g-code is taken from the front of the buffer, up to 25 lines at a
  time, converted in order, and its commands put behind the queue, until the queue has 30 commands or no
  line is left; the current line advances by the lines taken, and none is lost or converted twice.\<close>

theorem queue_filled_in_order:
  assumes "job_ok d" "writes_s3g env"
  shows "\<exists>d'. refill env d = Some d' \<and> fills env d d' \<and> (QUEUE_FILL_SIZE \<le> length (queue d') \<or> job_lines d' = [])"
  using refill_fills [OF assms] by blast

text \<open>A reply in the port, whole; one with another byte in its payload or another checksum; and one whose
  length byte is smaller.\<close>

lemma reply_arrives:
  assumes "port_events d = RdData (reply_frame p c @ r) # es" "p \<noteq> []" "length p < 256"
  shows "parseResponse env cmd toolcmd d =
    (if byte_word c = crc_bytes 0 p
     then map_option (\<lambda>d'. Go (0, d')) (interpret_response env cmd toolcmd p (d\<lparr>port_events := pending r es\<rparr>))
     else Some (Go (-3, d\<lparr>port_events := pending r es\<rparr>)))"
  using assms by (intro parse_reply) (simp_all add: pending_def reply_frame_def)

lemma reply_tail_changed:
  assumes "byte_word crc = crc_bytes 0 data" "data \<noteq> []" "length data < 256"
    and "j \<le> length data" "y \<noteq> (data @ [crc]) ! j" "port_events d = RdData ((reply_frame data crc)[j + 2 := y]) # es"
  shows "parseResponse env cmd toolcmd d = Some (Go (-3, d\<lparr>port_events := es\<rparr>))"
proof (cases "j = length data")
  case True
  then have "byte_word y \<noteq> crc_bytes 0 data" using assms(5) unfolding assms(1) [symmetric] by (simp add: byte_word_inj)
  then show ?thesis
    using reply_arrives [of d data y "[]" es] True assms(2,3,6) by (simp add: reply_frame_def list_update_append pending_def)
next
  case False
  then have j: "j < length data" using assms(4) by simp
  have s: "data = take j data @ data ! j # drop (j + 1) data" using j by (simp add: id_take_nth_drop)
  have u: "data[j := y] = take j data @ y # drop (j + 1) data" using j by (simp add: upd_conv_take_nth_drop)
  have "y \<noteq> data ! j" using assms(5) j by (simp add: nth_append)
  then have "byte_word crc \<noteq> crc_bytes 0 (data[j := y])"
    unfolding assms(1) u using crc_one_byte [of 0 "take j data" "data ! j" "drop (j + 1) data" y] s by metis
  then show ?thesis
    using reply_arrives [of d "data[j := y]" crc "[]" es] j assms(2,3,6)
    by (simp add: reply_frame_def list_update_append pending_def)
qed

lemma reply_cut_short:
  assumes "0 < n" "n < length data" "length data < 256" "port_events d = RdData ((reply_frame data crc)[1 := char_of n]) # es"
  shows "parseResponse env cmd toolcmd d =
    (if byte_word (data ! n) = crc_bytes 0 (take n data)
     then map_option (\<lambda>d'. Go (0, d')) (interpret_response env cmd toolcmd (take n data)
       (d\<lparr>port_events := RdData (drop (n + 1) data @ [crc]) # es\<rparr>))
     else Some (Go (-3, d\<lparr>port_events := RdData (drop (n + 1) data @ [crc]) # es\<rparr>)))"
proof -
  have "data = take n data @ data ! n # drop (n + 1) data" using assms(2) by (simp add: Cons_nth_drop_Suc)
  then have "(reply_frame data crc)[1 := char_of n] = reply_frame (take n data) (data ! n) @ drop (n + 1) data @ [crc]"
    using assms(2) by (simp add: reply_frame_def)
  moreover have "take n data \<noteq> []" "length (take n data) < 256" using assms(1-3) by auto
  ultimately show ?thesis using reply_arrives [of d "take n data" "data ! n"] assms(4) by (simp add: pending_def)
qed

text \<open>C31: What becomes of a reply with at most one changed byte. As it was sent, it is interpreted. With
  another first byte it is refused (-99), with another byte in the payload or another checksum it is
  ignored as a checksum error (-3); in both cases nothing is interpreted and the driver stays as it is. The length
  byte is not protected: changed to 0 the reply counts as success, nothing being checked or
  interpreted, and the rest of it stays in the port; changed to a smaller length \<open>n\<close> the reply is
  interpreted or ignored as if it ended there, byte \<open>n\<close> of the payload being taken for the
  checksum. (A larger length makes the driver wait for bytes that the port delivers later.)\<close>

theorem reply_checked:
  fixes env :: "'g mb_env" and cmd :: nat and toolcmd :: int
  assumes "byte_word crc = crc_bytes 0 data" "data \<noteq> []" "length data < 256"
    and "i < length data + 3" "i = 1 \<longrightarrow> byte_of y \<le> length data"
    and "port_events d = RdData ((reply_frame data crc)[i := y]) # es"
  defines "accept \<equiv> \<lambda>p r. map_option (\<lambda>d'. Go (0, d')) (interpret_response env cmd toolcmd p (d\<lparr>port_events := r\<rparr>))"
    and "n \<equiv> byte_of y"
  shows "parseResponse env cmd toolcmd d =
    (if y = reply_frame data crc ! i then accept data es
     else if i = 0 then Some (Go (-99, d\<lparr>port_events := RdData (tl (reply_frame data crc)) # es\<rparr>))
     else if 2 \<le> i then Some (Go (-3, d\<lparr>port_events := es\<rparr>))
     else if n = 0 then Some (Go (0, d\<lparr>port_events := RdData (data @ [crc]) # es\<rparr>))
     else if byte_word (data ! n) = crc_bytes 0 (take n data)
     then accept (take n data) (RdData (drop (n + 1) data @ [crc]) # es)
     else Some (Go (-3, d\<lparr>port_events := RdData (drop (n + 1) data @ [crc]) # es\<rparr>)))"
proof -
  let ?f = "reply_frame data crc"
  have f: "length ?f = length data + 3" "?f ! 1 = char_of (length data)" by (simp_all add: reply_frame_def)
  consider "y = ?f ! i" | "y \<noteq> ?f ! i" "i = 0" | "y \<noteq> ?f ! i" "i = 1" | j where "y \<noteq> ?f ! i" "i = j + 2" "j \<le> length data"
    using assms(4) by (cases i rule: nat.exhaust; cases "i - 1" rule: nat.exhaust) fastforce+
  then show ?thesis
  proof cases
    case 1
    then show ?thesis using reply_arrives [of d data crc "[]" es] assms by (simp add: pending_def accept_def)
  next
    case 2
    then show ?thesis
      using parse_no_start [of d y "tl ?f" es] assms(6) by (simp add: reply_frame_def pending_def)
  next
    case 3
    then have n: "n < length data" "y = char_of n"
      using assms(5) f(2) by (metis n_def char_of_char le_neq_implies_less) (simp add: n_def)
    show ?thesis
    proof (cases "n = 0")
      case True
      then have "y = NUL" by (simp add: n(2) char_of_def)
      then show ?thesis
        using parse_no_length [of d "data @ [crc]" es] assms(6) 3 True by (simp add: reply_frame_def pending_def)
    next
      case False
      then show ?thesis
        using reply_cut_short [of n data d crc es env cmd toolcmd] n assms(3,6) 3 by (simp add: accept_def)
    qed
  next
    case (4 j)
    then show ?thesis
      using reply_tail_changed [OF assms(1-3), of j y d es] assms(6) by (simp add: reply_frame_def)
  qed
qed


text \<open>A broken reply counts as success: after a reply of length 0, or one whose data does not
  arrive in time, the packet is taken for delivered although nothing was checked.\<close>

theorem broken_reply_counts:
  fixes n :: nat
  assumes "payload_at p 0 = Some cmd" "cmd \<noteq> 10" "n < 256"
    and "port_events d = RdBlock False # RdData [char_of (0xD5 :: nat), char_of n] # (if n = 0 then es else RdBlock False # es)"
  shows "sendPacket env p u d =
    Some (Go (True, (packet_out p u cmd d)\<lparr>port_events := es, validResponseReceived := True\<rparr>))"
proof -
  let ?es = "if n = 0 then es else RdBlock False # es"
  define sp where "sp = (if u then bufferSpace d - word_of_nat (length p) else bufferSpace d)"
  let ?start = "d\<lparr>port_events := pending [char_of (0xD5 :: nat), char_of n] ?es, lastCode := int cmd, bufferSpace := sp\<rparr>"
  let ?out = "?start\<lparr>serial := snd (serial_write (s3g_packet p) (serial d))\<rparr>"
  have 1: "readAndCheckError (length p) 0 d = Some (Go (0, [], d\<lparr>port_events := pending [char_of (0xD5 :: nat), char_of n] ?es\<rparr>))"
    using assms(4) by (simp add: readAndCheckError_def handleReadError_def pending_def)
  have 2: "readAndCheckError_byte RESPONSE_TIMEOUT ?out = Some (Go (0xD5, ?out\<lparr>port_events := pending [char_of n] ?es\<rparr>))"
    using checked_reads(1) [of ?out "[char_of (0xD5 :: nat)]" "[char_of n]" ?es] by simp
  have 3: "readAndCheckError_byte RESPONSE_TIMEOUT (?out\<lparr>port_events := pending [char_of n] ?es\<rparr>) =
      Some (Go (int n, ?out\<lparr>port_events := ?es\<rparr>))"
    using checked_reads(1) [of "?out\<lparr>port_events := pending [char_of n] ?es\<rparr>" "[char_of n]" "[]" ?es] assms(3)
    by (simp add: pending_def)
  have 4: "n \<noteq> 0 \<Longrightarrow> readAndCheckError (nat (int n)) RESPONSE_TIMEOUT (?out\<lparr>port_events := ?es\<rparr>) =
      Some (Go (0, [], ?out\<lparr>port_events := es\<rparr>))"
    by (simp add: readAndCheckError_def handleReadError_def)
  have "parseResponse env cmd (-1) ?out = Some (Go (0, ?out\<lparr>port_events := es\<rparr>))"
    unfolding parseResponse_def 2 obind.simps prod.case 3 using 4 by (cases "n = 0") simp_all
  then have "send_tries env (s3g_packet p) cmd (-1) (Suc 4) ?start =
      Some (Go (0, ?out\<lparr>port_events := es, validResponseReceived := True\<rparr>))"
    unfolding send_tries.simps by simp
  then show ?thesis
    unfolding sendPacket_def 1 using assms(1,2)
    by (cases u) (simp_all add: DRAIN_BUF_SIZE_def RETRIES_def Let_def sp_def)
qed

lemma set_accepted:
  assumes "int (length code) \<le> MAX_BUFFER_SIZE" "MB_setGCode env code (-1) None d = Some (gsr, d')"
  shows "gsr = GSR_OK" "job_lines d' = gcode_lines (keepGpxMacroComments (gcodeBuffer d)) code"
    "dstate d' = buffered (dstate d)" "serial d' = serial d" "queue d' = []" "currentLine (gcodeBuffer d') = 0"
    "keepGpxMacroComments (gcodeBuffer d') = keepGpxMacroComments (gcodeBuffer d)" "0 \<le> totalLinesSent (gcodeBuffer d')"
proof -
  obtain d1 where d1: "AD_setGCode code (-1) None d = Some (gsr, d1)" "d' = fullStop env d1"
    using assms(2) by (auto simp: MB_setGCode_def)
  let ?c = "gcb_clear (gcodeBuffer d)"
  obtain g where g: "gcb_append code (-1) None ?c = Some (gsr, g)"
    and e: "if gsr = GSR_OK then \<exists>d2. extractGCodeInfo code (d\<lparr>gcodeBuffer := g\<rparr>) = Some d2 \<and>
       d1 = setState (buffered (dstate d2)) d2 else d1 = d\<lparr>gcodeBuffer := g\<rparr>"
    by (rule AD_set_Some [OF d1(1)])
  have okc: "gcb_ok ?c" using gcb_clear_inv by (simp add: gcb_inv_def)
  show gsr: "gsr = GSR_OK"
    using gcb_append_accepts [OF okc, of None code "-1"] g assms(1)
    by (auto simp: append_sanity_def gcb_clear_def MetaData_init_def)
  note r = g [unfolded gsr]
  note a = addsD [OF gcb_append_lines(1) [OF okc gcb_append_md(1) [OF okc r] r]]
  from e gsr obtain d2 where d2: "extractGCodeInfo code (d\<lparr>gcodeBuffer := g\<rparr>) = Some d2"
    "d1 = setState (buffered (dstate d2)) d2" by auto
  from extractGCodeInfo_frame [OF d2(1)] obtain t bt where
    d2': "d2 = d\<lparr>gcodeBuffer := g, targetTemperature := t, targetBedTemperature := bt\<rparr>" by blast
  have s: "gcodeBuffer d' = g" "dstate d' = buffered (dstate d)" "serial d' = serial d" "queue d' = []"
    by (simp_all add: d1(2) d2(2) d2' fullStop_eq setState_def)
  then show "dstate d' = buffered (dstate d)" "serial d' = serial d" "queue d' = []" by simp_all
  show "job_lines d' = gcode_lines (keepGpxMacroComments (gcodeBuffer d)) code" using s(1) a by simp
  show "currentLine (gcodeBuffer d') = 0" using s(1) gcb_append_md(4) [OF okc r] by (simp add: gcb_clear_def)
  show "keepGpxMacroComments (gcodeBuffer d') = keepGpxMacroComments (gcodeBuffer d)" using s(1) a by (simp add: gcb_clear_def)
  show "0 \<le> totalLinesSent (gcodeBuffer d')" using s(1) a(5) by (simp add: gcb_clear_def)
qed

text \<open>C32: Stopping a Makerbot print throws away the queue and the lines that were left, whatever the
  state; what is left is the end code, from its first line. A driver that is online is then stopping, one
  that is not keeps its state and the call fails. Nothing is written to the port: what the printer has
  in its own buffer it still prints.\<close>

theorem makerbot_stop_replaces_print:
  assumes "int (length code) \<le> MAX_BUFFER_SIZE" "MB_stopPrintCode env code d = Some (ok, d')"
  shows "queue d' = [] \<and> job_lines d' = gcode_lines (keepGpxMacroComments (gcodeBuffer d)) code \<and>
    currentLine (gcodeBuffer d') = 0 \<and> serial d' = serial d \<and>
    ok = isPrinterOnline d \<and> dstate d' = (if isPrinterOnline d then STOPPING else dstate d)"
proof -
  let ?c = "MB_clearGCode env d"
  from assms(2) obtain gsr d1 gsr2 d2 where 1: "MB_setGCode env code (-1) None ?c = Some (gsr, d1)"
    and 2: "MB_setGCode env code (-1) None (snd (AD_resetPrint d1)) = Some (gsr2, d2)"
    and 3: "MB_startPrint STOPPING d2 = Some (ok, d')"
    by (auto simp: MB_stopPrintCode_def AD_stopPrintCode_def MB_resetPrint_eq bind_eq_Some_conv)
  note a = set_accepted [OF assms(1) 1] and b = set_accepted [OF assms(1) 2]
  have c: "keepGpxMacroComments (gcodeBuffer ?c) = keepGpxMacroComments (gcodeBuffer d)" "serial ?c = serial d"
      "isPrinterOnline ?c = isPrinterOnline d" "\<not> isPrinterOnline d \<Longrightarrow> dstate ?c = dstate d"
    by (auto simp: MB_clearGCode_def AD_clearGCode_def setState_def fullStop_eq Let_def isPrinterOnline_def)
  let ?r = "snd (AD_resetPrint d1)"
  have r: "keepGpxMacroComments (gcodeBuffer ?r) = keepGpxMacroComments (gcodeBuffer d1)" "serial ?r = serial d1"
      "isPrinterOnline ?r = isPrinterOnline d1" "\<not> isPrinterOnline d1 \<Longrightarrow> dstate ?r = dstate d1"
    by (auto simp: AD_resetPrint_def setState_def setCurrentLine_def Let_def isPrinterOnline_def)
  have on: "isPrinterOnline x = isPrinterOnline y" if "dstate x = buffered (dstate y)" for x y :: "'a MakerbotDriver"
    using that by (auto simp: isPrinterOnline_def buffered_def)
  have o2: "isPrinterOnline d2 = isPrinterOnline d" using on [OF b(3)] on [OF a(3)] c(3) r(3) by simp
  have u: "\<not> isPrinterOnline d \<Longrightarrow> dstate d2 = dstate d"
    using a(3) b(3) c(3,4) r(3,4) on [OF a(3)] by (auto simp: isPrinterOnline_def buffered_def split: if_splits)
  have s: "serial d2 = serial d" "queue d2 = []" "currentLine (gcodeBuffer d2) = 0"
      "job_lines d2 = gcode_lines (keepGpxMacroComments (gcodeBuffer d)) code"
    using a b c r by simp_all
  show ?thesis
  proof (cases "isPrinterOnline d")
    case False
    then show ?thesis using 3 s u o2 by (auto simp: MB_startPrint_def AD_startPrint_def)
  next
    case True
    then have "ok" and "d' = setState STOPPING
        (if dstate d2 \<noteq> PRINTING \<and> dstate d2 \<noteq> STOPPING then snd (AD_resetPrint d2) else d2)"
      using 3 o2 by (auto simp: MB_startPrint_def MB_resetPrint_eq AD_startPrint_def Let_def)
    then show ?thesis
      using True s b(8) o2 by (auto simp: AD_resetPrint_def setState_def setCurrentLine_def Let_def lines_of_def min_def)
  qed
qed

text \<open>The bytes of a number as the printer sends them, the lowest first.\<close>

definition le_bytes :: "32 word \<Rightarrow> bytes" where
  "le_bytes v = map char_of [unat v mod 256, unat v div 256 mod 256, unat v div 256 ^ 2 mod 256, unat v div 256 ^ 3]"

lemma le_value_bytes: "word_of_nat (le_value (le_bytes v)) = (v :: 32 word)"
proof -
  let ?n = "unat v"
  have "?n < 2 ^ LENGTH(32)" by (rule unsigned_less)
  then have t: "?n div 256 div 256 div 256 < 256" by (simp add: div_mult2_eq [symmetric])
  have d: "?n div 256 ^ 2 = ?n div 256 div 256" "?n div 256 ^ 3 = ?n div 256 div 256 div 256"
    by (simp_all add: div_mult2_eq [symmetric])
  have e: "x mod 256 + 256 * (x div 256) = x" for x :: nat by simp
  have "le_value (le_bytes v) = ?n mod 256 + 256 * (?n div 256 mod 256 + 256 * (?n div 256 div 256 mod 256 +
      256 * (?n div 256 div 256 div 256)))"
    using t by (simp only: le_bytes_def d list.map le_value.simps of_char_of mod_mod_trivial mod_less mult_0_right add_0_right)
  also have "\<dots> = ?n" unfolding e ..
  finally show ?thesis by simp
qed

lemma le_value_inj: "length a = length b \<Longrightarrow> le_value a = le_value b \<longleftrightarrow> a = b"
proof (induction a arbitrary: b)
  case (Cons x xs)
  then obtain y ys where b: "b = y # ys" "length xs = length ys" by (cases b) auto
  have m: "le_value (x # xs) mod 256 = byte_of x" "le_value (y # ys) mod 256 = byte_of y"
    "le_value (x # xs) div 256 = le_value xs" "le_value (y # ys) div 256 = le_value ys" by simp_all
  show ?case unfolding b(1) using Cons.IH [OF b(2)] m by (metis list.inject of_char_eq_iff)
qed simp

lemma le_value_bound: "le_value b < 256 ^ length b"
proof (induction b)
  case (Cons x xs)
  then show ?case
    using nat_of_char_less_256 [of x] unfolding le_value.simps list.size add_0_right add_Suc_right power_Suc by linarith
qed simp

text \<open>The number in a reply is read right exactly if the macro the code tests agrees with the byte
  order of the host (or the number is the same in both orders): on a little-endian host without the
  macro, which is what its compiler defines there, the space in the printer's buffer is read reversed.\<close>

theorem buffer_space_byte_order:
  "read32 env (c # le_bytes v) 1 = Some v \<longleftrightarrow>
     little_endian_macro env = little_endian_host env \<or> rev (le_bytes v) = le_bytes v"
proof -
  have l: "length (le_bytes v) = 4" by (simp add: le_bytes_def)
  let ?b = "if little_endian_macro env = little_endian_host env then le_bytes v else rev (le_bytes v)"
  have "read32 env (c # le_bytes v) 1 = Some (word_of_nat (le_value ?b))"
    using l by (simp add: read32_def Let_def)
  moreover have "(word_of_nat (le_value (rev (le_bytes v))) :: 32 word) = v \<longleftrightarrow> rev (le_bytes v) = le_bytes v"
  proof -
    have "le_value (rev (le_bytes v)) < 2 ^ LENGTH(32)" "le_value (le_bytes v) < 2 ^ LENGTH(32)"
      using le_value_bound [of "rev (le_bytes v)"] le_value_bound [of "le_bytes v"] l by simp_all
    then have "(word_of_nat (le_value (rev (le_bytes v))) :: 32 word) = word_of_nat (le_value (le_bytes v)) \<longleftrightarrow>
        le_value (rev (le_bytes v)) = le_value (le_bytes v)"
      by (simp add: word_of_nat_eq_iff take_bit_nat_eq_self)
    then show ?thesis using le_value_inj [of "rev (le_bytes v)" "le_bytes v"] le_value_bytes [of v] by simp
  qed
  ultimately show ?thesis using le_value_bytes [of v] by auto
qed

text \<open>C33: With the byte order right, the driver learns the space the printer reports, and a print
  whose g-code and queue are used up is finished exactly when the printer's whole buffer of 512 bytes is
  free again; until then the state stays.\<close>

theorem print_ends_when_printer_done:
  assumes "queue d = []" "little_endian_macro env = little_endian_host env"
    and "port_events d = RdBlock False # RdData (reply_frame (c # le_bytes v) crc) # es"
    and "byte_word crc = crc_bytes 0 (c # le_bytes v)"
  shows "\<exists>d'. processQueue env d = Some (Go d') \<and> bufferSpace d' = v \<and> queue d' = [] \<and>
    dstate d' = (if sint v < PRINTER_BUFFER_SIZE then dstate d else IDLE)"
proof -
  have l: "length (c # le_bytes v) = 5" by (simp add: le_bytes_def)
  have p: "payload_at (query [2]) 0 = Some 2" by (simp add: payload_at_def query_def)
  have "read32 env (c # le_bytes v) 1 = Some v" using assms(2) l le_value_bytes [of v] by (simp add: read32_def Let_def)
  then obtain d1 where 1: "interpret_response env 2 (-1) (c # le_bytes v) ((packet_out (query [2]) True 2 d)\<lparr>port_events := es\<rparr>) = Some d1"
    and d1: "bufferSpace d1 = v" "queue d1 = []" "dstate d1 = dstate d"
    using assms(1) by (auto simp: interpret_response_def)
  have "sendPacket env (query [2]) True d = Some (Go (True, d1\<lparr>validResponseReceived := True\<rparr>))"
    using sendPacket_reply [OF assms(3) _ _ assms(4) p _ 1] l by simp
  then show ?thesis
    using assms(1) d1 by (auto simp: processQueue_def requestBufferSpace_def setState_def)
qed

section \<open>Witnesses\<close>

lemma demo_writes_s3g: "writes_s3g demo_mb_env"
  unfolding writes_s3g_def demo_mb_env_def
  by (auto intro!: exI [of _ "[Fixed 137 [char_of (31 :: nat)]]"]
      simp: stream_bytes_def query_def argument_size_def ARGUMENT_SIZES_def)

lemma demo_mb_facts [simp]:
  "isConnected (demo_mb st q es)" "dstate (demo_mb st q es) = st" "queue (demo_mb st q es) = q"
  "port_events (demo_mb st q es) = es" "gpx (demo_mb st q es) = ()" "written (serial (demo_mb st q es)) = []"
  "gcodeBuffer (demo_mb st q es) = GCodeBuffer_init\<lparr>keepGpxMacroComments := True\<rparr>" "commands (parser (demo_mb st q es)) = []"
  by (simp_all add: demo_mb_def isConnected_def serial_isOpen_def Serial_init_def MakerbotDriver_init_def
      AbstractDriver_init_def setKeepGpxMacroComments_def S3GParser_init_def AbstractDriver.defs Let_def)

lemma demo_buffer: "gcb_ok (GCodeBuffer_init\<lparr>keepGpxMacroComments := True\<rparr>)"
  by (simp add: gcb_ok_def GCodeBuffer_init_def lines_of_def)

lemma demo_job: "[] \<notin> set q \<Longrightarrow> job_ok (demo_mb st q es)"
  using demo_buffer by (simp add: job_ok_def) (simp add: GCodeBuffer_init_def)

lemma demo_mb_append:
  "\<exists>d. AD_appendGCode ''G28\<newline>G1 X2\<newline>'' (-1) None (demo_mb PRINTING [] []) = Some (GSR_OK, d) \<and>
     job_ok d \<and> job_lines d = [''G28'', ''G1 X2'']"
proof -
  let ?t = "''G28\<newline>G1 X2\<newline>''" and ?d = "demo_mb PRINTING [] []"
  obtain g where g: "gcb_append ?t (-1) None (gcodeBuffer ?d) = Some (GSR_OK, g)"
    using gcb_append_accepts [OF demo_buffer, of None ?t "-1"]
    by (auto simp: append_sanity_def GCodeBuffer_init_def MetaData_init_def MAX_BUFFER_SIZE_def)
  have r: "rfind_prefix ''M109'' ?t = None" "rfind_prefix ''M190'' ?t = None" by simp_all
  let ?d' = "?d\<lparr>gcodeBuffer := g\<rparr>"
  have a: "AD_appendGCode ?t (-1) None ?d = Some (GSR_OK, setState PRINTING ?d')"
    using g r by (simp add: AD_appendGCode_def extractGCodeInfo_def store_number_def buffered_def Let_def)
  have k: "gcode_lines True ?t = [''G28'', ''G1 X2'']" by code_simp
  have "lines_of g = [''G28'', ''G1 X2'']"
    using gt.app_ok [where s = "gcodeBuffer ?d" and m = "(-1, None)" and t = ?t] g demo_buffer
    by (auto simp: k) (simp add: GCodeBuffer_init_def lines_of_def k)
  then have "job_ok (setState PRINTING ?d')" "job_lines (setState PRINTING ?d') = [''G28'', ''G1 X2'']"
    using append_job [OF a demo_job] by (simp_all add: setState_def)
  with a show ?thesis by blast
qed

theorem queue_filled_in_order_witness:
  "\<exists>d d'. job_lines d = [''G28'', ''G1 X2''] \<and> refill demo_mb_env d = Some d' \<and> fills demo_mb_env d d' \<and>
     (QUEUE_FILL_SIZE \<le> length (queue d') \<or> job_lines d' = [])"
proof -
  obtain d :: "unit MakerbotDriver" where "job_ok d" "job_lines d = [''G28'', ''G1 X2'']" using demo_mb_append by blast
  then show ?thesis using queue_filled_in_order [OF _ demo_writes_s3g, of d] by blast
qed

theorem reply_checked_witness:
  "let crc = char_of (unat (crc_bytes 0 (query [0x81, 7]))); f = reply_frame (query [0x81, 7]) crc;
     parse = (\<lambda>b. parseResponse demo_mb_env 137 (-1) (demo_mb PRINTING [] [RdData b])) in
   parse (f[2 := char_of (0x80 :: nat)]) = Some (Go (-3, demo_mb PRINTING [] [])) \<and>
   parse (f[1 := NUL]) = Some (Go (0, demo_mb PRINTING [] [RdData (query [0x81, 7] @ [crc])]))"
proof -
  let ?p = "query [0x81, 7]" let ?crc = "char_of (unat (crc_bytes 0 ?p)) :: char"
  have c: "byte_word ?crc = crc_bytes 0 ?p" by (simp only: byte_word_char_of)
  have p: "?p \<noteq> []" "length ?p = 2" "reply_frame ?p ?crc ! 2 = char_of (0x81 :: nat)" "reply_frame ?p ?crc ! 1 = char_of (2 :: nat)"
    by (simp_all add: query_def reply_frame_def numeral_2_eq_2)
  have n: "(char_of (0x80 :: nat) :: char) \<noteq> char_of (0x81 :: nat)" "NUL \<noteq> char_of (2 :: nat)"
    by (simp_all add: char_of_inj) (simp add: char_of_def bit_Suc_0_iff)
  have e: "(demo_mb PRINTING [] es)\<lparr>port_events := es'\<rparr> = demo_mb PRINTING [] es'" for es es' by (simp add: demo_mb_def)
  show ?thesis
    using reply_checked [OF c p(1), of 2 "char_of (0x80 :: nat)" "demo_mb PRINTING [] [RdData ((reply_frame ?p ?crc)[2 := char_of (0x80 :: nat)])]" "[]" demo_mb_env 137 "-1"]
      reply_checked [OF c p(1), of 1 NUL "demo_mb PRINTING [] [RdData ((reply_frame ?p ?crc)[1 := NUL])]" "[]" demo_mb_env 137 "-1"]
      n p(2-4) by (simp add: e Let_def)
qed


theorem broken_reply_counts_witness:
  "\<exists>d'. sendPacket demo_mb_env (query [137, 31]) True
     (demo_mb PRINTING [] [RdBlock False, RdData [char_of (0xD5 :: nat), char_of (0 :: nat)]]) = Some (Go (True, d'))"
  using broken_reply_counts [of "query [137, 31]" 137 0
      "demo_mb PRINTING [] [RdBlock False, RdData [char_of (0xD5 :: nat), char_of (0 :: nat)]]" "[]" demo_mb_env True]
  by (simp add: payload_at_def query_def)

theorem makerbot_stop_replaces_print_witness:
  "\<exists>ok d'. MB_stopPrintCode demo_mb_env ''M107\<newline>'' (demo_mb PRINTING [query [137, 31]] []) = Some (ok, d') \<and>
     ok \<and> queue d' = [] \<and> job_lines d' = [''M107''] \<and> dstate d' = STOPPING"
proof -
  let ?d = "demo_mb PRINTING [query [137, 31]] []" and ?t = "''M107\<newline>''"
  have set: "\<exists>gsr e'. MB_setGCode demo_mb_env ?t (-1) None e = Some (gsr, e')" for e
  proof -
    have "gcb_ok (gcb_clear (gcodeBuffer e))" using gcb_clear_inv by (simp add: gcb_inv_def)
    then obtain g where "gcb_append ?t (-1) None (gcb_clear (gcodeBuffer e)) = Some (GSR_OK, g)"
      using gcb_append_accepts [of "gcb_clear (gcodeBuffer e)" None ?t "-1"]
      by (auto simp: append_sanity_def gcb_clear_def MetaData_init_def MAX_BUFFER_SIZE_def)
    moreover have "rfind_prefix ''M109'' ?t = None" "rfind_prefix ''M190'' ?t = None" by simp_all
    ultimately show ?thesis
      by (simp add: MB_setGCode_def AD_setGCode_def gcb_set_def extractGCodeInfo_def store_number_def Let_def)
  qed
  obtain gsr d1 where 1: "MB_setGCode demo_mb_env ?t (-1) None (MB_clearGCode demo_mb_env ?d) = Some (gsr, d1)"
    using set by blast
  obtain gsr2 d2 where 2: "MB_setGCode demo_mb_env ?t (-1) None (snd (AD_resetPrint d1)) = Some (gsr2, d2)"
    using set by blast
  obtain ok d' where d': "MB_stopPrintCode demo_mb_env ?t ?d = Some (ok, d')"
    using 1 2 by (cases "AD_startPrint MB_resetPrint STOPPING d2")
      (simp add: MB_stopPrintCode_def AD_stopPrintCode_def MB_resetPrint_eq MB_startPrint_def)
  have "gcode_lines True ?t = [''M107'']" by code_simp
  then show ?thesis
    using makerbot_stop_replaces_print [OF _ d'] d' by (auto simp: MAX_BUFFER_SIZE_def isPrinterOnline_def)
qed

theorem print_ends_when_printer_done_witness:
  "\<exists>d'. processQueue demo_mb_env (demo_mb STOPPING [] [RdBlock False, RdData (reply_frame (char_of (0x81 :: nat) # le_bytes 512)
     (char_of (unat (crc_bytes 0 (char_of (0x81 :: nat) # le_bytes 512)))))]) = Some (Go d') \<and> dstate d' = IDLE"
proof -
  let ?data = "char_of (0x81 :: nat) # le_bytes 512"
  let ?d = "demo_mb STOPPING [] [RdBlock False, RdData (reply_frame ?data (char_of (unat (crc_bytes 0 ?data))))]"
  have q: "queue ?d = []" by simp
  have m: "little_endian_macro demo_mb_env = little_endian_host demo_mb_env" by (simp add: demo_mb_env_def)
  have p: "port_events ?d = RdBlock False # RdData (reply_frame ?data (char_of (unat (crc_bytes 0 ?data)))) # []"
    by (simp only: demo_mb_facts)
  from print_ends_when_printer_done [OF q m p byte_word_char_of] show ?thesis by (auto simp: PRINTER_BUFFER_SIZE_def)
qed

end
