(* ===== verification/MakerbotServer.thy ===== *)
theory MakerbotServer
  imports ServerRun Makerbot
begin

text \<open>
  The Makerbot driver behind the server: its operations as the server calls them, and the contract of
  \<open>ServerRun\<close> (\<open>driver_contract\<close>) on them, so that what the server guarantees for every
  driver that keeps the contract holds with this one too.
\<close>

definition makerbot_ops :: "'g mb_env \<Rightarrow> 'g MakerbotDriver driver_ops" where
  "makerbot_ops menv = \<lparr>op_append = AD_appendGCode, op_clear = MB_clearGCode menv, op_start = MB_startPrint PRINTING,
     op_stop = MB_stopPrintCode menv, op_heatup = heatup MB_sendCode,
     op_update = (\<lambda>es d. MB_update menv (d\<lparr>port_events := port_events d @ es\<rparr>))\<rparr>"

definition makerbot_env :: "'g MakerbotDriver env \<Rightarrow> bool" where
  "makerbot_env env \<longleftrightarrow> (\<exists>menv. writes_s3g menv \<and> ops env = makerbot_ops menv)"

lemma job_ok_events: "job_ok (d\<lparr>port_events := es\<rparr>) = job_ok d"
  by (simp add: job_ok_def)

interpretation makerbot: driver_contract makerbot_env job_ok
proof unfold_locales
  fix env :: "'a MakerbotDriver env" and d d' :: "'a MakerbotDriver" and t n m gsr
  assume "makerbot_env env" "job_ok d"
  then obtain menv where e: "writes_s3g menv" "ops env = makerbot_ops menv" by (auto simp: makerbot_env_def)
  note e = e makerbot_ops_def
  note ok = \<open>job_ok d\<close>
  show "op_append (ops env) t n m d = Some (gsr, d') \<Longrightarrow> job_ok d'" using append_job(1) ok by (auto simp: e)
  show "job_ok (op_clear (ops env) d)" using MB_clearGCode_job ok by (auto simp: e)
  show "op_start (ops env) d = Some (b, d') \<Longrightarrow> job_ok d'" for b using startPrint_job ok by (auto simp: e)
  show "op_stop (ops env) t d = Some (b, d') \<Longrightarrow> job_ok d'" for b using stopPrint_job ok by (auto simp: e)
  show "op_heatup (ops env) k d = Some d' \<Longrightarrow> job_ok d'" for k using ok by (auto simp: e heatup_def MB_sendCode_def)
  show "op_update (ops env) es d = Some (Go (w, d')) \<Longrightarrow> job_ok d'" for es w
    using update_job [of menv "d\<lparr>port_events := port_events d @ es\<rparr>" w d'] ok e by (auto simp: e job_ok_events)
qed

section \<open>Properties\<close>

text \<open>C13: In everything that can happen to a server with a Makerbot driver (clients come and go, send
  any bytes, the printer answers anything), the driver's count of buffered lines is the number of lines
  in its buffer, the current line and the buffered ones never exceed the total, and its queue holds no
  empty command; \<open>masterFds\<close> holds exactly the descriptors of the listening socket and the
  clients, all different, and \<open>select\<close> watches exactly these and, of the descriptors the driver has
  registered, those up to \<open>maxFd\<close>.\<close>

theorem makerbot_server_invariants:
  assumes "server_reachable makerbot_env job_ok s"
  shows "(\<forall>d. sdriver s = Some d \<longrightarrow> [] \<notin> set (queue d) \<and> 0 \<le> currentLine (gcodeBuffer d) \<and>
      bufferedLines (gcodeBuffer d) = int (length (job_lines d)) \<and>
      currentLine (gcodeBuffer d) + bufferedLines (gcodeBuffer d) \<le> totalLinesSent (gcodeBuffer d)) \<and>
    masterFds s = set (socketFd s # map cfd (clients s)) \<and> distinct (socketFd s # map cfd (clients s)) \<and>
    watched s = masterFds s \<union> {fd. fd \<le> maxFd s \<and> (\<exists>d. sdriver s = Some d \<and> fd \<in> registeredFds d)}"
proof -
  have f: "fds_ok s" by (rule reachable_fds [OF assms])
  then have m: "masterFds s = set (socketFd s # map cfd (clients s))" "distinct (socketFd s # map cfd (clients s))"
    unfolding fds_ok_def by blast+
  have "job_ok d" if "sdriver s = Some d" for d
    using makerbot.server_reachable_inv [OF assms] that by (simp add: driver_ok_def)
  then show ?thesis using m watched_fds [OF f, folded m(1)] by (auto simp: job_ok_def gcb_ok_def)
qed

theorem makerbot_server_invariants_witness:
  "\<exists>env s w d. server_iteration env (Some 6) (\<lambda>fd. []) [] (server_start 4 (Some (demo_mb IDLE [] []))) = Some (Go (w, s)) \<and>
     sdriver s = Some d \<and> bufferedLines (gcodeBuffer d) = int (length (job_lines d)) \<and> masterFds s = {4, 6} \<and>
     currentLine (gcodeBuffer d) + bufferedLines (gcodeBuffer d) \<le> totalLinesSent (gcodeBuffer d)"
proof -
  define env where "env = \<lparr>alloc = \<lambda>n. True, bulk_log = False, files = \<lambda>f. Inl 2, strerror = \<lambda>e. ''No such file'',
     ops = makerbot_ops demo_mb_env\<rparr>"
  let ?init = "server_start 4 (Some (demo_mb IDLE [] []))"
  let ?s1 = "\<lparr>clients = [Client_init 6], sdriver = Some (demo_mb IDLE [] []), socketFd = 4, masterFds = {4, 6}, maxFd = 6\<rparr>"
  have 1: "accept_client (Some 6) ?init = Some ?s1"
    by (simp add: accept_client_def server_start_def FD_SETSIZE_def insert_commute)
  have rd: "client_readData [] (Client_init 6) = (0, Client_init 6)"
    by (simp add: client_readData_def readAndAppendAvailableData_def Client_init_def)
  have rc: "runCommands env 0 ?s1 = Some ?s1"
    by (subst runCommands.simps) (simp add: Client_init_def ipc_cmd_is_complete_def)
  have 2: "clients_loop env (\<lambda>fd. []) (length (clients ?s1)) 0 ?s1 = Some ?s1"
    using rc by (simp add: rd)
  obtain w d where u: "op_update (ops env) [] (demo_mb IDLE [] []) = Some (Go (w, d))"
    using demo_mb_facts [of IDLE "[]" "[]"]
    by (simp add: env_def makerbot_ops_def MB_update_def is_active_def UPDATE_TICKS_def demo_mb_def MakerbotDriver_init_def
        isConnected_def serial_isOpen_def AbstractDriver_init_def AbstractDriver.defs Let_def Serial_init_def)
  let ?s = "?s1\<lparr>sdriver := Some d\<rparr>"
  obtain w where it: "server_iteration env (Some 6) (\<lambda>fd. []) [] ?init = Some (Go (w, ?s))"
    using 1 2 u by (simp add: server_iteration_def)
  have "job_ok (demo_mb IDLE [] [])" by (rule demo_job) simp
  moreover have "makerbot_env env" using demo_writes_s3g by (auto simp: makerbot_env_def env_def)
  ultimately have "server_reachable makerbot_env job_ok ?s"
    by (intro sr_iterate [OF sr_start _ _ it]) (auto simp: server_start_def)
  from makerbot_server_invariants [OF this] it show ?thesis
    by (intro exI [of _ env] exI [of _ ?s] exI [of _ w] exI [of _ d]) auto
qed

end
