(* ===== verification/MarlinFeed.thy ===== *)
theory MarlinFeed
  imports EndToEnd
begin

text \<open>
  What a Marlin driver does with a text it is given, in whatever state it is, when its buffer has room and keeps no
  sequence number; and a printing driver for the examples.
\<close>

section \<open>A buffer with room\<close>

text \<open>A buffer that takes texts without a sequence number, with at most \<open>B\<close> bytes counted.\<close>

definition roomy :: "bool \<Rightarrow> int \<Rightarrow> GCodeBuffer \<Rightarrow> bool" where
  "roomy k B g \<longleftrightarrow> keepGpxMacroComments g = k \<and> seqNumber (md g) \<le> -1 \<and> seqTotal (md g) \<le> -1 \<and> source (md g) = None \<and>
     bufferSize g \<le> B"

lemma roomy_setCurrentLine [simp]: "roomy k B (setCurrentLine n g) = roomy k B g" "roomy k B (g\<lparr>currentLine := c\<rparr>) = roomy k B g"
  by (simp_all add: roomy_def setCurrentLine_def)

lemma roomy_erases: "erases g j g' \<Longrightarrow> roomy k B g \<Longrightarrow> roomy k B g'"
proof -
  assume e: "erases g j g'" and r: "roomy k B g"
  have g': "g' = g\<lparr>buckets := buckets g', bufferSize := bufferSize g', bufferedLines := bufferedLines g - int j\<rparr>"
    using e by (simp only: erases_def)
  have "keepGpxMacroComments g' = keepGpxMacroComments g" "md g' = md g" by (subst g', simp)+
  then show "roomy k B g'" using r erasesD(3) [OF e] by (simp add: roomy_def)
qed

lemma printNextLine_roomy:
  assumes "gcb_ok (gcodeBuffer d)" "M_printNextLine d = Some d'" "roomy k B (gcodeBuffer d)"
  shows "roomy k B (gcodeBuffer d')"
proof (cases "mlines d = []")
  case True
  with assms show ?thesis by (auto simp: printNextLine_none AD_resetPrint_def setState_def Let_def)
next
  case False
  with printNextLine_lines [OF assms(1) _ assms(2)] assms(3) show ?thesis by auto
qed

section \<open>A text for the driver\<close>

lemma driver_appends:
  assumes d: "M_inv d" "isConnected d" "roomy k B (gcodeBuffer d)"
    and t: "B + int (length t) \<le> MAX_BUFFER_SIZE" "readable t"
  obtains d1 where "AD_appendGCode t (-1) (Some (meta (-1) (-1) None)) d = Some (GSR_OK, d1)" "M_inv d1" "isConnected d1"
    "dstate d1 = buffered (dstate d)" "serial d1 = serial d" "mlines d1 = mlines d @ gcode_lines k t"
    "roomy k (B + int (length t) + 1) (gcodeBuffer d1)"
proof -
  let ?m = "Some (meta (-1) (-1) None)"
  have ok: "gcb_ok (gcodeBuffer d)" using d(1) by (simp add: M_inv_def M_pre_def)
  have s: "append_sanity (gcodeBuffer d) ?m = GSR_OK"
    using d(3) by (auto simp: append_sanity_OK roomy_def meta_def)
  obtain g where g: "gcb_append t (-1) ?m (gcodeBuffer d) = Some (GSR_OK, g)"
    using gcb_append_accepts [OF ok s, of t "-1"] d(3) t(1) by (auto simp: roomy_def)
  note a = gcb_append_lines [OF ok s g]
  obtain d2 where d2: "extractGCodeInfo t (d\<lparr>gcodeBuffer := g\<rparr>) = Some d2" using t(2) by (auto simp: readable_def)
  let ?d1 = "setState (buffered (dstate d2)) d2"
  have r: "AD_appendGCode t (-1) ?m d = Some (GSR_OK, ?d1)" by (simp add: AD_appendGCode_def g d2 Let_def)
  have f: "gcodeBuffer ?d1 = g" "dstate ?d1 = buffered (dstate d)" "serial ?d1 = serial d"
    using extractGCodeInfo_frame [OF d2] by (auto simp: setState_def)
  show thesis
  proof (rule that [OF r M_append_inv [OF d(1) r] _ f(2,3)])
    show "isConnected ?d1" using d(2) f(3) by (simp add: isConnected_def)
    show "mlines ?d1 = mlines d @ gcode_lines k t" using addsD(2) [OF a(1)] d(3) f(1) by (simp add: roomy_def)
    show "roomy k (B + int (length t) + 1) (gcodeBuffer ?d1)"
      using d(3) f(1) a(2) addsD(7,9) [OF a(1)] by (simp add: roomy_def accept_meta_def meta_def)
  qed
qed

section \<open>A driver that prints\<close>

lemma M_startPrint_sbuf: "M_startPrint st d = Some (b, d') \<Longrightarrow> sbuf (serial d') = sbuf (serial d)"
  by (auto simp: M_startPrint_def AD_startPrint_def setState_def Let_def split: prod.splits if_splits
      dest!: M_printNextLine_sbuf)

lemma M_startPrint_roomy:
  assumes "gcb_ok (gcodeBuffer d)" "M_startPrint st d = Some (b, d')" "roomy k B (gcodeBuffer d)"
  shows "roomy k B (gcodeBuffer d')"
proof -
  obtain b1 d1 where d1: "AD_startPrint AD_resetPrint st d = (b1, d1)" by fastforce
  then have "gcb_ok (gcodeBuffer d1)" "roomy k B (gcodeBuffer d1)"
    using assms(1,3) by (auto simp: AD_startPrint_def AD_resetPrint_def setState_def Let_def gcb_ok_currentLine
        split: if_splits prod.splits)
  with d1 assms(2) printNextLine_roomy [of d1] show ?thesis by (auto simp: M_startPrint_def split: if_splits)
qed

lemma roomy_printing_driver:
  obtains d where "reachable d" "isConnected d" "dstate d = PRINTING" "sbuf (serial d) = []"
    "mlines d = [''G28'', ''G1 X2'']" "written (serial d) = [''G28\<newline>'']" "roomy False 100 (gcodeBuffer d)"
proof -
  have i: "roomy False 0 (gcodeBuffer idle_driver)" by (simp add: roomy_def idle_facts GCodeBuffer_init_def MetaData_init_def)
  have t: "0 + int (length two_lines) \<le> MAX_BUFFER_SIZE" "readable two_lines" "length two_lines < 50"
    by (simp_all add: two_lines_def MAX_BUFFER_SIZE_def readable_plain)
  have e: "mlines idle_driver = []" "serial idle_driver = (serial idle_driver)\<lparr>sbuf := []\<rparr>"
    by (simp_all add: idle_facts GCodeBuffer_init_def lines_of_def)
      (simp add: idle_driver_def opened_driver_eq MarlinDriver_init_def AbstractDriver.extend_def AbstractDriver_init_def Serial_init_def)
  obtain d1 where d1: "AD_appendGCode two_lines (-1) (Some (meta (-1) (-1) None)) idle_driver = Some (GSR_OK, d1)" "M_inv d1"
    "isConnected d1" "dstate d1 = buffered (dstate idle_driver)" "serial d1 = serial idle_driver"
    "mlines d1 = mlines idle_driver @ gcode_lines False two_lines" "roomy False (0 + int (length two_lines) + 1) (gcodeBuffer d1)"
    by (rule driver_appends [OF reachable_inv [OF idle_reachable] idle_facts(3) i t(1,2)])
  have l: "mlines d1 = [''G28'', ''G1 X2'']" using d1(6) e(1) two_lines_lines by simp
  obtain b d where d: "M_startPrint PRINTING d1 = Some (b, d)"
    using startPrint_total [OF d1(2), of PRINTING] l by (auto simp: readable_plain)
  note s = startPrint_abs [OF d1(2,3) d]
  have w: "wire ''G28'' = ''G28\<newline>''" by code_simp
  have "mlines d = [''G28'', ''G1 X2'']" "dstate d = PRINTING" "written (serial d) = [''G28\<newline>'']"
    using s(1) d1(4,5) l w idle_facts(2,4)
    by (auto simp: abs_driver_def proto_start_def proto_next_def online_def buffered_def)
  moreover have "sbuf (serial d) = []"
    using M_startPrint_sbuf [OF d] d1(5) e(2) by (metis Serial.select_convs(2) Serial.surjective Serial.update_convs(2))
  moreover have "roomy False 100 (gcodeBuffer d)"
    using M_startPrint_roomy [OF _ d d1(7)] d1(2) t(3) by (simp add: M_inv_def M_pre_def roomy_def)
  moreover have "reachable d"
    by (rule reachable.step [OF reachable.step [OF idle_reachable append_step [OF d1(1)]] start_step [OF d]])
  ultimately show thesis using that s(2) by blast
qed

end
