(* ===== verification/CmdLine.thy ===== *)
theory CmdLine
  imports Communicator Atof
begin

text \<open>
  The command-line front-end, \<open>src/src/frontends/cmdline/fe_cmdline.c\<close> and
  \<open>actions.c\<close>: its options, what it prints, one function per action and the main function with
  the choice of the device. The static variables the options set are a record; what
  \<open>getopt_long\<close> delivers, the device directory and standard input are arguments; what is printed
  is collected. \<open>None\<close> is undefined behaviour.
\<close>

section \<open>Options\<close>

datatype ACTION_TYPE =
  AT_NONE | AT_ERR_UNKNOWN | AT_ERR_MISSING | AT_ERR_INVALID_GET | AT_SHOW_HELP |
  AT_GET_TEMPERATURE | AT_GET_TEST | AT_GET_TRX_TEST | AT_GET_PROGRESS | AT_GET_STATE | AT_GET_SUPPORTED |
  AT_HEATUP | AT_PRINT_FILE | AT_SEND_CODE | AT_SEND_STDIN | AT_STOP_PRINT

record cmd_options =
  verbosity :: int
  json_output :: bool
  deviceId :: "string option"
  printFile :: "string option"
  sendGcode :: "string option"
  endGcode :: "string option"
  heatupTemperature :: int
  forceStart :: bool
  optarg_save :: "string option"
  deviceIdRequired :: bool
  action :: ACTION_TYPE

definition cmd_options_init :: cmd_options where
  "cmd_options_init = \<lparr>verbosity = 0, json_output = False, deviceId = None, printFile = None, sendGcode = None,
     endGcode = None, heatupTemperature = -1, forceStart = False, optarg_save = None, deviceIdRequired = False,
     action = AT_NONE\<rparr>"

text \<open>\<open>atoi\<close>; undefined when the number does not fit.\<close>

definition atoi :: "string \<Rightarrow> int option" where
  "atoi s =
     (let (neg, r) = sign (dropWhile isspace s);
          v = int (digits_val 10 (takeWhile (is_digit 10) r));
          n = (if neg then - v else v)
      in if - (2 ^ 31) \<le> n \<and> n < 2 ^ 31 then Some n else None)"

abbreviation set_action :: "ACTION_TYPE \<Rightarrow> bool \<Rightarrow> cmd_options \<Rightarrow> cmd_options" where
  "set_action a needs_device o' \<equiv> o'\<lparr>action := a, deviceIdRequired := deviceIdRequired o' \<or> needs_device\<rparr>"

definition get_option :: "string \<Rightarrow> cmd_options \<Rightarrow> cmd_options" where
  "get_option optarg o' =
     (if optarg = ''temperature'' then set_action AT_GET_TEMPERATURE True o'
      else if optarg = ''test'' then set_action AT_GET_TEST True o'
      else if optarg = ''trxtest'' then set_action AT_GET_TRX_TEST True o'
      else if optarg = ''progress'' then set_action AT_GET_PROGRESS True o'
      else (set_action AT_ERR_INVALID_GET False o')\<lparr>optarg_save := Some optarg\<rparr>)"

definition option_step :: "cmd_options \<Rightarrow> char \<times> string \<Rightarrow> cmd_options option" where
  "option_step o' ev =
     (let (ch, optarg) = ev
      in if ch = CHR ''h'' then Some (set_action AT_SHOW_HELP False o')
         else if ch = CHR ''q'' then Some (o'\<lparr>verbosity := -1\<rparr>)
         else if ch = CHR ''v'' then Some (o'\<lparr>verbosity := (if verbosity o' < 1 then 1 else verbosity o' + 1)\<rparr>)
         else if ch = CHR ''j'' then Some (o'\<lparr>json_output := True\<rparr>)
         else if ch = CHR ''g'' then Some (get_option optarg o')
         else if ch = CHR ''t'' then Some (set_action AT_GET_TEMPERATURE True o')
         else if ch = CHR ''p'' then Some (set_action AT_GET_PROGRESS True o')
         else if ch = CHR ''s'' then Some (set_action AT_GET_STATE True o')
         else if ch = CHR ''S'' then Some (set_action AT_GET_SUPPORTED False o')
         else if ch = CHR ''d'' then Some (o'\<lparr>deviceId := Some optarg\<rparr>)
         else if ch = CHR ''F'' then Some (o'\<lparr>forceStart := True\<rparr>)
         else if ch = CHR ''w'' then
           map_option (\<lambda>n. (set_action AT_HEATUP True o')\<lparr>heatupTemperature := n\<rparr>) (atoi optarg)
         else if ch = CHR ''f'' then Some ((set_action AT_PRINT_FILE True o')\<lparr>printFile := Some optarg\<rparr>)
         else if ch = CHR ''c'' then Some ((set_action AT_SEND_CODE True o')\<lparr>sendGcode := Some optarg\<rparr>)
         else if ch = CHR ''r'' then Some (set_action AT_SEND_STDIN True o')
         else if ch = CHR ''k'' then Some (set_action AT_STOP_PRINT True o')
         else if ch = CHR ''K'' then Some ((set_action AT_STOP_PRINT True o')\<lparr>endGcode := Some optarg\<rparr>)
         else if ch = CHR ''?'' then Some (set_action AT_ERR_UNKNOWN False o')
         else if ch = CHR '':'' then Some (set_action AT_ERR_MISSING False o')
         else Some o')"

definition parseOptions :: "(char \<times> string) list \<Rightarrow> cmd_options option" where
  "parseOptions evs =
     map_option (\<lambda>o'. if json_output o' then o'\<lparr>verbosity := -1\<rparr> else o') (fold_option option_step cmd_options_init evs)"

section \<open>Output\<close>

datatype stream = Stdout | Stderr

record 'p cli =
  link :: "'p comm"
  printed :: "(stream \<times> string) list"

abbreviation DQ :: char where "DQ \<equiv> CHR 0x22"

definition json_string :: "string \<Rightarrow> string" where
  "json_string s = [DQ] @ s @ [DQ]"

definition json_field :: "string \<Rightarrow> string \<Rightarrow> string" where
  "json_field key val = json_string key @ '': '' @ val"

definition say :: "string \<Rightarrow> 'p cli \<Rightarrow> 'p cli" where
  "say t c = c\<lparr>printed := printed c @ [(Stdout, t)]\<rparr>"

definition printError :: "bool \<Rightarrow> string \<Rightarrow> 'p cli \<Rightarrow> 'p cli" where
  "printError output_as_json buf c =
     (if \<not> output_as_json then c\<lparr>printed := printed c @ [(Stderr, ''error: '' @ buf @ [NL])]\<rparr>
      else say (''{'' @ json_field ''status'' (json_string ''ERR'') @ '', '' @ json_field ''message'' (json_string buf) @ ''}'') c)"

definition printJsonOk :: "string option \<Rightarrow> 'p cli \<Rightarrow> 'p cli" where
  "printJsonOk format c =
     (let buf = (case format of None \<Rightarrow> [] | Some t \<Rightarrow> t)
      in say (''{'' @ json_field ''status'' (json_string ''OK'') @ (if 0 < length buf then '', '' else []) @ buf @ ''}'') c)"

definition report :: "bool \<Rightarrow> string \<Rightarrow> string option \<Rightarrow> 'p cli \<Rightarrow> 'p cli" where
  "report json text json_text c = (if \<not> json then say text c else printJsonOk json_text c)"

text \<open>A missing error text is printed as the C library prints a null pointer.\<close>

definition error_text :: "'p comm \<Rightarrow> string" where
  "error_text m = (case comm_getError m of Some t \<Rightarrow> t | None \<Rightarrow> ''(null)'')"

definition paren_error :: "string \<Rightarrow> 'p comm \<Rightarrow> string" where
  "paren_error what m = what @ '' ('' @ error_text m @ '')''"

definition close_socket :: "'p comm_env \<Rightarrow> 'p cli \<Rightarrow> 'p cli" where
  "close_socket env c = c\<lparr>link := snd (comm_closeSocket env (link c))\<rparr>"

text \<open>A request that ends the action when it fails.\<close>

definition try_step ::
  "bool \<Rightarrow> string \<Rightarrow> ('p comm \<Rightarrow> (int \<times> 'p comm) option) \<Rightarrow> ('p cli \<Rightarrow> (int \<times> 'p cli) option) \<Rightarrow>
     'p cli \<Rightarrow> (int \<times> 'p cli) option" where
  "try_step json what req k c = do {
     (rv, m) \<leftarrow> req (link c);
     let c1 = c\<lparr>link := m\<rparr>;
     if rv < 0 then Some (1, printError json (paren_error what m) c1) else k c1
   }"
section \<open>Actions\<close>

text \<open>A request whose failure is reported but does not end the action; the value read, if any.\<close>

definition note_step ::
  "bool \<Rightarrow> string \<Rightarrow> ('p comm \<Rightarrow> (int \<times> 'v option \<times> 'p comm) option) \<Rightarrow> int \<times> 'p cli \<Rightarrow> ('v option \<times> int \<times> 'p cli) option" where
  "note_step json what req st = do {
     let (rv, c) = st;
     (r, v, m) \<leftarrow> req (link c);
     let c1 = c\<lparr>link := m\<rparr>;
     Some (if r < 0 then (v, 1, printError json (paren_error what m) c1) else (v, rv, c1))
   }"

definition INT16_MIN :: int where "INT16_MIN = - (2 ^ 15)"

abbreviation or_min :: "int option \<Rightarrow> int" where
  "or_min v \<equiv> (case v of Some x \<Rightarrow> x | None \<Rightarrow> INT16_MIN)"

text \<open>The heating flag has no initial value: a failed request leaves it undefined.\<close>

definition act_printTemperature :: "'p comm_env \<Rightarrow> bool \<Rightarrow> 'p cli \<Rightarrow> (int \<times> 'p cli) option" where
  "act_printTemperature env json c = do {
     (h, st1) \<leftarrow> note_step json ''could not read hotend temperature'' (comm_getTemperature env IPC_TEMP_HOTEND) (0, c);
     (ht, st2) \<leftarrow> note_step json ''could not read hotend target temperature'' (comm_getTemperature env IPC_TEMP_HOTEND_TGT) st1;
     (b, st3) \<leftarrow> note_step json ''could not read bed temperature'' (comm_getTemperature env IPC_TEMP_BED) st2;
     (bt, st4) \<leftarrow> note_step json ''could not read bed target temperature'' (comm_getTemperature env IPC_TEMP_BED_TGT) st3;
     (on, rv, c5) \<leftarrow> note_step json ''could not read heating status'' (comm_getTemperature env IPC_TEMP_HEATING) st4;
     heating \<leftarrow> on;
     let c6 = close_socket env c5;
     let n = (\<lambda>v. itoa (or_min v));
     Some (rv, report json
       (''actual/target hotend temperature: '' @ n h @ ''/'' @ n ht @ ''; actual/target bed temperature: '' @
          n b @ ''/'' @ n bt @ '', heating: '' @ (if heating \<noteq> 0 then ''yes'' else ''no'') @ [NL])
       (Some (json_field ''temperatures'' (''{'' @
          json_field ''hotend'' (''{'' @ json_field ''current'' (n h) @ '', '' @ json_field ''target'' (n ht) @ ''}, '') @
          json_field ''bed'' (''{'' @ json_field ''current'' (n b) @ '', '' @ json_field ''target'' (n bt) @ ''}, '') @
          json_field ''heating'' (if heating \<noteq> 0 then ''true'' else ''false'') @ ''}''))) c6)
   }"

abbreviation in_quotes :: "string \<Rightarrow> string" where "in_quotes s \<equiv> [CHR 0x27] @ s @ [CHR 0x27]"

text \<open>One of the two test commands; the answer of a successful one is printed.\<close>

definition test_step ::
  "'p comm_env \<Rightarrow> bool \<Rightarrow> string \<Rightarrow> string option \<Rightarrow> int \<times> 'p cli \<Rightarrow> (int \<times> int \<times> 'p cli) option" where
  "test_step env json which question st = do {
     let (result, c) = st;
     (rv, answer, m) \<leftarrow> comm_testCommand env question (link c);
     let c1 = c\<lparr>link := m\<rparr>;
     if rv > -1 then do {
       t \<leftarrow> answer;
       Some (rv, result, if \<not> json then say (which @ '' test command returned: '' @ in_quotes t @ [NL]) c1 else c1)
     } else Some (rv, 1, printError json (paren_error (''could not complete '' @ which @ '' test command'') m) c1)
   }"

definition act_printTestResponse :: "'p comm_env \<Rightarrow> bool \<Rightarrow> 'p cli \<Rightarrow> (int \<times> 'p cli) option" where
  "act_printTestResponse env json c = do {
     (rv1, st1) \<leftarrow> test_step env json ''first'' None (0, c);
     (rv, result, c2) \<leftarrow> test_step env json ''second'' (Some ''what?'') st1;
     let c3 = close_socket env c2;
     Some (result, if rv > -1 \<and> json then printJsonOk None c3 else c3)
   }"

text \<open>The message of the failure prints a pointer with the conversion of an \<open>int\<close>: undefined.\<close>

definition act_testTransactions :: "'p comm_env \<Rightarrow> cmd_options \<Rightarrow> 'p cli \<Rightarrow> (int \<times> 'p cli) option" where
  "act_testTransactions env o' c = do {
     (rv, resultText, m) \<leftarrow> comm_testTransactions env (deviceId o') (link c);
     if rv = 0 then Some (0, report (json_output o') (''ok, transaction tester returned: '' @ resultText @ [NL]) None (c\<lparr>link := m\<rparr>))
     else None
   }"

text \<open>The last part of the actions that print: closing the connection, saying so.\<close>

definition finish :: "'p comm_env \<Rightarrow> bool \<Rightarrow> string \<Rightarrow> 'p cli \<Rightarrow> (int \<times> 'p cli) option" where
  "finish env json text_line c = Some (0, report json (text_line @ [NL]) None (close_socket env c))"

definition act_sendGcodeFile :: "'p comm_env \<Rightarrow> bool \<Rightarrow> string option \<Rightarrow> 'p cli \<Rightarrow> (int \<times> 'p cli) option" where
  "act_sendGcodeFile env json file c = do {
     f \<leftarrow> file;
     if \<not> isAbsolutePath f then Some (1, printError json ''please supply an absolute path for the file to print'' c)
     else try_step json ''could not clear gcode'' (comm_clearGCode env)
       (try_step json ''could not send gcode file'' (comm_sendGCodeFile env f)
       (try_step json ''sent gcode file, but could not start print'' (comm_startPrintGCode env)
       (finish env json ''sent gcode file and started print''))) c
   }"

text \<open>
  Reading standard input into a block that grows by 128 bytes: what \<open>read\<close> gives each time, at
  most as much as fits; the text read so far, or the error.
\<close>

fun read_stdin :: "nat \<Rightarrow> (int + bytes) list \<Rightarrow> bytes \<Rightarrow> int + bytes" where
  "read_stdin cap [] acc = Inr acc"
| "read_stdin cap (Inl e # rs) acc = Inl e"
| "read_stdin cap (Inr d # rs) acc =
     (let got = take (cap + 128 - length acc) d
      in if got = [] then Inr acc else read_stdin (cap + 128) rs (acc @ got))"

text \<open>
  The block is not terminated: unless the input has a NUL itself, its length is looked for in bytes
  that were never written.
\<close>

definition c_text :: "bytes \<Rightarrow> string option" where
  "c_text b = (if NUL \<in> set b then Some (cstr b) else None)"

definition act_sendGcodeFromStdin ::
  "'p comm_env \<Rightarrow> (int \<Rightarrow> string) \<Rightarrow> (int + bytes) list \<Rightarrow> bool \<Rightarrow> 'p cli \<Rightarrow> (int \<times> 'p cli) option" where
  "act_sendGcodeFromStdin env strerror input json c =
     try_step json ''could not clear gcode'' (comm_clearGCode env) (\<lambda>c1.
       let c2 = (if \<not> json then say (''Please enter gcode and finish with C-d...'' @ [NL]) c1 else c1)
       in case read_stdin 0 input [] of
            Inl e \<Rightarrow> Some (1, printError json (''error reading from stdin ('' @ strerror e @ '')'') c2)
          | Inr b \<Rightarrow> Option.bind (c_text b) (\<lambda>gcode.
              try_step json ''could not send gcode data'' (comm_sendGCodeData env gcode (-1) None)
              (try_step json ''sent gcode data, but could not start print'' (comm_startPrintGCode env)
              (finish env json ''sent gcode data and started print'')) c2)) c"

definition act_sendGcode :: "'p comm_env \<Rightarrow> bool \<Rightarrow> string \<Rightarrow> 'p cli \<Rightarrow> (int \<times> 'p cli) option" where
  "act_sendGcode env json gcode c =
     try_step json ''could not clear gcode'' (comm_clearGCode env)
     (try_step json ''could not send gcode'' (comm_sendGCodeData env gcode (-1) None)
     (try_step json ''sent gcode, but could not start print'' (comm_startPrintGCode env)
     (finish env json ''sent gcode and started print''))) c"

text \<open>
  Progress: values the reply did not give stay at the smallest number. \<open>percent a b\<close> is the text
  the C library prints for the float \<open>a / b * 100\<close> with one decimal.
\<close>

definition INT32_MIN :: int where "INT32_MIN = - (2 ^ 31)"

definition act_printProgress ::
  "'p comm_env \<Rightarrow> (int \<Rightarrow> int \<Rightarrow> string) \<Rightarrow> bool \<Rightarrow> 'p cli \<Rightarrow> (int \<times> 'p cli) option" where
  "act_printProgress env percent json c = do {
     (rv, xs, m) \<leftarrow> comm_getProgress env (link c);
     let c1 = c\<lparr>link := m\<rparr>;
     if rv < 0 then Some (1, printError json (paren_error ''could not get printing progress'' m) c1)
     else let c2 = close_socket env c1;
              v = (\<lambda>i. if i < length xs then xs ! i else INT32_MIN);
              cur = v 0; buffered = v 1; tot = v 2; size = v 3; maxsize = v 4; num = v 5; ttl = v 6
          in Some (0, report json
               (''print progress: '' @ itoa cur @ '' of '' @ itoa tot @ '' lines ('' @ itoa buffered @ '' buffered)'' @
                (if tot \<noteq> 0 then '' ('' @ percent cur tot @ ''%)'' else []) @
                '', at capacity '' @ itoa size @ '' of '' @ itoa maxsize @ '' bytes max ('' @ percent size maxsize @
                ''%); sequence number/total: '' @ itoa num @ ''/'' @ itoa ttl @ [NL])
               (Some (json_field ''progress'' (''{'' @ json_field ''current'' (itoa cur) @ '', '' @
                  json_field ''total'' (itoa tot) @ '', '' @ json_field ''buffered'' (itoa buffered) @ '', '' @
                  json_field ''buffer_size'' (itoa size) @ '', '' @ json_field ''max_buffer_size'' (itoa maxsize) @ '', '' @
                  json_field ''sequence_number'' (itoa num) @ '', '' @ json_field ''sequence_total'' (itoa ttl) @ ''}''))) c2)
   }"

definition act_printState :: "'p comm_env \<Rightarrow> bool \<Rightarrow> 'p cli \<Rightarrow> (int \<times> 'p cli) option" where
  "act_printState env json c = do {
     (rv, state, m) \<leftarrow> comm_getState env (link c);
     let c1 = c\<lparr>link := m\<rparr>;
     if rv < 0 then Some (1, printError json (paren_error ''could not get printer state'' m) c1)
     else do {
       st \<leftarrow> state;
       Some (0, report json (''printer state: '' @ in_quotes st @ [NL])
         (Some (json_field ''printer_state'' (json_string st))) (close_socket env c1))
     }
   }"

definition act_doHeatup :: "'p comm_env \<Rightarrow> bool \<Rightarrow> int \<Rightarrow> 'p cli \<Rightarrow> (int \<times> 'p cli) option" where
  "act_doHeatup env json temperature c = do {
     (rv, m) \<leftarrow> comm_heatup env temperature (link c);
     let c1 = close_socket env (c\<lparr>link := m\<rparr>);
     Some (if rv > -1
       then (0, report json (''requested printer heatup to '' @ itoa temperature @ '' degrees celcius'' @ [NL])
              (Some (json_field ''target_temperatures'' (''{'' @ json_field ''hotend'' (itoa temperature) @ ''}''))) c1)
       else (1, printError json (paren_error ''could not request printer heatup'' (link c1)) c1))
   }"

definition act_stopPrint :: "'p comm_env \<Rightarrow> bool \<Rightarrow> string option \<Rightarrow> 'p cli \<Rightarrow> (int \<times> 'p cli) option" where
  "act_stopPrint env json endCode c = do {
     (rv, m) \<leftarrow> comm_stopPrintGCode env endCode (link c);
     let c1 = close_socket env (c\<lparr>link := m\<rparr>);
     let n = itoa (int (length (case endCode of Some t \<Rightarrow> t | None \<Rightarrow> [])));
     Some (if rv > -1
       then (0, report json
              (if endCode = None then ''requested printing stop'' @ [NL]
               else ''requested printing stop with '' @ n @ '' bytes of end code'' @ [NL])
              (Some (json_field ''end_code_size'' n)) c1)
       else (1, printError json (paren_error ''could not request printing stop'' (link c1)) c1))
   }"

section \<open>The action of a command line\<close>

abbreviation TAB :: char where "TAB \<equiv> CHR 0x09"

definition help_line :: "string \<Rightarrow> nat \<Rightarrow> string \<Rightarrow> string" where
  "help_line option tabs what = [TAB] @ option @ replicate tabs TAB @ what @ [NL]"

definition help_text :: "string \<Rightarrow> string" where
  "help_text argv0 =
     ''Basic usage: '' @ in_quotes (argv0 @ '' [<options>]'') @ ''.'' @ [NL] @
     ''The following options are available:'' @ [NL] @
     help_line ''-h,--help'' 2 ''Show this help message'' @
     help_line ''-q,--quiet'' 2 ''Do not print any output'' @
     help_line ''-v,--verbose'' 2 ''Print verbose output (repeat to enable bulk mode; default: log only errors and warnings)'' @
     help_line ''-j,--json'' 2 ''Emit only JSON output (verbosity will be set to quiet)'' @
     help_line ''-g,--get <parm>'' 2 ''Retrieve the given parameter(s) (temperature|test|trxtest|progress)'' @
     help_line ''-t,--temperature'' 1 ''Retrieve the printer temperature'' @
     help_line ''-p,--progress'' 2 ''Retrieve printing progress'' @
     help_line ''-s,--state'' 2 ''Query the printer state'' @
     help_line ''-S,--supported'' 2 ''Retrieve a list of supported printers'' @
     help_line ''-d,--device <dev-id>'' 1 ''Print to the given device-id'' @
     help_line ''-F,--force-run'' 2 ''Force running with a default device if none could be found'' @
     help_line ''-w,--heatup <temp>'' 1 ''Ask the printer to heatup to the given temperature (degrees celcius)'' @
     help_line ''-f,--gcode-file <file>'' 1 ''Print the given g-code file'' @
     help_line ''-c,--gcode <gcode>'' 1 ''Print the specified line(s) of g-code'' @
     help_line ''-r,--stdin'' 2 ''Print g-code read from stdin (end interactive input with C-d)'' @
     help_line ''-k,--stop'' 2 ''Stop printing'' @
     [TAB] @ ''-K,--stop-with-code <gcode> Stop printing, with specified end code'' @ [NL]"

definition needs_socket :: "ACTION_TYPE \<Rightarrow> bool" where
  "needs_socket a \<longleftrightarrow> a \<in> {AT_GET_TEMPERATURE, AT_GET_TEST, AT_GET_PROGRESS, AT_GET_STATE, AT_HEATUP, AT_PRINT_FILE,
     AT_SEND_CODE, AT_SEND_STDIN, AT_STOP_PRINT}"

text \<open>What the process is given besides its connection.\<close>

record cli_world =
  argv0 :: string
  stdin_reads :: "(int + bytes) list"
  cli_strerror :: "int \<Rightarrow> string"
  percent_text :: "int \<Rightarrow> int \<Rightarrow> string"

definition unexpected_action :: string where
  "unexpected_action = ''Action handler called with '' @ in_quotes ''unknown'' @ '', '' @ in_quotes ''missing'' @ '' or '' @
     in_quotes ''invalid_get'' @ '' action, this should not happen.''"

definition show_help :: "cli_world \<Rightarrow> bool \<Rightarrow> 'p cli \<Rightarrow> int \<times> 'p cli" where
  "show_help w json c =
     (if json then (0, printJsonOk (Some (json_field ''message'' (json_string ''help requested, ignored in JSON mode''))) c)
      else (2, say (help_text (argv0 w)) c))"

text \<open>
  The exit code. Printing a file checks its name twice and goes on in spite of the first check.
\<close>

definition do_action :: "'p comm_env \<Rightarrow> cli_world \<Rightarrow> cmd_options \<Rightarrow> 'p cli \<Rightarrow> (int \<times> 'p cli) option" where
  "do_action env w o' c =
     (let json = json_output o' in
      case action o' of
        AT_ERR_UNKNOWN \<Rightarrow> Some (2, printError json unexpected_action c)
      | AT_ERR_MISSING \<Rightarrow> Some (2, printError json unexpected_action c)
      | AT_ERR_INVALID_GET \<Rightarrow> Some (2, printError json unexpected_action c)
      | AT_NONE \<Rightarrow> Some (show_help w json c)
      | AT_SHOW_HELP \<Rightarrow> Some (show_help w json c)
      | AT_GET_TEMPERATURE \<Rightarrow> act_printTemperature env json c
      | AT_GET_TEST \<Rightarrow> act_printTestResponse env json c
      | AT_GET_TRX_TEST \<Rightarrow> act_testTransactions env o' c
      | AT_GET_PROGRESS \<Rightarrow> act_printProgress env (percent_text w) json c
      | AT_GET_STATE \<Rightarrow> act_printState env json c
      | AT_GET_SUPPORTED \<Rightarrow> Some (5, report json (''[dummy] unimplemented: get supported'' @ [NL])
          (Some (json_field ''message'' (json_string ''unimplemented: get supported''))) c)
      | AT_HEATUP \<Rightarrow> act_doHeatup env json (heatupTemperature o') c
      | AT_PRINT_FILE \<Rightarrow>
          act_sendGcodeFile env json (printFile o')
            (case printFile o' of
               None \<Rightarrow> printError json ''error: missing filename to print'' c
             | Some f \<Rightarrow> if \<not> isAbsolutePath f
                 then printError json ''please supply an absolute path for the file to print'' c else c)
      | AT_SEND_CODE \<Rightarrow> (case sendGcode o' of
            None \<Rightarrow> Some (1, printError json ''error: missing g-code to print'' c)
          | Some g \<Rightarrow> act_sendGcode env json g c)
      | AT_SEND_STDIN \<Rightarrow> act_sendGcodeFromStdin env (cli_strerror w) (stdin_reads w) json c
      | AT_STOP_PRINT \<Rightarrow> act_stopPrint env json (endGcode o') c)"

definition handleAction :: "'p comm_env \<Rightarrow> cli_world \<Rightarrow> cmd_options \<Rightarrow> 'p cli \<Rightarrow> (int \<times> 'p cli) option" where
  "handleAction env w o' c =
     (if needs_socket (action o') then do {
        (fd, m) \<leftarrow> comm_openSocket env (deviceId o') (link c);
        let c1 = c\<lparr>link := m\<rparr>;
        if fd < 0 then Some (1, printError (json_output o') ''could not open socket (run in verbose mode for details)'' c1)
        else do_action env w o' c1
      } else do_action env w o' c)"

section \<open>The main function\<close>

definition complain :: "string \<Rightarrow> 'p cli \<Rightarrow> 'p cli" where
  "complain t c = c\<lparr>printed := printed c @ [(Stderr, t)]\<rparr>"

text \<open>The device to use, or the exit code; the directory of devices is read when none was given.\<close>

definition choose_device ::
  "dirent list option \<Rightarrow> cmd_options \<Rightarrow> 'p cli \<Rightarrow> ((int + cmd_options) \<times> 'p cli) option" where
  "choose_device dir o' c =
     (let json = json_output o' in
      if \<not> deviceIdRequired o' \<or> deviceId o' \<noteq> None then Some (Inr o', c)
      else case ipc_find_devices dir of
        None \<Rightarrow> Some (Inl 1, printError json ''could not obtain device list'' c)
      | Some devs \<Rightarrow>
          (case devs ! 0 of
             Uninit \<Rightarrow> None
           | Null \<Rightarrow>
               if \<not> forceStart o' then
                 Some (Inl 1, printError json
                   (''no devices found, please connect a printer and start a server for it, or re-rerun with '' @
                      in_quotes ''-F'') c)
               else Some (Inr (o'\<lparr>deviceId := Some IPC_DEFAULT_DEVICE_ID\<rparr>),
                 if verbosity o' > 0
                 then say (''no device specified and none found, using default ('' @ IPC_DEFAULT_DEVICE_ID @ '')'' @ [NL]) c else c)
           | Ptr d \<Rightarrow>
               (case devs ! 1 of
                  Uninit \<Rightarrow> None
                | Null \<Rightarrow> Some (Inr (o'\<lparr>deviceId := Some d\<rparr>), c)
                | Ptr d2 \<Rightarrow>
                    if \<not> json then
                      map_option (\<lambda>names. (Inl 1, complain
                        (''more than one device found (listed below), please specify one the following:'' @ [NL] @
                         concat (map (\<lambda>n. '' '' @ in_quotes n) names) @ [NL]) c)) (visit_devices devs)
                    else Some (Inl 1, printError json ''more than one device found, please specify one of them'' c))))"

text \<open>The part of a name behind its last slash.\<close>

definition base_name :: "string \<Rightarrow> string" where
  "base_name s = rev (takeWhile (\<lambda>c. c \<noteq> CHR ''/'') (rev s))"

definition cli_main ::
  "'p comm_env \<Rightarrow> cli_world \<Rightarrow> dirent list option \<Rightarrow> (char \<times> string) list \<Rightarrow> char \<Rightarrow> 'p cli \<Rightarrow> (int \<times> 'p cli) option" where
  "cli_main env w dir evs optopt c = do {
     o' \<leftarrow> parseOptions evs;
     let json = json_output o';
     if action o' = AT_ERR_UNKNOWN then
       Some (2, printError json (''invalid option '' @ in_quotes [optopt] @ '' to executable, try -h'') c)
     else if action o' = AT_ERR_MISSING then
       Some (2, printError json (''option '' @ in_quotes [optopt] @ '' to executable requires an argument, try -h'') c)
     else if action o' = AT_ERR_INVALID_GET then
       Some (2, printError json (''invalid parameter for -g option ('' @
         in_quotes (case optarg_save o' of Some t \<Rightarrow> t | None \<Rightarrow> []) @ ''), try -h'') c)
     else do {
       let c1 = (if verbosity o' \<ge> 0
                 then say (''Print3D command-line client'' @ (if verbosity o' > 1 then '' (bulk mode)''
                        else if verbosity o' > 0 then '' (verbose mode)'' else []) @ [NL]) c
                 else c);
       (r, c2) \<leftarrow> choose_device dir o' c1;
       case r of
         Inl e \<Rightarrow> Some (e, c2)
       | Inr o1 \<Rightarrow> do {
           let o2 = o1\<lparr>deviceId := map_option base_name (deviceId o1)\<rparr>;
           let c3 = (if verbosity o2 > 0
                     then say (''Using device ID '' @ in_quotes (case deviceId o2 of Some d \<Rightarrow> d | None \<Rightarrow> ''(null)'') @ [NL]) c2
                     else c2);
           (rv, c4) \<leftarrow> handleAction env w o2 c3;
           ipc_free_device_list (if deviceIdRequired o' \<and> deviceId o' = None then ipc_find_devices dir else None);
           Some (rv, c4)
         }
     }
   }"

section \<open>Properties\<close>

lemma two_slots:
  "ipc_find_devices (Some ents) = Some (case device_entries ents of
     a # b # c # ns \<Rightarrow> map Ptr (a # b # c # ns) @ [Uninit]
   | ns \<Rightarrow> map Ptr ns @ replicate (3 - length ns) Null)"
  using push_devices_small [of "device_entries ents"] push_devices_three
  by (auto simp: ipc_find_devices_def fold_scan_eq simp del: fold.simps split: list.split)

text \<open>C38: Which device the program talks to when none is given but one is needed: the only
  printer device of the directory; with none, the default one if a run is forced and otherwise none
  (exit code 1); with two, none (exit code 1, with the two names or as JSON); with three or more, also
  exit code 1 with JSON output, but the listing for people runs off the end of the unterminated list.\<close>

theorem device_choice:
  assumes "deviceIdRequired o'" "deviceId o' = None"
  shows "map_option fst (choose_device (Some ents) o' c) =
    (case device_entries ents of
       [] \<Rightarrow> Some (if forceStart o' then Inr (o'\<lparr>deviceId := Some IPC_DEFAULT_DEVICE_ID\<rparr>) else Inl 1)
     | [n] \<Rightarrow> Some (Inr (o'\<lparr>deviceId := Some n\<rparr>))
     | [n, n'] \<Rightarrow> Some (Inl 1)
     | n # n' # n'' # ns \<Rightarrow> if json_output o' then Some (Inl 1) else None)"
  using assms visit_Ptrs [of _ "[Uninit]"]
  by (auto simp: choose_device_def two_slots Let_def numeral_3_eq_3 split: list.split)

theorem device_choice_witness:
  "\<forall>c :: nat cli. map_option fst (choose_device (Some [\<lparr>d_name = ''null'', d_chr = True\<rparr>, \<lparr>d_name = ''ttyACM0'', d_chr = True\<rparr>])
      (cmd_options_init\<lparr>deviceIdRequired := True\<rparr>) c) =
    Some (Inr (cmd_options_init\<lparr>deviceIdRequired := True, deviceId := Some ''ttyACM0''\<rparr>))"
proof
  fix c :: "nat cli"
  show "map_option fst (choose_device (Some [\<lparr>d_name = ''null'', d_chr = True\<rparr>, \<lparr>d_name = ''ttyACM0'', d_chr = True\<rparr>])
      (cmd_options_init\<lparr>deviceIdRequired := True\<rparr>) c) =
    Some (Inr (cmd_options_init\<lparr>deviceIdRequired := True, deviceId := Some ''ttyACM0''\<rparr>))"
    by (subst device_choice) (simp_all add: cmd_options_init_def device_entries_def device_names_def name_matches_def)
qed

end
