(* ===== verification/PrintJob.thy ===== *)
theory PrintJob
  imports MarlinFeed CmdLine
begin

text \<open>
  A print job from end to end: the command-line front-end sending a text and starting the print,
  through the protocol and the server, to the Marlin driver behind it.
\<close>

section \<open>Commands without an argument\<close>

lemma simple_request_served:
  assumes "serves env pieces i cenv" "0 \<le> csock c" "peer c = Some s" "idle_client i s"
    and "runCommand env i (encode (ipc_code code) []) s = Some (push_sent i [ok_reply] s')"
    and "csent (clients s' ! i) = csent (clients s ! i)" "length (clients s') = length (clients s)"
  shows "simple_request cenv code None [] c = Some (0, c\<lparr>cerror := None, peer := Some (push_sent i [ok_reply] s')\<rparr>)"
proof -
  let ?b = "encode (ipc_code code) []"
  have al: "\<And>n. 0 < n \<Longrightarrow> calloc cenv n" and bulk: "\<not> cbulk cenv"
    using assms(1) by (auto simp: serves_def)
  have con: "ipc_construct_cmd (calloc cenv) code None [] = Some (Some ?b)"
    by (rule construct_encode_NULL [OF al])
  have isc: "is_cmd ?b" unfolding is_cmd_def
    by (intro exI [of _ "ipc_code code"] exI [of _ "[]"]) (cases code; simp add: wf_cmd_def)
  have sent: "csent (clients (push_sent i [ok_reply] s') ! i) = csent (clients s ! i) @ [ok_reply]"
    using assms(4,6,7) by (simp add: push_sent_def nth_upd_client idle_client_def)
  have "request cenv code None [] 0 (clearError c) =
      Some (0, Some ok_reply, (clearError c)\<lparr>peer := Some (push_sent i [ok_reply] s')\<rparr>)"
    using request_served [OF assms(1) _ assms(4) con isc assms(5) sent _ _, of "csock c" "clearError c"] assms(2,3)
      ok_reply_short reply_read(1) [OF bulk al] by (simp add: clearError_def)
  then show ?thesis by (simp add: simple_request_def clearError_def)
qed

lemma cancelAll_reads:
  "length (clients (cancelAllTransactions k s)) = length (clients s)"
  "i < length (clients s) \<Longrightarrow> clients (cancelAllTransactions k s) ! i =
     (if i = k then clients s ! i else upd_trx (\<lambda>t. t\<lparr>cancelled := True\<rparr>) (clients s ! i))"
  "sdriver (cancelAllTransactions k s) = sdriver s"
  by (auto simp: cancelAllTransactions_def nth_enumerate_eq)

lemma gcodeClear_calm:
  assumes "calm env" "i < length (clients s)" "cfd (clients s ! i) \<noteq> -1" "sdriver s = Some d"
  shows "runCommand env i (encode (ipc_code IPC_CMDQ_GCODE_CLEAR) []) s =
    Some (push_sent i [ok_reply] ((cancelAllTransactions i s)\<lparr>sdriver := Some (op_clear (ops env) d)\<rparr>))"
  using assms sendOk_calm [OF assms(1), of "(cancelAllTransactions i s)\<lparr>sdriver := Some (op_clear (ops env) d)\<rparr>" i]
  by (simp add: runCommand_def logIpcCmd_def calm_def HANDLERS_def hnd_gcodeClear_def cancelAll_reads)

lemma gcodeStart_calm:
  assumes "calm env" "cfd (clients s ! i) \<noteq> -1" "sdriver s = Some d" "op_start (ops env) d = Some (b, d1)"
  shows "runCommand env i (encode (ipc_code IPC_CMDQ_GCODE_STARTPRINT) []) s =
    Some (push_sent i [ok_reply] (s\<lparr>sdriver := Some d1\<rparr>))"
  using assms sendOk_calm [OF assms(1), of "s\<lparr>sdriver := Some d1\<rparr>" i]
  by (simp add: runCommand_def logIpcCmd_def calm_def HANDLERS_def hnd_gcodeStartPrint_def)

lemma idle_push_sent: "idle_client i s \<Longrightarrow> idle_client i (push_sent i ms s)"
  by (simp add: idle_client_def push_sent_def nth_upd_client)

section \<open>The driver's part\<close>

text \<open>A started print, followed through any answers that acknowledge its lines.\<close>

lemma acknowledged_print:
  assumes "M_inv d0" "isConnected d0" "mlines d0 = ls" "ls \<noteq> []" "dstate d0 = PRINTING" "\<forall>l \<in> set ls. readable l"
    and "\<forall>c \<in> set codes. response_readable c" "R_resend \<notin> set (map classify codes)"
    and "length ls \<le> oks (map classify codes)"
  shows "\<exists>d'. responses d0 codes = Some d' \<and> written (serial d') = written (serial d0) @ map wire (tl ls) \<and>
    mlines d' = [] \<and> dstate d' = IDLE"
proof -
  obtain l ks where l: "ls = l # ks" using assms(4) by (cases ls) auto
  have chk: "\<not> checkConnection d0"
    using assms(1,5) by (simp add: M_inv_def M_pre_def isPrinterOnline_def)
  obtain d' where d': "responses d0 codes = Some d'"
    using responses_total [OF assms(1,2), of codes] assms(3,6,7) by auto
  have "abs_driver d' = fold proto_resp (map classify codes) (abs_driver d0)"
    using responses_abs [OF assms(1,2) d'] by blast
  also have "\<dots> = \<lparr>p_lines = [], p_state = IDLE, p_log = written (serial d0) @ map wire ks, p_check = False\<rparr>"
    using assms(3,5,8,9) l chk by (subst proto_run) (auto simp: abs_driver_def online_def printing_def)
  finally show ?thesis using d' l by (auto simp: abs_driver_def)
qed

lemma clear_append_start:
  assumes "reachable d" "isConnected d" "int (length code) \<le> MAX_BUFFER_SIZE" "readable code"
  defines "ls \<equiv> gcode_lines (keepGpxMacroComments (gcodeBuffer d)) code"
  assumes "\<forall>l \<in> set ls. readable l"
  obtains d1 d2 where "AD_appendGCode code (-1) (Some (meta (-1) (-1) None)) (AD_clearGCode d) = Some (GSR_OK, d1)"
    "M_startPrint PRINTING d1 = Some (isPrinterOnline d, d2)" "reachable d2" "isConnected d2" "mlines d2 = ls"
    "dstate d2 = (if \<not> isPrinterOnline d then dstate d else if ls = [] then IDLE else PRINTING)"
    "written (serial d2) = written (serial d) @ (if isPrinterOnline d then map wire (take 1 ls) else [])"
proof -
  let ?c = "AD_clearGCode d" and ?m = "Some (meta (-1) (-1) None)" and ?k = "keepGpxMacroComments (gcodeBuffer d)"
  have rc: "reachable ?c" by (rule reachable.step [OF assms(1) clear_step])
  have buf: "serial ?c = serial d" "isConnected ?c" "mlines ?c = []" "roomy ?k 0 (gcodeBuffer ?c)"
    using assms(2) by (simp_all add: AD_clearGCode_def setState_def Let_def isConnected_def roomy_def)
      (simp_all add: gcb_clear_def MetaData_init_def)
  have st: "dstate ?c = (if isPrinterOnline d then IDLE else dstate d)"
    by (cases "dstate d") (simp_all add: AD_clearGCode_def setState_def Let_def isPrinterOnline_def)
  obtain d1 where a: "AD_appendGCode code (-1) ?m ?c = Some (GSR_OK, d1)" and d1: "M_inv d1" "isConnected d1"
    "dstate d1 = buffered (dstate ?c)" "serial d1 = serial ?c" "mlines d1 = mlines ?c @ gcode_lines ?k code"
    by (rule driver_appends [OF reachable_inv [OF rc] buf(2,4)]) (use assms(3,4) in auto)
  have l1: "mlines d1 = ls" using d1(5) buf(3) by (simp add: ls_def)
  have s1: "dstate d1 = (if isPrinterOnline d then BUFFERING else dstate d)" "isPrinterOnline d1 = isPrinterOnline d"
    using d1(3) st by (auto simp: buffered_def isPrinterOnline_def)
  obtain b d2 where d2: "M_startPrint PRINTING d1 = Some (b, d2)"
    using startPrint_total [OF d1(1), of PRINTING] l1 assms(6) by auto
  note s = startPrint_abs [OF d1(1,2) d2]
  have "mlines d2 = ls" "dstate d2 = (if \<not> isPrinterOnline d then dstate d else if ls = [] then IDLE else PRINTING)"
    "written (serial d2) = written (serial d) @ (if isPrinterOnline d then map wire (take 1 ls) else [])"
    using s(1) l1 s1 d1(4) buf(1)
    by (auto simp: abs_driver_def proto_start_def proto_next_def online_driver online_def split: list.splits)
  with that [OF a d2 [unfolded s(3) s1(2)] reachable.step [OF reachable.step [OF rc append_step [OF a]] start_step [OF d2]] s(2)]
  show thesis by blast
qed

section \<open>Clearing, sending and starting\<close>

lemma send_text_served:
  assumes "serves env pieces i cenv" "0 \<le> csock c" "peer c = Some s" "idle_client i s" "\<not> cancelled (trx_of i s)"
    and "text \<noteq> []" "NUL \<notin> set text" "\<not> long_line text"
    and "sdriver s = Some d" "op_append (ops env) text (-1) (Some (meta (-1) (-1) None)) d = Some (GSR_OK, d1)"
    and md: "md_num m = -1" "md_ttl m = -1" "md_src m = None"
  obtains replies where "comm_sendGCodeData cenv text (-1) m c =
    Some (0, c\<lparr>cerror := None, peer := Some (push_sent i replies (close_trx i (s\<lparr>sdriver := Some d1\<rparr>)))\<rparr>)"
proof -
  obtain ps where ps: "packets text = Some ps" using assms(8) packets_None by blast
  have "send_packets cenv (-1) m 0 0 text (clearError c) = Some (outcome_of GSR_OK
      ((clearError c)\<lparr>peer := Some (push_sent i (replicate (length ps - 1) ok_reply @ [append_reply GSR_OK])
        (close_trx i (s\<lparr>sdriver := Some d1\<rparr>)))\<rparr>))"
    by (rule send_packets_served [OF assms(1) _ ps assms(6,7) _ assms(4,5) _ _ _ _ assms(9)])
      (use assms(2,3,10) in \<open>simp_all add: clearError_def md in_range_def\<close>)
  then show thesis
    using assms(7) by (intro that) (simp add: comm_sendGCodeData_def cstr_no_NUL outcome_of_def clearError_def)
qed

lemma clearGCode_served:
  assumes sv: "serves env pieces i cenv" and c: "0 \<le> csock c" "peer c = Some s"
    and s: "idle_client i s" "sdriver s = Some d"
  shows "comm_clearGCode cenv c = Some (0, c\<lparr>cerror := None, peer := Some (push_sent i [ok_reply]
    ((cancelAllTransactions i s)\<lparr>sdriver := Some (op_clear (ops env) d)\<rparr>))\<rparr>)"
proof -
  have calm: "calm env" using sv by (simp add: serves_def)
  have i: "i < length (clients s)" "cfd (clients s ! i) \<noteq> -1" using s(1) by (simp_all add: idle_client_def)
  show ?thesis
    unfolding comm_clearGCode_def
    by (rule simple_request_served [OF sv c s(1) gcodeClear_calm [OF calm i s(2)]]) (use i in \<open>simp_all add: cancelAll_reads\<close>)
qed

text \<open>The three requests of a print job, and the state they leave.\<close>

lemma job_requests:
  fixes c :: "'a AbstractDriver_scheme Server option cli"
  assumes sv: "serves env pieces i cenv" and c: "0 \<le> csock (link c)" "peer (link c) = Some s"
    and s: "idle_client i s" "\<not> cancelled (trx_of i s)" "sdriver s = Some d"
    and tx: "text \<noteq> []" "NUL \<notin> set text" "\<not> long_line text"
    and d: "op_append (ops env) text (-1) (Some (meta (-1) (-1) None)) (op_clear (ops env) d) = Some (GSR_OK, d1)"
      "op_start (ops env) d1 = Some (b, d2)"
  shows "\<exists>s'. act_sendGcode cenv json text c = finish cenv json ''sent gcode and started print''
      (c\<lparr>link := (link c)\<lparr>cerror := None, peer := Some s'\<rparr>\<rparr>) \<and>
    sdriver s' = Some d2 \<and> length (clients s') = length (clients s) \<and> \<not> active (trx_of i s') \<and>
    (\<forall>j < length (clients s). j \<noteq> i \<longrightarrow> cancelled (trx_of j s'))"
proof -
  have calm: "calm env" using sv by (simp add: serves_def)
  have i: "i < length (clients s)" "cfd (clients s ! i) \<noteq> -1" using s(1) by (simp_all add: idle_client_def)
  let ?s1 = "push_sent i [ok_reply] ((cancelAllTransactions i s)\<lparr>sdriver := Some (op_clear (ops env) d)\<rparr>)"
  have clear: "comm_clearGCode cenv (link c) = Some (0, (link c)\<lparr>cerror := None, peer := Some ?s1\<rparr>)"
    by (rule clearGCode_served [OF sv c s(1,3)])
  have s1: "idle_client i ?s1" "\<not> cancelled (trx_of i ?s1)" "sdriver ?s1 = Some (op_clear (ops env) d)"
    "length (clients ?s1) = length (clients s)"
    "\<forall>j < length (clients s). j \<noteq> i \<longrightarrow> cancelled (trx_of j ?s1)"
    using s i by (auto simp: idle_client_def push_sent_def nth_upd_client cancelAll_reads upd_client_def upd_trx_def)
  let ?c1 = "(link c)\<lparr>cerror := None, peer := Some ?s1\<rparr>"
  obtain replies where send: "comm_sendGCodeData cenv text (-1) None ?c1 =
      Some (0, ?c1\<lparr>cerror := None, peer := Some (push_sent i replies (close_trx i (?s1\<lparr>sdriver := Some d1\<rparr>)))\<rparr>)"
    by (rule send_text_served [OF sv _ _ s1(1,2) tx s1(3) d(1), of ?c1 None])
      (use c in \<open>simp_all add: md_num_def md_ttl_def md_src_def\<close>)
  let ?s2 = "push_sent i replies (close_trx i (?s1\<lparr>sdriver := Some d1\<rparr>))"
  have s2: "idle_client i ?s2" "sdriver ?s2 = Some d1" "length (clients ?s2) = length (clients s)"
    "\<not> active (trx_of i ?s2)" "\<forall>j < length (clients s). j \<noteq> i \<longrightarrow> cancelled (trx_of j ?s2)"
    using s1 i by (auto simp: idle_client_def push_sent_def close_trx_def nth_upd_client upd_client_def upd_trx_def)
  let ?c2 = "(link c)\<lparr>cerror := None, peer := Some ?s2\<rparr>"
  let ?s3 = "push_sent i [ok_reply] (?s2\<lparr>sdriver := Some d2\<rparr>)"
  have start: "comm_startPrintGCode cenv ?c2 = Some (0, ?c2\<lparr>cerror := None, peer := Some ?s3\<rparr>)"
    unfolding comm_startPrintGCode_def
    by (rule simple_request_served [OF sv _ _ s2(1) gcodeStart_calm [OF calm _ s2(2) d(2)]])
      (use c s2(1) in \<open>simp_all add: idle_client_def\<close>)
  have s3: "sdriver ?s3 = Some d2" "length (clients ?s3) = length (clients s)" "\<not> active (trx_of i ?s3)"
    "\<forall>j < length (clients s). j \<noteq> i \<longrightarrow> cancelled (trx_of j ?s3)"
    using s2 i by (auto simp: push_sent_def upd_client_def)
  show ?thesis
    using s3 clear send start by (intro exI [of _ ?s3]) (simp add: act_sendGcode_def try_step_def)
qed

text \<open>The job with a Marlin driver behind the server.\<close>

lemma marlin_job:
  fixes c :: "MarlinDriver Server option cli"
  assumes sv: "serves env pieces i cenv" "ops env = marlin_ops clk" and c: "0 \<le> csock (link c)" "peer (link c) = Some s"
    and s: "idle_client i s" "\<not> cancelled (trx_of i s)" "sdriver s = Some d"
    and d: "reachable d" "isConnected d" "int (length g) \<le> MAX_BUFFER_SIZE" "readable g"
    and g: "g \<noteq> []" "NUL \<notin> set g" "\<not> long_line g"
  defines "ls \<equiv> gcode_lines (keepGpxMacroComments (gcodeBuffer d)) g"
  assumes r: "\<forall>l \<in> set ls. readable l"
  obtains s' d' where "act_sendGcode cenv json g c = finish cenv json ''sent gcode and started print''
      (c\<lparr>link := (link c)\<lparr>cerror := None, peer := Some s'\<rparr>\<rparr>)"
    "sdriver s' = Some d'" "length (clients s') = length (clients s)"
    "\<forall>j < length (clients s). j \<noteq> i \<longrightarrow> cancelled (trx_of j s')"
    "reachable d'" "isConnected d'" "mlines d' = ls"
    "dstate d' = (if \<not> isPrinterOnline d then dstate d else if ls = [] then IDLE else PRINTING)"
    "written (serial d') = written (serial d) @ (if isPrinterOnline d then map wire (take 1 ls) else [])"
proof -
  obtain d1 d2 where d2: "AD_appendGCode g (-1) (Some (meta (-1) (-1) None)) (AD_clearGCode d) = Some (GSR_OK, d1)"
    "M_startPrint PRINTING d1 = Some (isPrinterOnline d, d2)" "reachable d2" "isConnected d2" "mlines d2 = ls"
    "dstate d2 = (if \<not> isPrinterOnline d then dstate d else if ls = [] then IDLE else PRINTING)"
    "written (serial d2) = written (serial d) @ (if isPrinterOnline d then map wire (take 1 ls) else [])"
    using clear_append_start [OF d r [unfolded ls_def]] unfolding ls_def by blast
  have "op_append (ops env) g (-1) (Some (meta (-1) (-1) None)) (op_clear (ops env) d) = Some (GSR_OK, d1)"
    "op_start (ops env) d1 = Some (isPrinterOnline d, d2)"
    using d2(1,2) by (simp_all add: sv(2) marlin_ops_def)
  from job_requests [OF sv(1) c s g this, of json] that d2(3-7) show thesis by blast
qed

section \<open>Properties\<close>

text \<open>C2: A print job from the command line to the printer. \<open>act_sendGcode\<close>, with the
  server and an online Marlin driver at the other end of the connection and a text that fits (some line
  of g-code, no line too long for a packet, the whole within the buffer, readable temperatures),
  reports that the print was started, whatever was printed or transferred before; the driver then
  holds exactly the lines of the text and has sent the first of them; the transfers of all other clients are
  cancelled; and once the printer has acknowledged as many lines as there are, with other answers in
  whatever order in between but no request to resend a line, exactly the lines of the text have been sent, once each and in order, and the
  driver is idle.\<close>

theorem print_job:
  fixes c :: "MarlinDriver Server option cli"
  assumes "serves env pieces i cenv" "ops env = marlin_ops clk" "0 \<le> csock (link c)" "peer (link c) = Some s"
    and "idle_client i s" "\<not> cancelled (trx_of i s)" "sdriver s = Some d"
    and "reachable d" "isConnected d" "isPrinterOnline d"
    and "int (length g) \<le> MAX_BUFFER_SIZE" "readable g" "NUL \<notin> set g" "\<not> long_line g"
  defines "ls \<equiv> gcode_lines (keepGpxMacroComments (gcodeBuffer d)) g"
  assumes "ls \<noteq> []" "\<forall>l \<in> set ls. readable l"
    and "\<forall>code \<in> set codes. response_readable code" "R_resend \<notin> set (map classify codes)"
    and "length ls \<le> oks (map classify codes)"
  shows "\<exists>s' d' d''. act_sendGcode cenv json g c =
      Some (0, report json (''sent gcode and started print'' @ [NL]) None
        (close_socket cenv (c\<lparr>link := (link c)\<lparr>cerror := None, peer := Some s'\<rparr>\<rparr>))) \<and>
    sdriver s' = Some d' \<and> mlines d' = ls \<and> dstate d' = PRINTING \<and>
    written (serial d') = written (serial d) @ [wire (hd ls)] \<and>
    (\<forall>j < length (clients s). j \<noteq> i \<longrightarrow> cancelled (trx_of j s')) \<and>
    responses d' codes = Some d'' \<and> written (serial d'') = written (serial d) @ map wire ls \<and>
    mlines d'' = [] \<and> dstate d'' = IDLE"
proof -
  have "g \<noteq> []" using assms(15,16) by auto
  from marlin_job [OF assms(1-9,11,12) this assms(13,14) assms(17) [unfolded ls_def], where json = json]
  obtain s' d' where job: "act_sendGcode cenv json g c = finish cenv json ''sent gcode and started print''
      (c\<lparr>link := (link c)\<lparr>cerror := None, peer := Some s'\<rparr>\<rparr>)"
    "sdriver s' = Some d'" "\<forall>j < length (clients s). j \<noteq> i \<longrightarrow> cancelled (trx_of j s')"
    "reachable d'" "isConnected d'" "mlines d' = ls" 
    and dst: "dstate d' = (if \<not> isPrinterOnline d then dstate d else if ls = [] then IDLE else PRINTING)"
    and wr: "written (serial d') = written (serial d) @ (if isPrinterOnline d then map wire (take 1 ls) else [])"
    unfolding ls_def by metis
  have st: "dstate d' = PRINTING" using dst assms(10,16) by simp
  have w: "written (serial d') = written (serial d) @ [wire (hd ls)]"
    using wr assms(10,16) by (cases ls) simp_all
  from acknowledged_print [OF reachable_inv [OF job(4)] job(5,6) assms(16) st assms(17-20)] obtain d''
    where "responses d' codes = Some d''" "written (serial d'') = written (serial d') @ map wire (tl ls)"
      "mlines d'' = []" "dstate d'' = IDLE" by blast
  with job st w assms(16) show ?thesis
    by (intro exI [of _ s'] exI [of _ d'] exI [of _ d'']) (cases ls; simp add: finish_def)
qed

definition demo_cli :: "MarlinDriver \<Rightarrow> MarlinDriver Server option cli" where
  "demo_cli d = \<lparr>link = demo_comm d, printed = []\<rparr>"

lemma two_lines_facts:
  "int (length two_lines) \<le> MAX_BUFFER_SIZE" "readable two_lines" "two_lines \<noteq> []" "NUL \<notin> set two_lines"
  "\<not> long_line two_lines" "\<forall>l \<in> set (gcode_lines False two_lines). readable l"
proof -
  show "readable two_lines" by (rule readable_plain) (simp_all add: two_lines_def)
  show "\<forall>l \<in> set (gcode_lines False two_lines). readable l" by (simp add: two_lines_lines readable_plain)
qed (auto simp: two_lines_def long_line_def MAX_PACKET_SIZE_def MAX_BUFFER_SIZE_def dest: arg_cong [where f = length])

lemma demo_link:
  "0 \<le> csock (link (demo_cli d))" "peer (link (demo_cli d)) = Some (demo_server d)" "printed (demo_cli d) = []"
  by (simp_all add: demo_cli_def demo_comm_def)

lemma printed_report:
  "printed (report False t None (close_socket env ((demo_cli d)\<lparr>link := m\<rparr>))) = [(Stdout, t)]"
  by (simp add: report_def say_def close_socket_def demo_cli_def)

theorem print_job_witness:
  "\<exists>c' (s' :: MarlinDriver Server) d' d''. act_sendGcode demo_cenv False two_lines (demo_cli idle_driver) = Some (0, c') \<and>
     printed c' = [(Stdout, ''sent gcode and started print'' @ [NL])] \<and>
     sdriver s' = Some d' \<and> written (serial d') = [''G28\<newline>''] \<and>
     responses d' [''ok'', ''echo:busy'', ''ok''] = Some d'' \<and>
     written (serial d'') = [''G28\<newline>'', ''G1 X2\<newline>''] \<and> dstate d'' = IDLE"
proof -
  have cl: "classify ''ok'' = R_ok" "classify ''echo:busy'' = R_none" by code_simp+
  have codes: "\<forall>code \<in> set [''ok'', ''echo:busy'', ''ok'']. response_readable code"
    "R_resend \<notin> set (map classify [''ok'', ''echo:busy'', ''ok''])"
    using cl by (simp_all add: response_readable_def)
  have k: "keepGpxMacroComments (gcodeBuffer idle_driver) = False" by (simp add: idle_facts GCodeBuffer_init_def)
  have w: "wire ''G28'' = ''G28\<newline>''" "wire ''G1 X2'' = ''G1 X2\<newline>''" by code_simp+
  have on: "isPrinterOnline idle_driver" by (simp add: isPrinterOnline_def idle_facts)
  have o: "ops demo_env = marlin_ops (at_second 1)" by (simp add: demo_env_def)
  note print_job [where c = "demo_cli idle_driver" and json = False and g = two_lines and d = idle_driver and
      i = 0 and codes = "[''ok'', ''echo:busy'', ''ok'']", OF demo_facts(3) o demo_link(1,2) demo_facts(4,5,8) idle_reachable idle_facts(3) on
      two_lines_facts(1,2,4,5), unfolded k, OF _ two_lines_facts(6) codes(1,2)]
  then obtain s' d' d'' where j: "act_sendGcode demo_cenv False two_lines (demo_cli idle_driver) =
      Some (0, report False (''sent gcode and started print'' @ [NL]) None (close_socket demo_cenv
        ((demo_cli idle_driver)\<lparr>link := (link (demo_cli idle_driver))\<lparr>cerror := None, peer := Some s'\<rparr>\<rparr>)))"
    "sdriver s' = Some d'" "written (serial d') = [''G28\<newline>'']"
    "responses d' [''ok'', ''echo:busy'', ''ok''] = Some d''"
    "written (serial d'') = [''G28\<newline>'', ''G1 X2\<newline>'']" "dstate d'' = IDLE"
    by (auto simp: two_lines_lines cl oks_def w idle_facts(4) simp del: fold_option.simps)
  show ?thesis by (intro exI conjI, rule j(1), rule printed_report, (rule j(2-))+)
qed

text \<open>C36: The start of a print is reported without looking at the driver's answer. With a driver
  that is not online (it is still waiting for the first temperature), the same job ends with the same
  report and exit code, but the driver has not started to print and nothing has been sent to the printer; the
  lines stay in its buffer.\<close>

theorem print_job_offline:
  fixes c :: "MarlinDriver Server option cli"
  assumes "serves env pieces i cenv" "ops env = marlin_ops clk" "0 \<le> csock (link c)" "peer (link c) = Some s"
    and "idle_client i s" "\<not> cancelled (trx_of i s)" "sdriver s = Some d"
    and "reachable d" "isConnected d" "\<not> isPrinterOnline d"
    and "int (length g) \<le> MAX_BUFFER_SIZE" "readable g" "g \<noteq> []" "NUL \<notin> set g" "\<not> long_line g"
    and "\<forall>l \<in> set (gcode_lines (keepGpxMacroComments (gcodeBuffer d)) g). readable l"
  shows "\<exists>s' d'. act_sendGcode cenv json g c =
      Some (0, report json (''sent gcode and started print'' @ [NL]) None
        (close_socket cenv (c\<lparr>link := (link c)\<lparr>cerror := None, peer := Some s'\<rparr>\<rparr>))) \<and>
    sdriver s' = Some d' \<and> dstate d' = dstate d \<and> written (serial d') = written (serial d) \<and>
    mlines d' = gcode_lines (keepGpxMacroComments (gcodeBuffer d)) g"
proof -
  from marlin_job [OF assms(1-9,11-16), where json = json]
  obtain s' d' where "act_sendGcode cenv json g c = finish cenv json ''sent gcode and started print''
      (c\<lparr>link := (link c)\<lparr>cerror := None, peer := Some s'\<rparr>\<rparr>)" "sdriver s' = Some d'"
    "mlines d' = gcode_lines (keepGpxMacroComments (gcodeBuffer d)) g"
    and "dstate d' = (if \<not> isPrinterOnline d then dstate d
      else if gcode_lines (keepGpxMacroComments (gcodeBuffer d)) g = [] then IDLE else PRINTING)"
    and "written (serial d') = written (serial d) @ (if isPrinterOnline d
      then map wire (take 1 (gcode_lines (keepGpxMacroComments (gcodeBuffer d)) g)) else [])"
    by metis
  with assms(10) show ?thesis by (intro exI [of _ s'] exI [of _ d']) (simp add: finish_def)
qed

theorem print_job_offline_witness:
  "\<exists>c' (s' :: MarlinDriver Server) d'. act_sendGcode demo_cenv False two_lines (demo_cli opened_driver) = Some (0, c') \<and>
     printed c' = [(Stdout, ''sent gcode and started print'' @ [NL])] \<and>
     sdriver s' = Some d' \<and> dstate d' = CONNECTING \<and> written (serial d') = []"
proof -
  have o: "ops demo_env = marlin_ops (at_second 1)" by (simp add: demo_env_def)
  have d: "reachable opened_driver"
    unfolding opened_driver_def by (rule reachable.step [OF reachable.new open_step]) (rule surjective_pairing)
  have f: "isConnected opened_driver" "\<not> isPrinterOnline opened_driver" "dstate opened_driver = CONNECTING"
    "written (serial opened_driver) = []" "keepGpxMacroComments (gcodeBuffer opened_driver) = False"
    by (simp_all add: opened_driver_eq MarlinDriver_init_def AbstractDriver.extend_def AbstractDriver_init_def
        isConnected_def serial_isOpen_def isPrinterOnline_def GCodeBuffer_init_def)
  note job = print_job_offline [where c = "demo_cli opened_driver" and json = False and g = two_lines and
      d = opened_driver and i = 0, OF demo_facts(3) o demo_link(1,2) demo_facts(4,5,8) d f(1,2) two_lines_facts(1-5)]
  from job obtain s' d' where j: "act_sendGcode demo_cenv False two_lines (demo_cli opened_driver) =
      Some (0, report False (''sent gcode and started print'' @ [NL]) None (close_socket demo_cenv
        ((demo_cli opened_driver)\<lparr>link := (link (demo_cli opened_driver))\<lparr>cerror := None, peer := Some s'\<rparr>\<rparr>)))"
    "sdriver s' = Some d'" "dstate d' = CONNECTING" "written (serial d') = []"
    using two_lines_facts(6) f(3-5) by auto
  show ?thesis by (intro exI conjI, rule j(1), rule printed_report, (rule j(2-))+)
qed

lemma read_stdin_subset:
  "\<forall>r \<in> set rs. \<exists>d. r = Inr d \<and> NUL \<notin> set d \<Longrightarrow> NUL \<notin> set acc \<Longrightarrow> \<exists>b. read_stdin cap rs acc = Inr b \<and> NUL \<notin> set b"
  by (induction cap rs acc rule: read_stdin.induct) (auto simp: Let_def dest!: in_set_takeD)

text \<open>Printing what comes from standard input reads past the text: the block it is read into
  gets no terminating NUL, so unless the input happens to hold one, the action, once the g-code is
  cleared, measures the length of the text in bytes that were never written, however long the input is and
  however it arrives.\<close>

theorem stdin_unterminated:
  assumes "comm_clearGCode env (link c) = Some (rv, m)" "0 \<le> rv"
    and "\<forall>r \<in> set input. \<exists>d. r = Inr d \<and> NUL \<notin> set d"
  shows "act_sendGcodeFromStdin env strerr input json c = None"
  using assms read_stdin_subset [OF assms(3), of "[]" 0]
  by (auto simp: act_sendGcodeFromStdin_def try_step_def c_text_def)

theorem stdin_unterminated_witness:
  "act_sendGcodeFromStdin demo_cenv (\<lambda>e. ''error'') [Inr two_lines, Inr []] False (demo_cli idle_driver) = None"
proof -
  obtain m where "comm_clearGCode demo_cenv (link (demo_cli idle_driver)) = Some (0, m)"
    using clearGCode_served [OF demo_facts(3) demo_link(1,2) demo_facts(4,8)] by blast
  from stdin_unterminated [OF this] show ?thesis
    using two_lines_facts(4) by simp
qed

end
