(* ===== verification/Logging.thy ===== *)
theory Logging
  imports IpcText
begin

text \<open>
  The two loggers: \<open>src/src/server/Logger.cpp\<close> of the server and
  \<open>src/src/logger.c\<close> of the front-ends. A stream is named by how it was opened; what is
  written is recorded per stream. The results of \<open>fclose\<close>, \<open>pclose\<close>,
  \<open>fopen\<close> and \<open>popen\<close> and the local time are the environment. The text of a
  message is given formatted. \<open>None\<close> is undefined behaviour or an uncaught exception.
\<close>

section \<open>Levels\<close>

text \<open>Level 0 is the invalid one; the array ends with a null pointer.\<close>

definition LOG_LEVEL_NAMES :: "string list" where
  "LOG_LEVEL_NAMES = [''_invalid_'', ''quiet'', ''error'', ''warning'', ''info'', ''verbose'', ''bulk'']"

abbreviation INVALID :: nat where "INVALID \<equiv> 0"
abbreviation QUIET :: nat where "QUIET \<equiv> 1"
abbreviation ERROR :: nat where "ERROR \<equiv> 2"
abbreviation WARNING :: nat where "WARNING \<equiv> 3"
abbreviation INFO :: nat where "INFO \<equiv> 4"
abbreviation VERBOSE :: nat where "VERBOSE \<equiv> 5"
abbreviation BULK :: nat where "BULK \<equiv> 6"

definition NUM_LOG_LEVELS :: nat where "NUM_LOG_LEVELS = BULK"

fun find_level :: "string \<Rightarrow> nat \<Rightarrow> string list \<Rightarrow> nat" where
  "find_level name i [] = INVALID"
| "find_level name i (n # ns) = (if name = n then i else find_level name (i + 1) ns)"

definition getLevelForName :: "string \<Rightarrow> nat \<Rightarrow> nat" where
  "getLevelForName name defaultLevel =
     (if name = '''' then defaultLevel else find_level name 1 (tl LOG_LEVEL_NAMES))"

definition log_get_level_number :: "string \<Rightarrow> nat" where
  "log_get_level_number name = find_level name 1 (tl LOG_LEVEL_NAMES)"

text \<open>
  The bound divides the number of levels by the size \<open>ptr\<close> of a pointer and subtracts one, in
  a \<open>size_t\<close> of the same size. The result is a pointer, null or to a name; the index behind
  the names gives the null pointer at the end, one behind that leaves the array.
\<close>

definition log_get_level_name :: "nat \<Rightarrow> nat \<Rightarrow> string option option" where
  "log_get_level_name ptr level =
     (if level < 1 \<or> int level \<ge> (int (NUM_LOG_LEVELS div ptr) - 1) mod 2 ^ (8 * ptr) then Some None
      else if level < length LOG_LEVEL_NAMES then Some (Some (LOG_LEVEL_NAMES ! level))
      else if level = length LOG_LEVEL_NAMES then Some None
      else None)"

section \<open>One line of the log\<close>

record local_time =
  tm_mday :: int
  tm_mon :: int
  tm_hour :: int
  tm_min :: int
  tm_sec :: int

text \<open>\<open>%02i\<close>.\<close>

definition two_digits :: "int \<Rightarrow> string" where
  "two_digits n = (if 0 \<le> n \<and> n < 10 then ''0'' @ itoa n else itoa n)"

definition max_name_len :: int where
  "max_name_len = fold (\<lambda>i m. max m (int (length (LOG_LEVEL_NAMES ! i)))) [1..<NUM_LOG_LEVELS] (-1)"

definition getPaddingForLevel :: "nat \<Rightarrow> int" where
  "getPaddingForLevel level = max_name_len - int (length (LOG_LEVEL_NAMES ! level))"

text \<open>A negative width pads on the other side, which is the same for an empty text.\<close>

definition log_line :: "local_time \<Rightarrow> string \<Rightarrow> nat \<Rightarrow> string \<Rightarrow> string" where
  "log_line now mdl level buf =
     two_digits (tm_mday now) @ ''-'' @ two_digits (tm_mon now + 1) @ '' '' @ two_digits (tm_hour now) @ '':'' @
     two_digits (tm_min now) @ '':'' @ two_digits (tm_sec now) @ '' ['' @ mdl @ ''] ('' @ LOG_LEVEL_NAMES ! level @
     '')'' @ replicate (nat \<bar>getPaddingForLevel level\<bar>) (CHR '' '') @ '': '' @ buf @ [NL]"

datatype log_stream = Std_out | Std_err | Log_file string | Log_pipe string

record log_os =
  os_fclose :: "log_stream \<Rightarrow> int"
  os_pclose :: "log_stream \<Rightarrow> int"
  os_fopen :: "string \<Rightarrow> bool"
  os_popen :: "string \<Rightarrow> bool"

section \<open>The logger of the server\<close>

record Logger =
  lg_level :: nat
  lg_stream :: "log_stream option"
  lg_pipe :: bool
  lg_out :: "(log_stream \<times> string) list"

definition Logger_init :: Logger where
  "Logger_init = \<lparr>lg_level = BULK, lg_stream = None, lg_pipe = False, lg_out = []\<rparr>"

definition Logger_close :: "log_os \<Rightarrow> Logger \<Rightarrow> int \<times> Logger" where
  "Logger_close os l =
     (case lg_stream l of
        None \<Rightarrow> (0, l)
      | Some st \<Rightarrow> (if lg_pipe l then os_pclose os st else os_fclose os st, l\<lparr>lg_stream := None, lg_pipe := False\<rparr>))"

definition Logger_open :: "log_os \<Rightarrow> log_stream option \<Rightarrow> nat \<Rightarrow> Logger \<Rightarrow> int \<times> Logger" where
  "Logger_open os stream level l =
     (case stream of
        None \<Rightarrow> (-2, l)
      | Some st \<Rightarrow> let (rv, l1) = Logger_close os l
                   in if rv \<ge> 0 then (rv, l1\<lparr>lg_stream := Some st, lg_level := level\<rparr>) else (rv, l1))"

definition Logger_open_file :: "log_os \<Rightarrow> string \<Rightarrow> nat \<Rightarrow> Logger \<Rightarrow> int \<times> Logger" where
  "Logger_open_file os file level l =
     (let (rv, l1) = Logger_close os l
      in if rv \<ge> 0 then
           if os_fopen os (cstr file) then (rv, l1\<lparr>lg_stream := Some (Log_file (cstr file)), lg_level := level\<rparr>)
           else (-1, l1)
         else (rv, l1))"

definition lower :: "char \<Rightarrow> char" where
  "lower c = (if 65 \<le> (of_char c :: nat) \<and> (of_char c :: nat) \<le> 90 then char_of ((of_char c :: nat) + 32) else c)"

text \<open>An empty path that is not a null pointer has no first character: \<open>at\<close> throws.\<close>

definition openParameterized ::
  "log_os \<Rightarrow> string option \<Rightarrow> string option \<Rightarrow> string option \<Rightarrow> nat \<Rightarrow> Logger \<Rightarrow> (int \<times> Logger) option" where
  "openParameterized os path basename logId level l =
     (case basename of
        None \<Rightarrow> Some (-2, l)
      | Some [] \<Rightarrow> Some (-2, l)
      | Some b \<Rightarrow>
          let spec = take (length b - 2) (drop 1 b)
          in if hd b = CHR ''<'' \<and> last b = CHR ''>'' then
               let s = map lower spec
               in Some (Logger_open os (if s = ''stdout'' then Some Std_out else if s = ''stderr'' then Some Std_err
                    else None) level l)
             else if hd b = CHR 0x60 \<and> last b = CHR 0x60 then
               let l1 = snd (Logger_close os l)
               in Some (if os_popen os (cstr spec)
                    then (0, l1\<lparr>lg_stream := Some (Log_pipe (cstr spec)), lg_level := level, lg_pipe := True\<rparr>)
                    else (-1, l1))
             else case path of
               None \<Rightarrow> Some (-2, l)
             | Some [] \<Rightarrow> None
             | Some (c # p) \<Rightarrow>
                 if c = CHR ''/'' then
                   Some (Logger_open_file os (c # p @ ''/'' @ b @ (case logId of None \<Rightarrow> [] | Some i \<Rightarrow> ''-'' @ i) @ ''.log'') level l)
                 else Some (-2, l))"

definition vaLog :: "local_time \<Rightarrow> nat \<Rightarrow> string \<Rightarrow> string \<Rightarrow> Logger \<Rightarrow> Logger option" where
  "vaLog now level mdl buf l =
     (case lg_stream l of
        None \<Rightarrow> Some l
      | Some st \<Rightarrow>
          if level > lg_level l then Some l
          else if level < length LOG_LEVEL_NAMES then Some (l\<lparr>lg_out := lg_out l @ [(st, log_line now mdl level buf)]\<rparr>)
          else None)"

text \<open>Only -1 is an error; its text is the one of \<open>errno\<close>.\<close>

definition vaCheckError :: "local_time \<Rightarrow> string \<Rightarrow> int \<Rightarrow> string \<Rightarrow> string \<Rightarrow> Logger \<Rightarrow> (bool \<times> Logger) option" where
  "vaCheckError now errno_text rv mdl buf l =
     (if rv \<noteq> -1 then Some (False, l)
      else map_option (Pair True) (vaLog now ERROR mdl (buf @ '' ('' @ errno_text @ '')'') l))"

section \<open>The logger of the front-ends\<close>

text \<open>
  After \<open>log_close\<close> the pointer to the stream stays: \<open>cl_closed\<close> says that it points
  to a closed one.
\<close>

record clogger =
  cl_level :: nat
  cl_stream :: "log_stream option"
  cl_closed :: bool
  cl_out :: "(log_stream \<times> string) list"

definition clogger_init :: clogger where
  "clogger_init = \<lparr>cl_level = BULK, cl_stream = None, cl_closed = False, cl_out = []\<rparr>"

definition log_close :: "log_os \<Rightarrow> clogger \<Rightarrow> (int \<times> clogger) option" where
  "log_close os l =
     (case cl_stream l of
        None \<Rightarrow> Some (0, l)
      | Some st \<Rightarrow> if cl_closed l then None else Some (os_fclose os st, l\<lparr>cl_closed := True\<rparr>))"

definition log_open_stream :: "log_os \<Rightarrow> log_stream option \<Rightarrow> nat \<Rightarrow> clogger \<Rightarrow> (int \<times> clogger) option" where
  "log_open_stream os stream level l =
     (if cl_stream l = stream then Some (0, l)
      else do {
        (rv, l1) \<leftarrow> log_close os l;
        Some (rv, if rv \<ge> 0 then l1\<lparr>cl_stream := stream, cl_closed := False, cl_level := level\<rparr> else l1)
      })"

definition log_open_file :: "log_os \<Rightarrow> string \<Rightarrow> nat \<Rightarrow> clogger \<Rightarrow> (int \<times> clogger) option" where
  "log_open_file os file level l = do {
     (rv, l1) \<leftarrow> log_close os l;
     Some (if rv \<ge> 0 then
             if os_fopen os file then (rv, l1\<lparr>cl_stream := Some (Log_file file), cl_closed := False, cl_level := level\<rparr>)
             else (-1, l1\<lparr>cl_stream := None, cl_closed := False\<rparr>)
           else (rv, l1))
   }"

definition log_is_open :: "clogger \<Rightarrow> bool" where
  "log_is_open l \<longleftrightarrow> cl_stream l \<noteq> None"

definition log_va_message :: "local_time \<Rightarrow> nat \<Rightarrow> string \<Rightarrow> string \<Rightarrow> clogger \<Rightarrow> clogger option" where
  "log_va_message now level mdl buf l =
     (case cl_stream l of
        None \<Rightarrow> Some l
      | Some st \<Rightarrow>
          if level > cl_level l then Some l
          else if level < length LOG_LEVEL_NAMES \<and> \<not> cl_closed l
          then Some (l\<lparr>cl_out := cl_out l @ [(st, log_line now mdl level buf)]\<rparr>)
          else None)"

definition log_va_check_error ::
  "local_time \<Rightarrow> string \<Rightarrow> int \<Rightarrow> string \<Rightarrow> string \<Rightarrow> clogger \<Rightarrow> (int \<times> clogger) option" where
  "log_va_check_error now errno_text rv mdl buf l =
     (if rv \<ge> 0 then Some (0, l)
      else map_option (Pair 1) (log_va_message now ERROR mdl (buf @ '' ('' @ errno_text @ '')'') l))"

text \<open>A command at a level; without memory its text is a null pointer, printed as such.\<close>

definition cmd_text :: "allocator \<Rightarrow> bytes \<Rightarrow> bool \<Rightarrow> string option" where
  "cmd_text al buf is_reply = map_option (\<lambda>r. case r of Inl e \<Rightarrow> ''(null)'' | Inr (n, t) \<Rightarrow> t) (ipc_stringify_cmd al buf is_reply)"

definition log_ipc_cmd_c :: "local_time \<Rightarrow> allocator \<Rightarrow> nat \<Rightarrow> bytes \<Rightarrow> bool \<Rightarrow> clogger \<Rightarrow> clogger option" where
  "log_ipc_cmd_c now al level buf is_reply l =
     (if cl_stream l = None \<or> level > cl_level l then Some l
      else Option.bind (cmd_text al buf is_reply) (\<lambda>t. log_va_message now level ''IPC '' (''command: '' @ t) l))"

definition Logger_logIpcCmd :: "local_time \<Rightarrow> allocator \<Rightarrow> nat \<Rightarrow> bytes \<Rightarrow> bool \<Rightarrow> Logger \<Rightarrow> Logger option" where
  "Logger_logIpcCmd now al level buf is_reply l =
     (if lg_stream l = None \<or> level > lg_level l then Some l
      else Option.bind (cmd_text al buf is_reply) (\<lambda>t. vaLog now level ''IPC '' (''command: '' @ t) l))"

section \<open>Properties\<close>

lemma find_level_nth:
  "distinct ns \<Longrightarrow> k < length ns \<Longrightarrow> find_level (ns ! k) i ns = i + k"
proof (induction ns arbitrary: i k)
  case (Cons n ns)
  then show ?case by (cases k) (auto simp: nth_mem)
qed simp

lemma find_level_unknown: "name \<notin> set ns \<Longrightarrow> find_level name i ns = INVALID"
  by (induction ns arbitrary: i) auto

lemma level_number:
  "1 \<le> l \<Longrightarrow> l \<le> BULK \<Longrightarrow> log_get_level_number (LOG_LEVEL_NAMES ! l) = l"
  using find_level_nth [of "tl LOG_LEVEL_NAMES" "l - 1" 1]
  by (simp add: log_get_level_number_def LOG_LEVEL_NAMES_def nth_Cons' numeral_eq_Suc)

text \<open>Of a sequence of messages exactly those within the level are written, in order.\<close>

lemma messages_gated:
  assumes "lg_stream l = Some st" "\<forall>(level, mdl, buf) \<in> set ms. level < length LOG_LEVEL_NAMES"
  shows "fold_option (\<lambda>l (level, mdl, buf). vaLog now level mdl buf l) l ms =
    Some (l\<lparr>lg_out := lg_out l @ map (\<lambda>(level, mdl, buf). (st, log_line now mdl level buf))
      (filter (\<lambda>(level, mdl, buf). level \<le> lg_level l) ms)\<rparr>)"
  using assms
proof (induction ms arbitrary: l)
  case (Cons m ms)
  obtain level mdl buf where m: "m = (level, mdl, buf)" by (cases m)
  show ?case
  proof (cases "level \<le> lg_level l")
    case True
    then show ?thesis
      using Cons.prems Cons.IH [of "l\<lparr>lg_out := lg_out l @ [(st, log_line now mdl level buf)]\<rparr>"] m
      by (simp add: vaLog_def)
  qed (use Cons m in \<open>simp add: vaLog_def\<close>)
qed simp

text \<open>Level names and numbers. The number found for the name of a level is that level, in both
  loggers, and any other name gives the invalid level (in the server's logger the empty name the default). The
  way back fails: with pointers of four bytes \<open>log_get_level_name\<close> refuses every level, with
  pointers of eight bytes it refuses no level but the invalid one and reads behind the array of names from
  8 on.\<close>

theorem level_names:
  assumes "1 \<le> l" "l < length LOG_LEVEL_NAMES"
  shows "getLevelForName (LOG_LEVEL_NAMES ! l) d = l \<and> log_get_level_number (LOG_LEVEL_NAMES ! l) = l \<and>
    (\<forall>name. name \<notin> set (tl LOG_LEVEL_NAMES) \<longrightarrow> log_get_level_number name = INVALID \<and>
       getLevelForName name d = (if name = [] then d else INVALID)) \<and>
    log_get_level_name 4 l = Some None \<and> log_get_level_name 8 l = Some (Some (LOG_LEVEL_NAMES ! l)) \<and>
    (\<forall>k. 8 \<le> k \<and> k < 2 ^ 32 \<longrightarrow> log_get_level_name 8 k = None)"
proof -
  have l: "l \<le> BULK" using assms(2) by (simp add: LOG_LEVEL_NAMES_def)
  have n: "log_get_level_number (LOG_LEVEL_NAMES ! l) = l" by (rule level_number [OF assms(1) l])
  have "LOG_LEVEL_NAMES ! l \<noteq> []"
    using assms by (auto simp: LOG_LEVEL_NAMES_def nth_Cons' split: if_splits)
  with n have "getLevelForName (LOG_LEVEL_NAMES ! l) d = l"
    by (simp add: getLevelForName_def log_get_level_number_def)
  moreover have "log_get_level_name 4 l = Some None \<and> log_get_level_name 8 l = Some (Some (LOG_LEVEL_NAMES ! l)) \<and>
      (\<forall>k. 8 \<le> k \<and> k < 2 ^ 32 \<longrightarrow> log_get_level_name 8 k = None)"
    using assms l by (auto simp: log_get_level_name_def NUM_LOG_LEVELS_def LOG_LEVEL_NAMES_def)
  ultimately show ?thesis
    using n by (simp add: log_get_level_number_def getLevelForName_def find_level_unknown)
qed

theorem level_names_witness:
  "getLevelForName ''warning'' VERBOSE = WARNING \<and> log_get_level_name 4 WARNING = Some None"
  using level_names [of WARNING VERBOSE] by (simp add: LOG_LEVEL_NAMES_def)

text \<open>
  The logger of the front-ends after it has been closed: a message within the level uses the closed
  stream, and opening the same stream again is reported as done without doing it.
\<close>

lemma closed_stream_used:
  assumes "log_close os l = Some (rv, l')" "cl_stream l = Some st" "level \<le> cl_level l"
  shows "log_va_message now level mdl buf l' = None" "log_open_stream os (Some st) level' l' = Some (0, l')"
  using assms by (auto simp: log_close_def log_va_message_def log_open_stream_def split: if_splits)

end
