(* ===== verification/Startup.thy ===== *)
theory Startup
  imports EndToEnd Factory Logging
begin

text \<open>
  How the server process starts: the settings (\<open>src/src/settings.c\<close>), the
  constructor of \<open>Server\<close>, its socket, the fork and the way into the main loop
  (\<open>src/src/server/Server.cpp\<close>), and \<open>main\<close>
  (\<open>src/src/server/main.cpp\<close>). The operating system, the settings library, the
  constructors of the drivers and what \<open>getopt_long\<close> delivers are arguments; what is printed
  outside the log is not modelled. \<open>None\<close> is undefined behaviour or an uncaught exception.
\<close>

section \<open>Settings\<close>

text \<open>
  What the settings library gives for a name (a text option, or a failed look-up), if the program is
  built with the library.
\<close>

type_synonym uci = "(string \<Rightarrow> string option) option"

definition settings_get :: "uci \<Rightarrow> string \<Rightarrow> string option" where
  "settings_get u spec = (case u of Some get \<Rightarrow> get spec | None \<Rightarrow> None)"

definition settings_available :: "uci \<Rightarrow> bool" where
  "settings_available u \<longleftrightarrow> u \<noteq> None"

section \<open>The server object\<close>

record 'd server_obj =
  socketPath :: string
  listenFd :: int
  printerDriver :: "'d option"

text \<open>\<open>os_unlink\<close> is 0 or the error.\<close>

record os_env =
  os_socket :: int
  os_unlink :: int
  os_bind :: int
  os_listen :: int
  os_close_socket :: int
  os_fork :: int
  os_setsid :: int
  os_open_port :: "string \<Rightarrow> int"
  os_makeraw :: "termios2 \<Rightarrow> termios2"
  os_ioctls :: ioctls

definition Server_new ::
  "(driver_class \<Rightarrow> string \<Rightarrow> 32 word \<Rightarrow> 'd) \<Rightarrow> uci \<Rightarrow> string \<Rightarrow> string \<Rightarrow> string \<Rightarrow> 'd server_obj" where
  "Server_new create u portPath path name =
     (let printerType = (if name = [] then settings_get u ''wifibox.general.printer_type'' else Some (cstr name))
      in \<lparr>socketPath = path, listenFd = -1,
          printerDriver = (case printerType of
             None \<Rightarrow> None
           | Some t \<Rightarrow> map_option (\<lambda>cls. create cls portPath 250000) (createDriver t))\<rparr>)"

definition ENOENT :: int where "ENOENT = 2"
definition ENOTDIR :: int where "ENOTDIR = 20"

text \<open>
  The path is copied into an array of 108 bytes without a terminator when it fills it; \<open>unlink\<close>
  then reads on behind it.
\<close>

definition openSocket :: "os_env \<Rightarrow> 'd server_obj \<Rightarrow> (bool \<times> 'd server_obj) option" where
  "openSocket os s =
     (let s1 = s\<lparr>listenFd := os_socket os\<rparr>
      in if os_socket os = -1 then Some (False, s1)
         else if 108 \<le> length (cstr (socketPath s)) then None
         else if os_unlink os \<notin> {0, ENOENT, ENOTDIR} then Some (False, s1)
         else if os_bind os = -1 then Some (False, s1)
         else if os_listen os = -1 then Some (False, s1)
         else Some (True, s1))"

text \<open>The result is \<open>true\<close> in both cases: -1 is converted to it.\<close>

definition closeSocket :: "os_env \<Rightarrow> 'd server_obj \<Rightarrow> bool \<times> 'd server_obj" where
  "closeSocket os s = (if os_close_socket os = -1 then (True, s) else (True, s\<lparr>listenFd := -1\<rparr>))"

definition requestExit :: "os_env \<Rightarrow> int \<Rightarrow> 'd server_obj \<Rightarrow> 'd server_obj outcome" where
  "requestExit os rv s = (let s1 = snd (closeSocket os s) in Exit rv)"

definition forkProcess :: "os_env \<Rightarrow> int" where
  "forkProcess os =
     (if os_fork os = -1 then -1
      else if os_fork os = 0 then (if os_setsid os = -1 then -1 else 0)
      else os_fork os)"

text \<open>
  \<open>start\<close> either returns or goes into the loop, with the state of \<open>PrintServer\<close>
  and the timeout of the first \<open>select\<close>.
\<close>

datatype 'd start_result = Returned int | Serving timeval "'d Server"

definition enter_loop :: "os_env \<Rightarrow> 'a AbstractDriver_scheme server_obj \<Rightarrow> 'a AbstractDriver_scheme start_result option" where
  "enter_loop os s =
     (let d = map_option (\<lambda>d. snd (openConnection (os_open_port os) (os_makeraw os) (os_ioctls os) d)) (printerDriver s)
      in if FD_SETSIZE \<le> listenFd s then None
         else Some (Serving \<lparr>tv_sec = 0, tv_usec = 0\<rparr> (server_start (listenFd s) d)))"

definition start ::
  "os_env \<Rightarrow> bool \<Rightarrow> 'a AbstractDriver_scheme server_obj \<Rightarrow> 'a AbstractDriver_scheme start_result option" where
  "start os fork s =
     (if listenFd s \<ge> 0 then Some (Returned 0)
      else do {
        (ok, s1) \<leftarrow> openSocket os s;
        if \<not> ok then Some (Returned 0)
        else if fork then
          let rv = forkProcess os; s2 = (if rv < 0 then snd (closeSocket os s1) else s1)
          in if rv \<noteq> 0 then Some (Returned rv) else enter_loop os s2
        else enter_loop os s1
      })"

section \<open>The main function\<close>

record main_options =
  serialDevice :: string
  printerName :: string
  doFork :: int
  showHelp :: bool
  force :: bool
  logLevel :: nat
  logLevelFromCmdLine :: bool
  useUci :: bool

definition main_options_init :: main_options where
  "main_options_init = \<lparr>serialDevice = [], printerName = [], doFork = 0, showHelp = False, force = False,
     logLevel = WARNING, logLevelFromCmdLine = False, useUci = False\<rparr>"

text \<open>\<open>None\<close> is the exit with code 1 for an option that is not known or lacks its argument.\<close>

definition main_option :: "main_options \<Rightarrow> char \<times> string \<Rightarrow> main_options option" where
  "main_option m ev =
     (let (ch, optarg) = ev
      in if ch = CHR ''h'' then Some (m\<lparr>showHelp := True\<rparr>)
         else if ch = CHR ''q'' then
           Some (m\<lparr>logLevel := (if logLevel m > ERROR then ERROR else if logLevel m > QUIET then QUIET else logLevel m),
                   logLevelFromCmdLine := True\<rparr>)
         else if ch = CHR ''v'' then
           Some (m\<lparr>logLevel := (if logLevel m < VERBOSE then VERBOSE else if logLevel m < BULK then BULK else logLevel m),
                   logLevelFromCmdLine := True\<rparr>)
         else if ch = CHR ''f'' then Some (m\<lparr>doFork := 1\<rparr>)
         else if ch = CHR ''F'' then Some (m\<lparr>doFork := -1\<rparr>)
         else if ch = CHR ''S'' then Some (m\<lparr>force := True\<rparr>)
         else if ch = CHR ''d'' then Some (m\<lparr>serialDevice := optarg\<rparr>)
         else if ch = CHR ''p'' then Some (m\<lparr>printerName := optarg\<rparr>)
         else if ch = CHR ''u'' then Some (m\<lparr>useUci := True\<rparr>)
         else if ch = CHR '':'' \<or> ch = CHR ''?'' then None
         else Some m)"

text \<open>
  Opening the log: the level of the options counts more than the one of the settings. A missing level
  name is a null pointer that is made a \<open>std::string\<close>. The result is the exit code or the level
  with the open log.
\<close>

definition open_log :: "log_os \<Rightarrow> uci \<Rightarrow> main_options \<Rightarrow> Logger \<Rightarrow> (int + nat \<times> Logger) option" where
  "open_log los u m lg =
     (if useUci m \<and> settings_available u then do {
        lvlName \<leftarrow> settings_get u ''wifibox.general.system_log_level'';
        let level = (if logLevelFromCmdLine m then logLevel m else getLevelForName lvlName VERBOSE);
        (rv, lg1) \<leftarrow> openParameterized los (settings_get u ''wifibox.system.log_path'')
          (settings_get u ''wifibox.system.p3d_log_basename'') (Some (serialDevice m)) level lg;
        Some (Inr (level, lg1))
      }
      else if useUci m then Some (Inl 1)
      else Some (Inr (logLevel m, snd (Logger_open los (Some Std_err) (logLevel m) lg))))"

definition MAIN_LOG :: "local_time \<Rightarrow> nat \<Rightarrow> string \<Rightarrow> Logger \<Rightarrow> Logger option" where
  "MAIN_LOG now level buf lg = vaLog now level ''MAIN'' buf lg"

definition quoted :: "string \<Rightarrow> string" where
  "quoted t = [CHR 0x27] @ t @ [CHR 0x27]"

text \<open>The serial device: the name given without its directories, or the only one there is.\<close>

definition server_device ::
  "local_time \<Rightarrow> (int \<Rightarrow> string) \<Rightarrow> int \<Rightarrow> dirent list option \<Rightarrow> main_options \<Rightarrow> Logger \<Rightarrow>
     ((int + string) \<times> Logger) option" where
  "server_device now strerr errno dir m lg =
     (if serialDevice m \<noteq> [] then
        Some (Inr (case rfind_prefix ''/'' (serialDevice m) of
                     None \<Rightarrow> serialDevice m | Some p \<Rightarrow> drop (p + 1) (serialDevice m)), lg)
      else let fail = (\<lambda>t. map_option (Pair (Inl 1)) (MAIN_LOG now ERROR t lg))
           in case ipc_find_devices dir of
                None \<Rightarrow> fail (''could not retrieve device list ('' @ strerr errno @ '')'')
              | Some devs \<Rightarrow>
                  (case devs ! 0 of
                     Uninit \<Rightarrow> None
                   | Null \<Rightarrow>
                       if \<not> force m then fail (''no devices found, please connect a printer or re-run with '' @ quoted ''-S'')
                       else map_option (\<lambda>_. (Inr IPC_DEFAULT_DEVICE_ID, lg)) (ipc_free_device_list (Some devs))
                   | Ptr d \<Rightarrow>
                       (case devs ! 1 of
                          Uninit \<Rightarrow> None
                        | Null \<Rightarrow> map_option (\<lambda>_. (Inr d, lg)) (ipc_free_device_list (Some devs))
                        | Ptr d2 \<Rightarrow> do {
                            lg1 \<leftarrow> MAIN_LOG now ERROR ''more than one device found (listed below), please specify one of the following:'' lg;
                            names \<leftarrow> visit_devices devs;
                            lg2 \<leftarrow> fold_option (\<lambda>lg n. MAIN_LOG now ERROR (''  '' @ quoted n) lg) lg1 names;
                            Some (Inl 1, lg2)
                          })))"

datatype 'd main_result = MExit int | MServe timeval "'d Server"

definition run_server ::
  "(driver_class \<Rightarrow> string \<Rightarrow> 32 word \<Rightarrow> 'a AbstractDriver_scheme) \<Rightarrow> os_env \<Rightarrow> uci \<Rightarrow> local_time \<Rightarrow>
     main_options \<Rightarrow> string \<Rightarrow> Logger \<Rightarrow> ('a AbstractDriver_scheme main_result \<times> Logger) option" where
  "run_server create os u now m dev lg =
     (let s = Server_new create u (''/dev/'' @ dev) (ipc_construct_socket_path (cstr dev)) (printerName m)
      in if printerDriver s = None then
           map_option (Pair (MExit 1)) (MAIN_LOG now ERROR ''could not create printer driver'' lg)
         else case start os (doFork m = 1) s of
           None \<Rightarrow> None
         | Some (Returned rv) \<Rightarrow> Some (MExit (if rv \<ge> 0 then 0 else 1), lg)
         | Some (Serving t srv) \<Rightarrow> Some (MServe t srv, lg))"

definition server_main ::
  "(driver_class \<Rightarrow> string \<Rightarrow> 32 word \<Rightarrow> 'a AbstractDriver_scheme) \<Rightarrow> os_env \<Rightarrow> log_os \<Rightarrow> uci \<Rightarrow> local_time \<Rightarrow>
     (int \<Rightarrow> string) \<Rightarrow> int \<Rightarrow> dirent list option \<Rightarrow> (char \<times> string) list \<Rightarrow>
     ('a AbstractDriver_scheme main_result \<times> Logger) option" where
  "server_main create os los u now strerr errno dir evs =
     (case fold_option main_option main_options_init evs of
        None \<Rightarrow> Some (MExit 1, Logger_init)
      | Some m \<Rightarrow>
          if showHelp m \<or> printerName m = ''help'' then Some (MExit 0, Logger_init)
          else case open_log los u m Logger_init of
            None \<Rightarrow> None
          | Some (Inl e) \<Rightarrow> Some (MExit e, Logger_init)
          | Some (Inr (level, lg)) \<Rightarrow> do {
              (r, lg1) \<leftarrow> server_device now strerr errno dir m lg;
              case r of
                Inl e \<Rightarrow> Some (MExit e, lg1)
              | Inr dev \<Rightarrow> do {
                  lg2 \<leftarrow> MAIN_LOG now INFO ''starting Print3D server'' lg1;
                  lg3 \<leftarrow> MAIN_LOG now INFO (''using printer device: '' @ quoted dev) lg2;
                  lg4 \<leftarrow> MAIN_LOG now INFO (if printerName m \<noteq> [] then ''using printer type: '' @ quoted (printerName m)
                           else ''using printer type from UCI configuration'') lg3;
                  lg5 \<leftarrow> MAIN_LOG now INFO (''using log level: '' @ LOG_LEVEL_NAMES ! level) lg4;
                  run_server create os u now m dev lg5
                }
            })"

section \<open>Starting\<close>

lemma enter_loop_Some:
  "enter_loop os s = Some r \<Longrightarrow> listenFd s < FD_SETSIZE \<and> r = Serving \<lparr>tv_sec = 0, tv_usec = 0\<rparr> (server_start (listenFd s)
     (map_option (\<lambda>d. snd (openConnection (os_open_port os) (os_makeraw os) (os_ioctls os) d)) (printerDriver s)))"
  by (auto simp: enter_loop_def Let_def split: if_splits)

lemma openSocket_True:
  "openSocket os s = Some (True, s1) \<Longrightarrow> s1 = s\<lparr>listenFd := os_socket os\<rparr> \<and> os_socket os \<noteq> -1 \<and>
     length (cstr (socketPath s)) < 108 \<and> os_bind os \<noteq> -1 \<and> os_listen os \<noteq> -1"
  by (auto simp: openSocket_def Let_def split: if_splits)

text \<open>A server that comes to its loop has bound and opened its socket, and opened the driver's port.\<close>

lemma start_Serving:
  assumes "start os fork s = Some (Serving t srv)"
  shows "srv = server_start (os_socket os)
      (map_option (\<lambda>d. snd (openConnection (os_open_port os) (os_makeraw os) (os_ioctls os) d)) (printerDriver s)) \<and>
    t = \<lparr>tv_sec = 0, tv_usec = 0\<rparr> \<and> os_socket os \<noteq> -1 \<and> os_bind os \<noteq> -1 \<and> os_listen os \<noteq> -1 \<and>
    length (cstr (socketPath s)) < 108"
proof -
  obtain s1 where o: "openSocket os s = Some (True, s1)" and l: "enter_loop os s1 = Some (Serving t srv)"
    using assms by (auto simp: start_def Let_def bind_eq_Some_conv split: if_splits)
  from openSocket_True [OF o] enter_loop_Some [OF l] show ?thesis by auto
qed

lemma run_server_MServe:
  assumes "run_server create os u now m dev lg = Some (MServe t srv, lg')"
  defines "s \<equiv> Server_new create u (''/dev/'' @ dev) (ipc_construct_socket_path (cstr dev)) (printerName m)"
  shows "printerDriver s \<noteq> None \<and> start os (doFork m = 1) s = Some (Serving t srv)"
  using assms by (auto simp: run_server_def Let_def split: if_splits option.splits start_result.splits)

lemma server_main_MServe:
  assumes r: "server_main create os los u now strerr errno dir evs = Some (MServe t srv, lg)"
    and m: "fold_option main_option main_options_init evs = Some m"
  obtains dev lg1 lg2 lg5 where "server_device now strerr errno dir m lg1 = Some (Inr dev, lg2)"
    "run_server create os u now m dev lg5 = Some (MServe t srv, lg)"
proof -
  obtain level lg1 where 1: "open_log los u m Logger_init = Some (Inr (level, lg1))"
    using r m by (auto simp: server_main_def split: if_splits option.splits sum.splits)
  then obtain v lg2 where 2: "server_device now strerr errno dir m lg1 = Some (v, lg2)"
    using r m by (auto simp: server_main_def bind_eq_Some_conv split: if_splits)
  show thesis
  proof (cases v)
    case (Inr dev)
    with r m 1 2 obtain lg5 where "run_server create os u now m dev lg5 = Some (MServe t srv, lg)"
      by (auto simp: server_main_def bind_eq_Some_conv split: if_splits)
    with that 2 Inr show thesis by blast
  qed (use r m 1 2 in \<open>auto simp: server_main_def split: if_splits\<close>)
qed

section \<open>Properties\<close>

lemma rfind_prefix_char:
  "rfind_prefix [c] s = None \<Longrightarrow> c \<notin> set s"
  "rfind_prefix [c] s = Some p \<Longrightarrow> c \<notin> set (drop (p + 1) s)"
  by (induction s arbitrary: p) (auto split: option.splits if_splits)

lemma server_device_name:
  assumes "server_device now strerr errno dir m lg = Some (Inr dev, lg')" "serialDevice m \<noteq> []"
  shows "CHR ''/'' \<notin> set dev \<and> (\<exists>pre. serialDevice m = pre @ dev)"
proof (cases "rfind_prefix ''/'' (serialDevice m)")
  case None
  with assms rfind_prefix_char(1) [OF None] show ?thesis by (auto simp: server_device_def)
next
  case (Some p)
  with assms have "dev = drop (p + 1) (serialDevice m)" by (auto simp: server_device_def)
  with rfind_prefix_char(2) [OF Some] show ?thesis by (metis append_take_drop_id)
qed

lemma marlin_name_cstr: "name \<in> set marlin_firmware \<Longrightarrow> name \<noteq> [] \<and> cstr name = name"
proof -
  have "\<forall>n \<in> set marlin_firmware. n \<noteq> [] \<and> cstr n = n" by code_simp
  then show "name \<in> set marlin_firmware \<Longrightarrow> name \<noteq> [] \<and> cstr name = name" by blast
qed

lemma createDriver_marlin: "name \<in> set marlin_firmware \<Longrightarrow> createDriver name = Some MarlinClass"
  by (simp add: createDriver_def getDriverInfo_def marlin_info_def find_firmware_iff)

text \<open>
  What \<open>main\<close> hands to the loop when a Marlin printer was asked for.
\<close>

lemma main_marlin:
  fixes create :: "driver_class \<Rightarrow> string \<Rightarrow> 32 word \<Rightarrow> MarlinDriver"
  assumes r: "server_main create os los u now strerr errno dir evs = Some (MServe t srv, lg)"
    and m: "fold_option main_option main_options_init evs = Some m"
    and c: "create MarlinClass = MarlinDriver_init" "printerName m \<in> set marlin_firmware"
  obtains dev d where "d = snd (openConnection (os_open_port os) (os_makeraw os) (os_ioctls os) (MarlinDriver_init (''/dev/'' @ dev) 250000))"
    "srv = server_start (os_socket os) (Some d)" "os_socket os \<noteq> -1" "os_bind os \<noteq> -1" "os_listen os \<noteq> -1"
    "length (cstr (''/tmp/print3d-'' @ cstr dev)) < 108"
    "serialDevice m \<noteq> [] \<longrightarrow> CHR ''/'' \<notin> set dev \<and> (\<exists>pre. serialDevice m = pre @ dev)"
proof -
  obtain dev lg1 lg2 lg5 where d: "server_device now strerr errno dir m lg1 = Some (Inr dev, lg2)"
    and s: "run_server create os u now m dev lg5 = Some (MServe t srv, lg)"
    by (rule server_main_MServe [OF r m])
  let ?s = "Server_new create u (''/dev/'' @ dev) (ipc_construct_socket_path (cstr dev)) (printerName m)"
  have drv: "printerDriver ?s = Some (MarlinDriver_init (''/dev/'' @ dev) 250000)"
    using marlin_name_cstr [OF c(2)] createDriver_marlin [OF c(2)] c(1) by (simp add: Server_new_def)
  have path: "socketPath ?s = ''/tmp/print3d-'' @ cstr dev"
    by (simp add: Server_new_def Let_def ipc_construct_socket_path_def)
  from start_Serving run_server_MServe [OF s] have "srv = server_start (os_socket os)
      (Some (snd (openConnection (os_open_port os) (os_makeraw os) (os_ioctls os) (MarlinDriver_init (''/dev/'' @ dev) 250000))))"
    "os_socket os \<noteq> -1" "os_bind os \<noteq> -1" "os_listen os \<noteq> -1" "length (cstr (''/tmp/print3d-'' @ cstr dev)) < 108"
    using drv path by fastforce+
  with that server_device_name [OF d] show thesis by blast
qed

lemma opened_reachable: "reachable (snd (openConnection os_open raw io (MarlinDriver_init path baud)))"
  by (rule reachable.step [OF reachable.new open_step]) (rule surjective_pairing)

lemma openConnection_frame:
  "serialPortPath (snd (openConnection os_open raw io d)) = serialPortPath d"
  "registeredFds d = {} \<Longrightarrow> isConnected (snd (openConnection os_open raw io d)) \<Longrightarrow>
     registeredFds (snd (openConnection os_open raw io d)) = {portFd (serial (snd (openConnection os_open raw io d)))}"
  by (auto simp: openConnection_def serial_open_def setBaudrate_def setState_def Let_def isConnected_def
      serial_isOpen_def registerFileDescriptor_def split: if_splits)

text \<open>C14: From the command line to a running server. When \<open>main\<close>, asked for a printer with
  the Marlin firmware, comes to its main loop, the driver is a Marlin driver in a reachable state for the
  device \<open>/dev/\<close> and the name that was given without its directories, its socket is bound and listening
  on a path that fits the address, and the state is one from which every property of the reachable server
  states holds.\<close>

theorem main_starts_server:
  fixes create :: "driver_class \<Rightarrow> string \<Rightarrow> 32 word \<Rightarrow> MarlinDriver"
  assumes "server_main create os los u now strerr errno dir evs = Some (MServe t srv, lg)"
    and "fold_option main_option main_options_init evs = Some m"
    and "create MarlinClass = MarlinDriver_init" "printerName m \<in> set marlin_firmware" "-1 \<le> os_socket os"
  shows "\<exists>dev d. sdriver srv = Some d \<and> reachable d \<and> serialPortPath d = ''/dev/'' @ dev \<and>
    (serialDevice m \<noteq> [] \<longrightarrow> CHR ''/'' \<notin> set dev \<and> (\<exists>pre. serialDevice m = pre @ dev)) \<and>
    length (cstr (''/tmp/print3d-'' @ cstr dev)) < 108 \<and> os_bind os \<noteq> -1 \<and> os_listen os \<noteq> -1 \<and>
    socketFd srv = os_socket os \<and> server_reachable marlin_env reachable srv"
proof -
  obtain dev d where d: "d = snd (openConnection (os_open_port os) (os_makeraw os) (os_ioctls os) (MarlinDriver_init (''/dev/'' @ dev) 250000))"
    "srv = server_start (os_socket os) (Some d)" "os_socket os \<noteq> -1" "os_bind os \<noteq> -1" "os_listen os \<noteq> -1"
    "length (cstr (''/tmp/print3d-'' @ cstr dev)) < 108"
    "serialDevice m \<noteq> [] \<longrightarrow> CHR ''/'' \<notin> set dev \<and> (\<exists>pre. serialDevice m = pre @ dev)"
    by (rule main_marlin [OF assms(1-4)])
  have r: "reachable d" unfolding d(1) by (rule opened_reachable)
  have "0 \<le> os_socket os" using d(3) assms(5) by simp
  then have "server_reachable marlin_env reachable srv"
    unfolding d(2) by (rule sr_start) (use r in simp)
  moreover have "serialPortPath d = ''/dev/'' @ dev"
    unfolding d(1) openConnection_frame by (simp add: MarlinDriver_init_def AbstractDriver.extend_def AbstractDriver_init_def)
  ultimately show ?thesis
    using r d(2,4-7) by (intro exI [of _ dev] exI [of _ d]) (simp add: server_start_def)
qed

text \<open>C15: The printer's port is not watched at first. Its descriptor is opened after the one of
  the server's socket, and \<open>select\<close> looks only at the descriptors up to the greatest one of the
  socket and the clients: when the port has the greater descriptor, a started server watches its socket
  only, so an answer of the printer does not wake it; the port is watched exactly from the first client
  on whose descriptor is not below the one of the port.\<close>

theorem port_not_watched:
  fixes create :: "driver_class \<Rightarrow> string \<Rightarrow> 32 word \<Rightarrow> MarlinDriver"
  assumes "server_main create os los u now strerr errno dir evs = Some (MServe t srv, lg)"
    and "fold_option main_option main_options_init evs = Some m"
    and "create MarlinClass = MarlinDriver_init" "printerName m \<in> set marlin_firmware"
    and "sdriver srv = Some d" "isConnected d" "os_socket os < portFd (serial d)"
  shows "watched srv = {os_socket os} \<and>
    (\<forall>fd s'. accept_client (Some fd) srv = Some s' \<longrightarrow> (portFd (serial d) \<in> watched s' \<longleftrightarrow> fd \<ge> portFd (serial d)))"
proof -
  obtain dev d' where d: "d' = snd (openConnection (os_open_port os) (os_makeraw os) (os_ioctls os) (MarlinDriver_init (''/dev/'' @ dev) 250000))"
    "srv = server_start (os_socket os) (Some d')"
    by (rule main_marlin [OF assms(1-4)])
  then have dd: "d' = d" using assms(5) by (simp add: server_start_def)
  have "registeredFds (MarlinDriver_init (''/dev/'' @ dev) 250000) = {}"
    by (simp add: MarlinDriver_init_def AbstractDriver.extend_def AbstractDriver_init_def)
  from openConnection_frame(2) [OF this] assms(6) have "registeredFds d = {portFd (serial d)}"
    using d(1) dd by simp
  with d(2) dd assms(7) show ?thesis
    by (auto simp: watched_def server_start_def accept_client_def split: if_splits)
qed

text \<open>C16: A server that cannot start says that it has. When the socket cannot be made, its old file
  not removed, or the socket not bound or listened on, \<open>start\<close> returns \<open>false\<close> as an
  \<open>int\<close>, which \<open>main\<close> takes for success: the process ends with the exit code 0, forked
  or not.\<close>

theorem failed_start_exits_zero:
  assumes "createDriver (cstr (printerName m)) \<noteq> None" "printerName m \<noteq> []"
    and "os_socket os = -1 \<or> length (cstr (''/tmp/print3d-'' @ cstr dev)) < 108 \<and>
      (os_unlink os \<notin> {0, ENOENT, ENOTDIR} \<or> os_bind os = -1 \<or> os_listen os = -1)"
  shows "map_option fst (run_server create os u now m dev lg) = Some (MExit 0)"
  using assms
  by (auto simp: run_server_def Server_new_def start_def openSocket_def ipc_construct_socket_path_def Let_def)

definition quiet_log :: log_os where
  "quiet_log = \<lparr>os_fclose = \<lambda>_. 0, os_pclose = \<lambda>_. 0, os_fopen = \<lambda>_. True, os_popen = \<lambda>_. True\<rparr>"

definition noon :: local_time where
  "noon = \<lparr>tm_mday = 1, tm_mon = 0, tm_hour = 12, tm_min = 0, tm_sec = 0\<rparr>"

definition demo_os :: os_env where
  "demo_os = \<lparr>os_socket = 3, os_unlink = ENOENT, os_bind = 0, os_listen = 0, os_close_socket = 0, os_fork = 100,
     os_setsid = 0, os_open_port = \<lambda>_. 4, os_makeraw = \<lambda>t. t, os_ioctls = all_well\<rparr>"

definition demo_args :: "(char \<times> string) list" where
  "demo_args = [(CHR ''d'', ''/dev/ttyACM0''), (CHR ''p'', ''ultimaker2''), (CHR ''F'', [])]"

definition demo_options :: main_options where
  "demo_options = main_options_init\<lparr>serialDevice := ''/dev/ttyACM0'', printerName := ''ultimaker2'', doFork := -1\<rparr>"

definition demo_main :: "(MarlinDriver main_result \<times> Logger) option" where
  "demo_main = server_main (\<lambda>cls. MarlinDriver_init) demo_os quiet_log None noon (\<lambda>e. ''error'') 0 None demo_args"

lemma demo_options_parsed: "fold_option main_option main_options_init demo_args = Some demo_options"
  by (simp add: demo_args_def demo_options_def main_option_def main_options_init_def)

lemma ultimaker2_marlin: "''ultimaker2'' \<in> set marlin_firmware"
  by (simp add: marlin_firmware_def)

lemma demo_main_serves: "\<exists>t srv lg. demo_main = Some (MServe t srv, lg)"
proof -
  have drv: "createDriver ''ultimaker2'' = Some MarlinClass" by (rule createDriver_marlin [OF ultimaker2_marlin])
  have cs: "cstr ''ultimaker2'' = ''ultimaker2''" "cstr ''ttyACM0'' = ''ttyACM0''"
    "cstr ''/tmp/print3d-ttyACM0'' = ''/tmp/print3d-ttyACM0''" by (simp_all add: cstr_def)
  have lg: "MAIN_LOG noon INFO buf (l\<lparr>lg_level := WARNING\<rparr>) = Some (l\<lparr>lg_level := WARNING\<rparr>)" for buf l
    by (simp add: MAIN_LOG_def vaLog_def split: option.split)
  have o: "open_log quiet_log None demo_options Logger_init =
      Some (Inr (WARNING, (Logger_init\<lparr>lg_stream := Some Std_err\<rparr>)\<lparr>lg_level := WARNING\<rparr>))"
    by (simp add: open_log_def demo_options_def main_options_init_def Logger_open_def Logger_close_def Logger_init_def)
  have dev: "server_device noon (\<lambda>e. ''error'') 0 None demo_options l = Some (Inr ''ttyACM0'', l)" for l
    by (simp add: server_device_def demo_options_def main_options_init_def)
  have run: "\<exists>t srv. run_server (\<lambda>cls. MarlinDriver_init) demo_os None noon demo_options ''ttyACM0'' l = Some (MServe t srv, l)" for l
    using drv cs by (simp add: run_server_def Server_new_def demo_options_def main_options_init_def start_def openSocket_def
        ipc_construct_socket_path_def demo_os_def enter_loop_def FD_SETSIZE_def ENOENT_def Let_def)
  have h: "\<not> showHelp demo_options" "printerName demo_options = ''ultimaker2''"
    by (simp_all add: demo_options_def main_options_init_def)
  show ?thesis
    by (simp add: demo_main_def server_main_def demo_options_parsed h o dev lg del: Logger.simps) (use run in blast)
qed

theorem main_starts_server_witness:
  "\<exists>t srv lg d dev. demo_main = Some (MServe t srv, lg) \<and> sdriver srv = Some d \<and>
     serialPortPath d = ''/dev/'' @ dev \<and> (\<exists>pre. ''/dev/ttyACM0'' = pre @ dev) \<and> server_reachable marlin_env reachable srv"
proof -
  obtain t srv lg where m: "demo_main = Some (MServe t srv, lg)" using demo_main_serves by blast
  have p: "printerName demo_options \<in> set marlin_firmware" "-1 \<le> os_socket demo_os" "serialDevice demo_options = ''/dev/ttyACM0''"
    using ultimaker2_marlin by (simp_all add: demo_options_def main_options_init_def demo_os_def)
  have "serialDevice demo_options \<noteq> []" by (simp add: p(3))
  with main_starts_server [OF m [unfolded demo_main_def] demo_options_parsed refl p(1,2)]
  have "\<exists>dev d. sdriver srv = Some d \<and> serialPortPath d = ''/dev/'' @ dev \<and>
      (\<exists>pre. serialDevice demo_options = pre @ dev) \<and> server_reachable marlin_env reachable srv" by blast
  with m show ?thesis unfolding p(3) by blast
qed

theorem port_not_watched_witness:
  "\<exists>t srv lg d. demo_main = Some (MServe t srv, lg) \<and> sdriver srv = Some d \<and> portFd (serial d) = 4 \<and> watched srv = {3}"
proof -
  obtain t srv lg where m: "demo_main = Some (MServe t srv, lg)" using demo_main_serves by blast
  have p: "printerName demo_options \<in> set marlin_firmware"
    using ultimaker2_marlin by (simp add: demo_options_def main_options_init_def)
  obtain dev d where d: "d = snd (openConnection (os_open_port demo_os) (os_makeraw demo_os) (os_ioctls demo_os)
      (MarlinDriver_init (''/dev/'' @ dev) 250000))" "srv = server_start (os_socket demo_os) (Some d)"
    by (rule main_marlin [OF m [unfolded demo_main_def] demo_options_parsed refl p])
  have c: "portFd (serial d) = 4" "sdriver srv = Some d" "isConnected d" "os_socket demo_os = 3"
    by (simp_all add: d openConnection_def serial_open_def setBaudrate_def setState_def Let_def demo_os_def isConnected_def
        serial_isOpen_def server_start_def)
  have "watched srv = {os_socket demo_os} \<and>
    (\<forall>fd s'. accept_client (Some fd) srv = Some s' \<longrightarrow> (portFd (serial d) \<in> watched s' \<longleftrightarrow> fd \<ge> portFd (serial d)))"
    by (rule port_not_watched [OF m [unfolded demo_main_def] demo_options_parsed refl p c(2,3)]) (simp add: c)
  then show ?thesis using m c by auto
qed

theorem failed_start_exits_zero_witness:
  "map_option fst (run_server (\<lambda>cls. MarlinDriver_init) (demo_os\<lparr>os_bind := -1\<rparr>) None noon demo_options ''ttyACM0'' Logger_init) =
     Some (MExit 0)"
proof (rule failed_start_exits_zero)
  have p: "printerName demo_options = ''ultimaker2''" by (simp add: demo_options_def main_options_init_def)
  show "createDriver (cstr (printerName demo_options)) \<noteq> None"
    using createDriver_marlin [OF ultimaker2_marlin] marlin_name_cstr [OF ultimaker2_marlin] by (simp add: p)
qed (simp_all add: demo_options_def main_options_init_def demo_os_def cstr_def)

end
