(* ===== verification/LuaBinding.thy ===== *)
theory LuaBinding
  imports Communicator Logging
begin

text \<open>
  The Lua module, \<open>src/src/frontends/lua/fe_lua.c\<close>, and the small one beside it,
  \<open>os_utils.c\<close>: one function per method, on the arguments on the Lua stack. The Lua library
  (conversions of arguments, indexing) and the operating system are arguments. A method returns the
  values on top of what it has pushed, or raises a Lua error, which leaves the function where it stands:
  the state at that point is part of the outcome. \<open>None\<close> is undefined behaviour.
\<close>

section \<open>Values and state\<close>

text \<open>
  A printer is a userdata that points to its context, here its position among all contexts made so far.
  A file handle points to its stream, or to none when it has been closed.
\<close>

datatype lua_val =
  LNil | LBool bool | LNumber int | LString string | LTable "(string \<times> lua_val) list" |
  LPrinter nat | LFile "log_stream option" | LUserdata nat | LOther nat

record printerData_s =
  pd_deviceId :: string
  pd_initialized :: bool
  pd_logLevel :: nat
  pd_logStream :: "log_stream option"
  pd_freed :: bool

record 'p lua_process =
  lp_link :: "'p comm"
  lp_log :: clogger
  lp_printers :: "printerData_s list"

text \<open>
  \<open>checkinteger\<close>, \<open>checkstring\<close> and \<open>getfield\<close> raise an error
  where they give nothing. \<open>stat_socket\<close> is the error of \<open>stat\<close> or whether the
  file is a socket.
\<close>

record 'p lua_env =
  le_comm :: "'p comm_env"
  le_log :: log_os
  checkinteger :: "lua_val \<Rightarrow> int option"
  checkstring :: "lua_val \<Rightarrow> string option"
  isnumber :: "lua_val \<Rightarrow> bool"
  getfield :: "lua_val \<Rightarrow> string \<Rightarrow> lua_val option"
  errno_text :: string
  le_strerror :: "int \<Rightarrow> string"
  stat_socket :: "string \<Rightarrow> int + bool"
  dev_dir :: "dirent list option"

datatype 'p lua_outcome = LReturn "lua_val list" "'p lua_process" | LError "'p lua_process"

type_synonym 'p lua_method = "'p lua_env \<Rightarrow> 'p lua_process \<Rightarrow> lua_val list \<Rightarrow> 'p lua_outcome option"

text \<open>The argument at an index from 1 on, if there is one; the values a function returns.\<close>

definition lua_arg :: "lua_val list \<Rightarrow> nat \<Rightarrow> lua_val option" where
  "lua_arg args i = (if 1 \<le> i \<and> i \<le> length args then Some (args ! (i - 1)) else None)"

definition return_top :: "nat \<Rightarrow> lua_val list \<Rightarrow> lua_val list" where
  "return_top n pushed = drop (length pushed - n) pushed"

fun is_userdata :: "lua_val \<Rightarrow> bool" where
  "is_userdata (LPrinter n) = True"
| "is_userdata (LFile f) = True"
| "is_userdata (LUserdata n) = True"
| "is_userdata _ = False"

text \<open>An argument that is converted; without it, or when it cannot be, an error.\<close>

definition arg_integer :: "'p lua_env \<Rightarrow> lua_val list \<Rightarrow> nat \<Rightarrow> int option" where
  "arg_integer env args i = Option.bind (lua_arg args i) (checkinteger env)"

definition arg_string :: "'p lua_env \<Rightarrow> lua_val list \<Rightarrow> nat \<Rightarrow> string option" where
  "arg_string env args i = map_option cstr (Option.bind (lua_arg args i) (checkstring env))"

text \<open>The conversion of a Lua integer to \<open>int\<close> and to the enumeration of the levels.\<close>

definition to_int :: "int \<Rightarrow> int" where
  "to_int n = sint (word_of_int n :: 32 word)"

definition to_level :: "int \<Rightarrow> nat" where
  "to_level n = unat (word_of_int n :: 32 word)"

section \<open>Contexts\<close>

text \<open>An error (for a userdata of another kind), no context, or one.\<close>

definition getContext :: "lua_val list \<Rightarrow> unit + nat option" where
  "getContext args =
     (case lua_arg args 1 of
        Some (LPrinter n) \<Rightarrow> Inr (Some n)
      | Some v \<Rightarrow> if is_userdata v then Inl () else Inr None
      | None \<Rightarrow> Inr None)"

text \<open>Following the pointer to a context that has been freed is undefined.\<close>

definition the_context :: "'p lua_process \<Rightarrow> nat \<Rightarrow> printerData_s option" where
  "the_context st n =
     (if n < length (lp_printers st) \<and> \<not> pd_freed (lp_printers st ! n) then Some (lp_printers st ! n) else None)"

definition upd_context :: "nat \<Rightarrow> (printerData_s \<Rightarrow> printerData_s) \<Rightarrow> 'p lua_process \<Rightarrow> 'p lua_process" where
  "upd_context n f st = st\<lparr>lp_printers := (lp_printers st)[n := f (lp_printers st ! n)]\<rparr>"

definition nil_and :: "string \<Rightarrow> lua_val list" where
  "nil_and t = [LNil, LString t]"

text \<open>What is pushed when it fails, or nothing.\<close>

definition open_log_of :: "'p lua_env \<Rightarrow> printerData_s \<Rightarrow> 'p lua_process \<Rightarrow> (lua_val list option \<times> 'p lua_process) option" where
  "open_log_of env ctx st =
     (if log_is_open (lp_log st) then Some (None, st)
      else do {
        (rv, l) \<leftarrow> log_open_stream (le_log env) (pd_logStream ctx) (pd_logLevel ctx) (lp_log st);
        Some (if rv < 0 then Some (nil_and (''could not open log stream ('' @ errno_text env @ '')'')) else None, st\<lparr>lp_log := l\<rparr>)
      })"

definition open_socket_of :: "'p lua_env \<Rightarrow> printerData_s \<Rightarrow> 'p lua_process \<Rightarrow> (lua_val list option \<times> 'p lua_process) option" where
  "open_socket_of env ctx st =
     (if comm_is_socket_open (lp_link st) \<noteq> 0 then Some (None, st)
      else do {
        (fd, m) \<leftarrow> comm_openSocket (le_comm env) (Some (pd_deviceId ctx)) (lp_link st);
        Some (if fd < 0 then Some (nil_and (''could not open IPC socket ('' @ errno_text env @ '')'')) else None, st\<lparr>lp_link := m\<rparr>)
      })"

text \<open>
  \<open>initContext\<close> in front of the rest of a method, which is skipped after a failure.
\<close>

definition with_context :: "'p lua_env \<Rightarrow> 'p lua_process \<Rightarrow> lua_val list \<Rightarrow>
    ('p lua_process \<Rightarrow> 'p lua_outcome option) \<Rightarrow> 'p lua_outcome option" where
  "with_context env st args k =
     (case getContext args of
        Inl _ \<Rightarrow> Some (LError st)
      | Inr None \<Rightarrow> Some (LReturn (nil_and ''could not get printer context'') st)
      | Inr (Some n) \<Rightarrow> do {
          ctx \<leftarrow> the_context st n;
          (e1, st1) \<leftarrow> open_log_of env ctx st;
          case e1 of
            Some p \<Rightarrow> Some (LReturn p st1)
          | None \<Rightarrow> do {
              (e2, st2) \<leftarrow> open_socket_of env ctx st1;
              case e2 of
                Some p \<Rightarrow> Some (LReturn p st2)
              | None \<Rightarrow> k (upd_context n (\<lambda>c. c\<lparr>pd_initialized := True\<rparr>) st2)
            }
        })"

text \<open>A missing error text is formatted as a null pointer, and pushed as nil.\<close>

definition initStackWithReturnStatus :: "int \<Rightarrow> 'p comm \<Rightarrow> lua_val list" where
  "initStackWithReturnStatus result m =
     (if result = -1 then nil_and (''error communicating with server ('' @
        (case comm_getError m of Some t \<Rightarrow> t | None \<Rightarrow> ''(null)'') @ '')'')
      else if result < -1 then [LBool False, case comm_getError m of Some t \<Rightarrow> LString t | None \<Rightarrow> LNil]
      else [LBool True])"

definition close_link :: "'p lua_env \<Rightarrow> 'p comm \<Rightarrow> 'p lua_process \<Rightarrow> 'p lua_process" where
  "close_link env m st = st\<lparr>lp_link := snd (comm_closeSocket (le_comm env) m)\<rparr>"

text \<open>A request whose status is all that is returned.\<close>

definition status_request ::
  "'p lua_env \<Rightarrow> ('p comm \<Rightarrow> (int \<times> 'p comm) option) \<Rightarrow> 'p lua_process \<Rightarrow> 'p lua_outcome option" where
  "status_request env req st = do {
     (rv, m) \<leftarrow> req (lp_link st);
     Some (LReturn (initStackWithReturnStatus rv m) (close_link env m st))
   }"

section \<open>The methods of a printer\<close>

definition l_lua_gc :: "'p lua_method" where
  "l_lua_gc env st args =
     (case getContext args of
        Inl _ \<Rightarrow> Some (LError st)
      | Inr None \<Rightarrow> Some (LReturn [] st)
      | Inr (Some n) \<Rightarrow> map_option (\<lambda>_. LReturn [] (upd_context n (\<lambda>c. c\<lparr>pd_freed := True\<rparr>) st)) (the_context st n))"

text \<open>The methods that use the context without asking whether there is one.\<close>

definition use_context :: "'p lua_process \<Rightarrow> lua_val list \<Rightarrow> (nat \<Rightarrow> printerData_s \<Rightarrow> 'p lua_outcome option) \<Rightarrow> 'p lua_outcome option" where
  "use_context st args k =
     (case getContext args of
        Inl _ \<Rightarrow> Some (LError st)
      | Inr None \<Rightarrow> None
      | Inr (Some n) \<Rightarrow> Option.bind (the_context st n) (k n))"

definition l_lua_tostring :: "'p lua_method" where
  "l_lua_tostring env st args =
     use_context st args (\<lambda>n ctx. Some (LReturn [LString (''3D-printer['' @ pd_deviceId ctx @ '']'')] st))"

definition l_lua_getId :: "'p lua_method" where
  "l_lua_getId env st args = use_context st args (\<lambda>n ctx. Some (LReturn [LString (pd_deviceId ctx)] st))"

definition l_lua_hasSocket :: "'p lua_method" where
  "l_lua_hasSocket env st args = use_context st args (\<lambda>n ctx.
     let path = ipc_construct_socket_path (pd_deviceId ctx)
     in case stat_socket env path of
          Inl e \<Rightarrow> Some (LReturn (if e \<noteq> 2
             then nil_and (''could not stat ipc socket path '' @ [CHR 0x27] @ path @ [CHR 0x27] @ '' ('' @ le_strerror env e @ '')'')
             else [LBool False]) st)
        | Inr is_socket \<Rightarrow> Some (LReturn [LBool is_socket] st))"

text \<open>The chain of requests ends with the first that fails.\<close>

fun read_temperatures ::
  "'p comm_env \<Rightarrow> IPC_TEMPERATURE_PARAMETER list \<Rightarrow> 'p comm \<Rightarrow> (int \<times> int option list \<times> 'p comm) option" where
  "read_temperatures env [] m = Some (0, [], m)"
| "read_temperatures env (w # ws) m = do {
     (rv, v, m1) \<leftarrow> comm_getTemperature env w m;
     if rv \<ge> 0 \<and> ws \<noteq> [] then do {
       (rv', vs, m2) \<leftarrow> read_temperatures env ws m1;
       Some (rv', v # vs, m2)
     } else Some (rv, [v], m1)
   }"

definition temperature_table :: "int option list \<Rightarrow> lua_val option" where
  "temperature_table vs =
     (case vs of
        [Some tH, Some tHt, Some tB, Some tBt, Some tHeating] \<Rightarrow>
          Some (LTable [(''hotend'', LNumber tH), (''hotend_target'', LNumber tHt), (''bed'', LNumber tB),
            (''bed_target'', LNumber tBt), (''heating'', LNumber tHeating)])
      | _ \<Rightarrow> None)"

definition l_getTemperatures :: "'p lua_method" where
  "l_getTemperatures env st args = with_context env st args (\<lambda>st. do {
     (rv, vs, m) \<leftarrow> read_temperatures (le_comm env)
       [IPC_TEMP_HOTEND, IPC_TEMP_HOTEND_TGT, IPC_TEMP_BED, IPC_TEMP_BED_TGT, IPC_TEMP_HEATING] (lp_link st);
     let st1 = close_link env m st;
     if rv \<ge> 0 then map_option (\<lambda>t. LReturn [t] st1) (temperature_table vs)
     else Some (LReturn (initStackWithReturnStatus rv m) st1)
   })"

definition l_clearGcode :: "'p lua_method" where
  "l_clearGcode env st args = with_context env st args (status_request env (comm_clearGCode (le_comm env)))"

text \<open>A field of the meta data table; nil leaves the initial value.\<close>

definition int_field :: "'p lua_env \<Rightarrow> lua_val \<Rightarrow> string \<Rightarrow> int option" where
  "int_field env t k = do {
     v \<leftarrow> getfield env t k;
     if v = LNil then Some (-1) else map_option to_int (checkinteger env v)
   }"

definition string_field :: "'p lua_env \<Rightarrow> lua_val \<Rightarrow> string \<Rightarrow> string option option" where
  "string_field env t k = do {
     v \<leftarrow> getfield env t k;
     if v = LNil then Some None else map_option (\<lambda>s. Some (cstr s)) (checkstring env v)
   }"

text \<open>
  The arguments behind the printer: the text, the total and the meta data; nothing when one of them
  raises an error. An index where there is no argument stands for nil.
\<close>

definition append_arguments :: "'p lua_env \<Rightarrow> lua_val list \<Rightarrow> (string \<times> int \<times> ipc_gcode_metadata_s) option" where
  "append_arguments env args = do {
     (tot, md) \<leftarrow> (if length args > 2 then do {
        n \<leftarrow> arg_integer env args 3;
        let t = (case lua_arg args 4 of Some v \<Rightarrow> v | None \<Rightarrow> LNil);
        num \<leftarrow> int_field env t ''seq_number'';
        ttl \<leftarrow> int_field env t ''seq_total'';
        src \<leftarrow> string_field env t ''source'';
        Some (to_int n, \<lparr>seq_number = num, seq_total = ttl, meta_source = src\<rparr>)
      } else Some (-1, \<lparr>seq_number = -1, seq_total = -1, meta_source = None\<rparr>));
     text' \<leftarrow> arg_string env args 2;
     Some (text', tot, md)
   }"

definition l_appendGcode :: "'p lua_method" where
  "l_appendGcode env st args = with_context env st args (\<lambda>st.
     if length args < 2 then Some (LReturn (nil_and ''missing argument'') st)
     else case append_arguments env args of
       None \<Rightarrow> Some (LError st)
     | Some (code, tot, md) \<Rightarrow> status_request env (comm_sendGCodeData (le_comm env) code tot (Some md)) st)"

definition l_appendFileContents :: "'p lua_method" where
  "l_appendFileContents env st args = with_context env st args (\<lambda>st.
     case arg_string env args 2 of
       None \<Rightarrow> Some (LError st)
     | Some f \<Rightarrow> status_request env (comm_sendGCodeFile (le_comm env) f) st)"

definition l_startPrint :: "'p lua_method" where
  "l_startPrint env st args = with_context env st args (status_request env (comm_startPrintGCode (le_comm env)))"

definition l_stopPrint :: "'p lua_method" where
  "l_stopPrint env st args = with_context env st args (\<lambda>st.
     if length args > 1 then
       (case arg_string env args 2 of
          None \<Rightarrow> Some (LError st)
        | Some code \<Rightarrow> status_request env (comm_stopPrintGCode (le_comm env) (Some code)) st)
     else status_request env (comm_stopPrintGCode (le_comm env) None) st)"

definition l_heatup :: "'p lua_method" where
  "l_heatup env st args = with_context env st args (\<lambda>st.
     case arg_integer env args 2 of
       None \<Rightarrow> Some (LError st)
     | Some n \<Rightarrow> status_request env (comm_heatup (le_comm env) (to_int n)) st)"

definition l_getProgress :: "'p lua_method" where
  "l_getProgress env st args = with_context env st args (\<lambda>st. do {
     (rv, xs, m) \<leftarrow> comm_getProgress (le_comm env) (lp_link st);
     let st1 = close_link env m st;
     if rv \<ge> 0 then (if length xs = 7 then Some (LReturn (map LNumber xs) st1) else None)
     else Some (LReturn (initStackWithReturnStatus rv m) st1)
   })"

definition l_getState :: "'p lua_method" where
  "l_getState env st args = with_context env st args (\<lambda>st. do {
     (rv, state, m) \<leftarrow> comm_getState (le_comm env) (lp_link st);
     let st1 = close_link env m st;
     if rv \<ge> 0 then map_option (\<lambda>t. LReturn [LString t] st1) state
     else Some (LReturn (initStackWithReturnStatus rv m) st1)
   })"

definition l_setLocalLogStream :: "'p lua_method" where
  "l_setLocalLogStream env st args =
     (case getContext args of
        Inl _ \<Rightarrow> Some (LError st)
      | Inr c \<Rightarrow>
          if length args < 2 then Some (LReturn (nil_and ''missing stream'') st)
          else case lua_arg args 2 of
            Some (LFile stream) \<Rightarrow> do {
              n \<leftarrow> c;
              ctx \<leftarrow> the_context st n;
              Some (LReturn [LBool True] (upd_context n (\<lambda>c. c\<lparr>pd_logStream := stream\<rparr>) st))
            }
          | _ \<Rightarrow> Some (LError st))"

text \<open>An invalid number is told about and then set all the same; only the last value is returned.\<close>

definition l_setLocalLogLevel :: "'p lua_method" where
  "l_setLocalLogLevel env st args =
     (case getContext args of
        Inl _ \<Rightarrow> Some (LError st)
      | Inr c \<Rightarrow>
          let set_level = (\<lambda>pushed level. do {
                n \<leftarrow> c;
                ctx \<leftarrow> the_context st n;
                Some (LReturn (return_top 1 (pushed @ [LBool True])) (upd_context n (\<lambda>c. c\<lparr>pd_logLevel := level\<rparr>) st))
              })
          in case lua_arg args 2 of
               None \<Rightarrow> Some (LReturn (nil_and ''missing level name'') st)
             | Some v \<Rightarrow>
                 if isnumber env v then
                   (case checkinteger env v of
                      None \<Rightarrow> Some (LError st)
                    | Some k \<Rightarrow>
                        let level = to_level k
                        in set_level (if level < 1 \<or> level > NUM_LOG_LEVELS then nil_and ''invalid log level number'' else []) level)
                 else (case arg_string env args 2 of
                         None \<Rightarrow> Some (LError st)
                       | Some name \<Rightarrow>
                           let level = log_get_level_number name
                           in if level = INVALID then Some (LReturn (nil_and ''invalid log level name'') st)
                              else set_level [] level))"

section \<open>The functions of the module\<close>

text \<open>The lists of early returns are not freed.\<close>

definition l_getPrinter :: "'p lua_method" where
  "l_getPrinter env st args =
     (let new_printer = (\<lambda>dev. LReturn [LPrinter (length (lp_printers st))]
            (st\<lparr>lp_printers := lp_printers st @ [\<lparr>pd_deviceId = dev, pd_initialized = False, pd_logLevel = VERBOSE,
                 pd_logStream = Some Std_err, pd_freed = False\<rparr>]\<rparr>));
          fail = (\<lambda>t. Some (LReturn (nil_and (''device auto-detect: '' @ t)) st))
      in if length args > 0 then
           (case arg_string env args 1 of None \<Rightarrow> Some (LError st) | Some dev \<Rightarrow> Some (new_printer dev))
         else case ipc_find_devices (dev_dir env) of
           None \<Rightarrow> fail ''could not obtain device list''
         | Some devs \<Rightarrow>
             (case devs ! 0 of
                Uninit \<Rightarrow> None
              | Null \<Rightarrow> fail ''no devices found''
              | Ptr d \<Rightarrow>
                  (case devs ! 1 of
                     Uninit \<Rightarrow> None
                   | Null \<Rightarrow> map_option (\<lambda>_. new_printer d) (ipc_free_device_list (Some devs))
                   | Ptr d2 \<Rightarrow> fail ''multiple devices found'')))"

definition print3d_f :: "(string \<times> 'p lua_method) list" where
  "print3d_f = [(''getPrinter'', l_getPrinter)]"

definition print3d_m :: "(string \<times> 'p lua_method) list" where
  "print3d_m =
    [(''__gc'', l_lua_gc), (''__tostring'', l_lua_tostring), (''getId'', l_lua_getId),
     (''hasSocket'', l_lua_hasSocket), (''getTemperatures'', l_getTemperatures), (''clearGcode'', l_clearGcode),
     (''appendGcode'', l_appendGcode), (''appendFileContents'', l_appendFileContents),
     (''startPrint'', l_startPrint), (''stopPrint'', l_stopPrint), (''heatup'', l_heatup),
     (''getProgress'', l_getProgress), (''getState'', l_getState), (''setLocalLogStream'', l_setLocalLogStream),
     (''setLocalLogLevel'', l_setLocalLogLevel)]"

section \<open>The other module\<close>

text \<open>\<open>now\<close> is what \<open>gettimeofday\<close> gives, \<open>pid\<close> what \<open>getpid\<close> does.\<close>

definition l_getTime :: "timeval \<Rightarrow> lua_val list" where
  "l_getTime now = [LNumber (tv_sec now), LNumber (tv_usec now)]"

text \<open>The quotient of C, towards zero.\<close>

definition c_div :: "int \<Rightarrow> int \<Rightarrow> int" where
  "c_div a b = (if a < 0 then - ((- a) div b) else a div b)"

text \<open>
  A result that does not fit the signed type it is computed in is undefined; the sum is converted to
  \<open>int\<close>.
\<close>

definition signed_fits :: "nat \<Rightarrow> int \<Rightarrow> int option" where
  "signed_fits w n = (if - (2 ^ (w - 1)) \<le> n \<and> n < 2 ^ (w - 1) then Some n else None)"

definition elapsed_msec :: "timeval \<Rightarrow> timeval \<Rightarrow> int option" where
  "elapsed_msec begin now = do {
     sec \<leftarrow> signed_fits 64 (tv_sec now - tv_sec begin);
     msec \<leftarrow> signed_fits 64 (sec * 1000);
     usec \<leftarrow> signed_fits 32 (to_int (tv_usec now) - to_int (tv_usec begin));
     diff \<leftarrow> signed_fits 64 (msec + c_div usec 1000);
     Some (to_int diff)
   }"

definition l_getElapsedTime :: "'p lua_env \<Rightarrow> timeval \<Rightarrow> lua_val list \<Rightarrow> (unit + lua_val list) option" where
  "l_getElapsedTime env now args =
     (if length args \<ge> 2 then
        (case (arg_integer env args 1, arg_integer env args 2) of
           (Some sec, Some usec) \<Rightarrow>
             map_option (\<lambda>d. Inr [LNumber d, LNumber (tv_sec now), LNumber (tv_usec now)])
               (elapsed_msec \<lparr>tv_sec = sec, tv_usec = usec\<rparr> now)
         | _ \<Rightarrow> Some (Inl ()))
      else Some (Inr (nil_and ''two arguments required: seconds and microseconds'')))"

definition l_getPID :: "int \<Rightarrow> lua_val list" where
  "l_getPID pid = [LNumber pid]"

section \<open>What a method returns\<close>

text \<open>
  The results a caller can rely on: nil and a message, or false and a status, when something failed, and
  otherwise what the method is for.
\<close>

definition failure :: "lua_val list \<Rightarrow> bool" where
  "failure vs \<longleftrightarrow> (\<exists>t. vs = [LNil, LString t]) \<or> (\<exists>v. vs = [LBool False, v] \<and> (v = LNil \<or> (\<exists>t. v = LString t)))"

definition temperature_result :: "lua_val list \<Rightarrow> bool" where
  "temperature_result vs \<longleftrightarrow> (\<exists>a b c d e. vs = [LTable [(''hotend'', LNumber a), (''hotend_target'', LNumber b),
     (''bed'', LNumber c), (''bed_target'', LNumber d), (''heating'', LNumber e)]])"

definition success :: "string \<Rightarrow> lua_val list \<Rightarrow> bool" where
  "success name vs \<longleftrightarrow>
     (if name = ''__gc'' then vs = []
      else if name \<in> {''__tostring'', ''getId'', ''getState''} then \<exists>t. vs = [LString t]
      else if name = ''hasSocket'' then \<exists>b. vs = [LBool b]
      else if name = ''getTemperatures'' then temperature_result vs
      else if name = ''getProgress'' then \<exists>ns. vs = map LNumber ns \<and> length ns = 7
      else vs = [LBool True])"

definition conforms :: "string \<Rightarrow> lua_val list \<Rightarrow> bool" where
  "conforms name vs \<longleftrightarrow> success name vs \<or> failure vs"

lemma conforms_nil_and [simp]: "conforms name (nil_and t)"
  by (simp add: conforms_def failure_def nil_and_def)

lemma initStack_failure: "rv < 0 \<Longrightarrow> failure (initStackWithReturnStatus rv m)"
  by (auto simp: initStackWithReturnStatus_def failure_def nil_and_def split: option.split)

lemma initStack_status:
  "initStackWithReturnStatus rv m = [LBool True] \<or> failure (initStackWithReturnStatus rv m)"
  by (cases "rv < 0") (auto simp: initStack_failure, simp add: initStackWithReturnStatus_def)

text \<open>What a method does behind \<open>with_context\<close> decides on its results.\<close>

lemma status_request_Return:
  "status_request env req st = Some (LReturn vs st') \<Longrightarrow>
     (vs = [LBool True] \<or> failure vs) \<and> (\<exists>m. st' = close_link env m st)"
  using initStack_status by (auto simp: status_request_def bind_eq_Some_conv)

lemma closed_after [simp]: "csock (lp_link (close_link env m st)) = -1"
  by (simp add: close_link_def comm_closeSocket_def split: prod.split)

lemma temperature_table_Some: "temperature_table vs = Some t \<Longrightarrow> temperature_result [t]"
  by (auto simp: temperature_table_def temperature_result_def split: list.splits option.splits)

text \<open>The methods that talk to the server: their results, and that the connection is closed.\<close>

definition talking :: "string set" where
  "talking = {''getTemperatures'', ''clearGcode'', ''appendGcode'', ''appendFileContents'', ''startPrint'', ''stopPrint'',
     ''heatup'', ''getProgress'', ''getState''}"

text \<open>An outcome without the contexts.\<close>

fun forget_outcome :: "'p lua_outcome \<Rightarrow> 'p lua_outcome" where
  "forget_outcome (LReturn vs st) = LReturn vs (st\<lparr>lp_printers := []\<rparr>)"
| "forget_outcome (LError st) = LError (st\<lparr>lp_printers := []\<rparr>)"

abbreviation forget :: "'p lua_outcome option \<Rightarrow> 'p lua_outcome option" where
  "forget \<equiv> map_option forget_outcome"

text \<open>What \<open>initContext\<close> leaves: the connection is open when the method goes on.\<close>

lemma open_socket_open:
  "open_socket_of env ctx st = Some (None, st') \<Longrightarrow>
     csock (lp_link st') \<ge> 0 \<and> lp_printers st' = lp_printers st \<and> lp_log st' = lp_log st"
  by (auto simp: open_socket_of_def comm_is_socket_open_def comm_openSocket_def bind_eq_Some_conv split: if_splits)

lemma open_socket_failed:
  "open_socket_of env ctx st = Some (Some p, st') \<Longrightarrow> csock (lp_link st') < 0"
  by (auto simp: open_socket_of_def comm_is_socket_open_def comm_openSocket_def bind_eq_Some_conv split: if_splits)

lemma open_log_keeps:
  "open_log_of env ctx st = Some (e, st') \<Longrightarrow> lp_link st' = lp_link st \<and> lp_printers st' = lp_printers st"
  by (auto simp: open_log_of_def bind_eq_Some_conv split: if_splits)

lemma upd_context_keeps [simp]:
  "lp_link (upd_context n f st) = lp_link st" "lp_log (upd_context n f st) = lp_log st"
  by (simp_all add: upd_context_def)

text \<open>Where \<open>initContext\<close> can end.\<close>

lemma with_context_cases:
  assumes "with_context env st args k = Some out"
  obtains (bad_userdata) "getContext args = Inl ()" "out = LError st"
    | (stopped) t st1 where "out = LReturn (nil_and t) st1" "csock (lp_link st) < 0 \<longrightarrow> csock (lp_link st1) < 0"
        "t \<noteq> ''missing argument''"
    | (went) n st2 where "getContext args = Inr (Some n)" "csock (lp_link st2) \<ge> 0" "the_context st n \<noteq> None"
        "lp_printers st2 = lp_printers st" "k (upd_context n (\<lambda>c. c\<lparr>pd_initialized := True\<rparr>) st2) = Some out"
proof (cases "getContext args")
  case (Inl u)
  then show ?thesis using assms by (intro bad_userdata) (simp_all add: with_context_def)
next
  case c: (Inr r)
  show ?thesis
  proof (cases r)
    case None
    then show ?thesis using assms c by (intro stopped) (auto simp: with_context_def)
  next
    case (Some n)
    then obtain ctx e1 st1 where n: "the_context st n = Some ctx" "open_log_of env ctx st = Some (e1, st1)"
      using assms c by (auto simp: with_context_def bind_eq_Some_conv)
    note st1 = open_log_keeps [OF n(2)]
    show ?thesis
    proof (cases e1)
      case e: (Some p)
      with n(2) obtain m where "p = nil_and (''could not open log stream ('' @ m)"
        by (auto simp: open_log_of_def bind_eq_Some_conv split: if_splits)
      then show ?thesis using assms c Some n e st1 by (intro stopped) (auto simp: with_context_def)
    next
      case e: None
      then obtain e2 st2 where s: "open_socket_of env ctx st1 = Some (e2, st2)"
        using assms c Some n by (auto simp: with_context_def bind_eq_Some_conv)
      show ?thesis
      proof (cases e2)
        case e2: (Some p)
        with s obtain m where "p = nil_and (''could not open IPC socket ('' @ m)"
          by (auto simp: open_socket_of_def bind_eq_Some_conv split: if_splits)
        then show ?thesis
          using assms c Some n e e2 s st1 open_socket_failed by (intro stopped) (auto simp: with_context_def)
      next
        case e2: None
        then show ?thesis
          using assms c Some n e s st1 open_socket_open [of env ctx st1 st2]
          by (intro went [of n st2]) (auto simp: with_context_def)
      qed
    qed
  qed
qed

text \<open>With an open connection and log it goes on at once.\<close>

lemma with_open_context:
  assumes "the_context st n \<noteq> None" "csock (lp_link st) \<ge> 0" "log_is_open (lp_log st)"
  shows "with_context env st (LPrinter n # rest) k = k (upd_context n (\<lambda>c. c\<lparr>pd_initialized := True\<rparr>) st)"
  using assms by (auto simp: with_context_def getContext_def lua_arg_def open_log_of_def open_socket_of_def comm_is_socket_open_def)

text \<open>
  The contract of a method that talks to the server, with \<open>k\<close> behind its \<open>initContext\<close>:
  the results conform, the connection is closed afterwards (but for \<open>bad\<close> arguments), an error leaves
  everything as it is, and neither the contexts nor the first argument matter any more.
\<close>

locale server_call =
  fixes name :: string
    and bad :: "lua_val list \<Rightarrow> bool"
    and f :: "'p lua_method"
    and k :: "'p lua_env \<Rightarrow> lua_val list \<Rightarrow> 'p lua_process \<Rightarrow> 'p lua_outcome option"
  assumes begins: "f env st args = with_context env st args (k env args)"
    and returns: "k env args st = Some (LReturn vs st') \<Longrightarrow> conforms name vs \<and> (\<not> bad args \<longrightarrow> csock (lp_link st') = -1)"
    and stops: "k env args st = Some (LError st') \<Longrightarrow> st' = st"
    and no_contexts: "forget (k env args (st\<lparr>lp_printers := ps\<rparr>)) = forget (k env args st)"
    and no_printer: "k env (x # rest) = k env (y # rest)"
begin

lemma result_conforms:
  assumes "f env st args = Some (LReturn vs st')"
  shows "conforms name vs"
  using assms [unfolded begins]
proof (cases rule: with_context_cases)
  case (went n st2)
  then show ?thesis using returns by blast
qed simp_all

lemma closes:
  assumes "f env st args = Some (LReturn vs st')" "\<not> bad args" "csock (lp_link st) = -1"
  shows "comm_is_socket_open (lp_link st') = 0"
  using assms(1) [unfolded begins]
proof (cases rule: with_context_cases)
  case (went n st2)
  then show ?thesis using returns assms(2) by (force simp: comm_is_socket_open_def)
qed (use assms(3) in \<open>auto simp: comm_is_socket_open_def\<close>)

lemma other_printer:
  assumes "the_context st a \<noteq> None" "the_context st b \<noteq> None" "csock (lp_link st) \<ge> 0" "log_is_open (lp_log st)"
  shows "forget (f env st (LPrinter b # rest)) = forget (f env st (LPrinter a # rest))"
proof -
  have "forget (f env st (LPrinter n # rest)) = forget (k env (LNil # rest) st)" if "the_context st n \<noteq> None" for n
    using no_contexts no_printer [of env "LPrinter n" rest LNil]
    by (simp add: begins with_open_context [OF that assms(3,4)] upd_context_def)
  from this [OF assms(1)] this [OF assms(2)] show ?thesis by simp
qed

end

text \<open>The methods that return a status.\<close>

lemma status_request_forget:
  "forget (status_request env req (st\<lparr>lp_printers := ps\<rparr>)) = forget (status_request env req st)"
  by (auto simp: status_request_def close_link_def split: bind_splits)

lemma status_request_no_error [simp]: "status_request env req st \<noteq> Some (LError st')"
  by (auto simp: status_request_def bind_eq_Some_conv)

lemma lua_arg_Cons [simp]:
  "lua_arg (x # rest) 2 = lua_arg rest 1" "lua_arg (x # rest) 3 = lua_arg rest 2" "lua_arg (x # rest) 4 = lua_arg rest 3"
  by (auto simp: lua_arg_def numeral_eq_Suc)

lemma success_status: "name \<in> talking - {''getTemperatures'', ''getProgress'', ''getState''} \<Longrightarrow> success name [LBool True]"
  by (auto simp: success_def talking_def)

lemma status_ok:
  assumes "name \<in> talking - {''getTemperatures'', ''getProgress'', ''getState''}"
    and "status_request env req st = Some (LReturn vs st')"
  shows "conforms name vs \<and> csock (lp_link st') = -1"
  using status_request_Return [OF assms(2)] success_status [OF assms(1)] by (auto simp: conforms_def)

lemma status_talks:
  assumes n: "name \<in> talking - {''getTemperatures'', ''getProgress'', ''getState''}"
    and f: "\<And>env st args. f env st args = with_context env st args (status_request env (req env))"
  shows "server_call name (\<lambda>_. False) f (\<lambda>env args. status_request env (req env))"
  by unfold_locales (auto simp: f status_request_forget dest: status_ok [OF n])

text \<open>
  The methods that return a status: an argument that raises an error, a message for \<open>bad\<close>
  arguments, or one request.
\<close>

definition status_shape :: "(lua_val list \<Rightarrow> bool) \<Rightarrow> 'p lua_env \<Rightarrow> lua_val list \<Rightarrow> ('p lua_process \<Rightarrow> 'p lua_outcome option) \<Rightarrow> bool" where
  "status_shape bad env args k \<longleftrightarrow>
     k = (\<lambda>st. Some (LError st)) \<or> (bad args \<and> (\<exists>t. k = (\<lambda>st. Some (LReturn (nil_and t) st)))) \<or>
     (\<exists>req. k = status_request env req)"

lemma shape_talks:
  assumes n: "name \<in> talking - {''getTemperatures'', ''getProgress'', ''getState''}"
    and f: "\<And>env st args. f env st args = with_context env st args (k env args)"
    and k: "\<And>env args. status_shape bad env args (k env args)"
    and rest: "\<And>env x y rest. k env (x # rest) = k env (y # rest)"
  shows "server_call name bad f k"
proof -
  have "conforms name vs \<and> (\<not> bad args \<longrightarrow> csock (lp_link st') = -1)"
    if "k env args st = Some (LReturn vs st')" for env args st vs st'
    using k [of env args] that by (auto simp: status_shape_def dest: status_ok [OF n])
  moreover have "st' = st" if "k env args st = Some (LError st')" for env args st st'
    using k [of env args] that by (auto simp: status_shape_def)
  moreover have "forget (k env args (st\<lparr>lp_printers := ps\<rparr>)) = forget (k env args st)" for env args st ps
    using k [of env args] by (auto simp: status_shape_def status_request_forget)
  ultimately show ?thesis using f rest by unfold_locales blast+
qed

text \<open>The three methods that return numbers or a name.\<close>

lemma close_link_printers: "close_link env m (st\<lparr>lp_printers := ps\<rparr>) = (close_link env m st)\<lparr>lp_printers := ps\<rparr>"
  by (simp add: close_link_def)

definition value_request_by :: "'p lua_env \<Rightarrow> ('p comm \<Rightarrow> (int \<times> 'a \<times> 'p comm) option) \<Rightarrow> ('a \<Rightarrow> lua_val list option) \<Rightarrow>
    'p lua_process \<Rightarrow> 'p lua_outcome option" where
  "value_request_by env req vals st = do {
     (rv, v, m) \<leftarrow> req (lp_link st);
     if rv \<ge> 0 then map_option (\<lambda>vs. LReturn vs (close_link env m st)) (vals v)
     else Some (LReturn (initStackWithReturnStatus rv m) (close_link env m st))
   }"

lemma value_talks:
  assumes f: "\<And>env st args. f env st args = with_context env st args (value_request_by env (req env) vals)"
    and ok: "\<And>v vs. vals v = Some vs \<Longrightarrow> success name vs"
  shows "server_call name (\<lambda>_. False) f (\<lambda>env args. value_request_by env (req env) vals)"
proof -
  have "conforms name vs \<and> csock (lp_link st') = -1"
    if v: "value_request_by env (req env) vals st = Some (LReturn vs st')" for env st vs st'
  proof -
    obtain rv v m where r: "req env (lp_link st) = Some (rv, v, m)"
      using v unfolding value_request_by_def by (cases "req env (lp_link st)") auto
    have g: "(if rv \<ge> 0 then map_option (\<lambda>vs. LReturn vs (close_link env m st)) (vals v)
        else Some (LReturn (initStackWithReturnStatus rv m) (close_link env m st))) = Some (LReturn vs st')"
      using v by (simp add: value_request_by_def r)
    show ?thesis
      by (cases "rv \<ge> 0") (use g in \<open>auto simp: conforms_def initStack_failure dest: ok\<close>)
  qed
  moreover have "value_request_by env (req env) vals st \<noteq> Some (LError st')" for env st st'
    by (cases "req env (lp_link st)") (auto simp: value_request_by_def split: if_splits)
  moreover have "forget (value_request_by env (req env) vals (st\<lparr>lp_printers := ps\<rparr>)) = forget (value_request_by env (req env) vals st)"
    for env st ps
    by (cases "req env (lp_link st)") (auto simp: value_request_by_def close_link_printers option.map_comp o_def)
  ultimately show ?thesis using f by unfold_locales blast+
qed

text \<open>Each of the nine methods keeps the contract.\<close>

interpretation clearGcode: server_call "''clearGcode''" "\<lambda>_. False" l_clearGcode
    "\<lambda>env args. status_request env (comm_clearGCode (le_comm env))"
  by (rule status_talks) (simp_all add: talking_def l_clearGcode_def)

interpretation startPrint: server_call "''startPrint''" "\<lambda>_. False" l_startPrint
    "\<lambda>env args. status_request env (comm_startPrintGCode (le_comm env))"
  by (rule status_talks) (simp_all add: talking_def l_startPrint_def)

interpretation appendGcode: server_call "''appendGcode''" "\<lambda>args. length args < 2" l_appendGcode "\<lambda>env args st.
     if length args < 2 then Some (LReturn (nil_and ''missing argument'') st)
     else case append_arguments env args of
       None \<Rightarrow> Some (LError st)
     | Some (code, tot, md) \<Rightarrow> status_request env (comm_sendGCodeData (le_comm env) code tot (Some md)) st"
proof (rule shape_talks, goal_cases)
  case (3 env args)
  then show ?case by (cases "append_arguments env args"; cases "length args < 2") (auto simp: status_shape_def)
next
  case (4 env x y rest)
  then show ?case by (simp add: append_arguments_def arg_integer_def arg_string_def cong: if_cong)
qed (simp_all add: talking_def l_appendGcode_def)

interpretation appendFileContents: server_call "''appendFileContents''" "\<lambda>_. False" l_appendFileContents "\<lambda>env args st.
     case arg_string env args 2 of
       None \<Rightarrow> Some (LError st)
     | Some f \<Rightarrow> status_request env (comm_sendGCodeFile (le_comm env) f) st"
proof (rule shape_talks, goal_cases)
  case (3 env args)
  then show ?case by (cases "arg_string env args 2") (auto simp: status_shape_def)
qed (simp_all add: talking_def l_appendFileContents_def arg_string_def)

interpretation stopPrint: server_call "''stopPrint''" "\<lambda>_. False" l_stopPrint "\<lambda>env args st.
     if length args > 1 then
       (case arg_string env args 2 of
          None \<Rightarrow> Some (LError st)
        | Some code \<Rightarrow> status_request env (comm_stopPrintGCode (le_comm env) (Some code)) st)
     else status_request env (comm_stopPrintGCode (le_comm env) None) st"
proof (rule shape_talks, goal_cases)
  case (3 env args)
  then show ?case by (cases "arg_string env args 2"; cases "length args > 1") (auto simp: status_shape_def)
qed (simp_all add: talking_def l_stopPrint_def arg_string_def cong: if_cong)

interpretation heatup: server_call "''heatup''" "\<lambda>_. False" l_heatup "\<lambda>env args st.
     case arg_integer env args 2 of
       None \<Rightarrow> Some (LError st)
     | Some n \<Rightarrow> status_request env (comm_heatup (le_comm env) (to_int n)) st"
proof (rule shape_talks, goal_cases)
  case (3 env args)
  then show ?case by (cases "arg_integer env args 2") (auto simp: status_shape_def)
qed (simp_all add: talking_def l_heatup_def arg_integer_def)

interpretation getTemperatures: server_call "''getTemperatures''" "\<lambda>_. False" l_getTemperatures
    "\<lambda>env args. value_request_by env
      (read_temperatures (le_comm env) [IPC_TEMP_HOTEND, IPC_TEMP_HOTEND_TGT, IPC_TEMP_BED, IPC_TEMP_BED_TGT, IPC_TEMP_HEATING])
      (\<lambda>vs. map_option (\<lambda>t. [t]) (temperature_table vs))"
proof (rule value_talks, goal_cases)
  case 1
  then show ?case
    by (simp add: l_getTemperatures_def value_request_by_def [abs_def] Let_def option.map_comp o_def
        del: read_temperatures.simps cong: if_cong)
qed (auto simp: success_def dest: temperature_table_Some)

interpretation getProgress: server_call "''getProgress''" "\<lambda>_. False" l_getProgress
    "\<lambda>env args. value_request_by env (comm_getProgress (le_comm env))
      (\<lambda>xs. if length xs = 7 then Some (map LNumber xs) else None)"
proof (rule value_talks, goal_cases)
  case 1
  then show ?case
    by (simp add: l_getProgress_def value_request_by_def [abs_def] Let_def if_distrib [of "map_option _"] cong: if_cong)
qed (auto simp: success_def split: if_splits)

interpretation getState: server_call "''getState''" "\<lambda>_. False" l_getState
    "\<lambda>env args. value_request_by env (comm_getState (le_comm env)) (map_option (\<lambda>t. [LString t]))"
proof (rule value_talks, goal_cases)
  case 1
  then show ?case
    by (simp add: l_getState_def value_request_by_def [abs_def] Let_def option.map_comp o_def cong: if_cong)
qed (auto simp: success_def)

lemma talking_methods:
  assumes "(name, f) \<in> set print3d_m" "name \<in> talking"
  obtains k where "server_call name (\<lambda>args. name = ''appendGcode'' \<and> length args < 2) f k"
proof -
  have "name = ''getTemperatures'' \<and> f = l_getTemperatures \<or> name = ''clearGcode'' \<and> f = l_clearGcode \<or>
      name = ''appendGcode'' \<and> f = l_appendGcode \<or> name = ''appendFileContents'' \<and> f = l_appendFileContents \<or>
      name = ''startPrint'' \<and> f = l_startPrint \<or> name = ''stopPrint'' \<and> f = l_stopPrint \<or>
      name = ''heatup'' \<and> f = l_heatup \<or> name = ''getProgress'' \<and> f = l_getProgress \<or>
      name = ''getState'' \<and> f = l_getState"
    using assms by (auto simp: print3d_m_def talking_def)
  then have "\<exists>k. server_call name (\<lambda>args. name = ''appendGcode'' \<and> length args < 2) f k"
    using clearGcode.server_call_axioms startPrint.server_call_axioms appendGcode.server_call_axioms
      appendFileContents.server_call_axioms stopPrint.server_call_axioms heatup.server_call_axioms
      getTemperatures.server_call_axioms getProgress.server_call_axioms getState.server_call_axioms
    by (elim disjE conjE; hypsubst) (simp, blast)+
  then show ?thesis using that by blast
qed

lemma talking_Return:
  assumes "(name, f) \<in> set print3d_m" "name \<in> talking" "f env st args = Some (LReturn vs st')"
  shows "conforms name vs"
proof -
  obtain k where "server_call name (\<lambda>args. name = ''appendGcode'' \<and> length args < 2) f k"
    using talking_methods [OF assms(1,2)] .
  then show ?thesis using assms(3) by (rule server_call.result_conforms)
qed

lemma bare_context_Return:
  "use_context st args g = Some (LReturn vs st') \<Longrightarrow> \<exists>n ctx. g n ctx = Some (LReturn vs st')"
  by (auto simp: use_context_def bind_eq_Some_conv split: sum.splits option.splits)

lemma other_methods:
  assumes "(name, f) \<in> set print3d_m" "name \<notin> talking"
  shows "name = ''__gc'' \<and> f = l_lua_gc \<or> name = ''__tostring'' \<and> f = l_lua_tostring \<or> name = ''getId'' \<and> f = l_lua_getId \<or>
      name = ''hasSocket'' \<and> f = l_lua_hasSocket \<or> name = ''setLocalLogStream'' \<and> f = l_setLocalLogStream \<or>
      name = ''setLocalLogLevel'' \<and> f = l_setLocalLogLevel"
  using assms by (auto simp: print3d_m_def talking_def)

lemma other_Return:
  "l_lua_gc env st args = Some (LReturn vs st') \<Longrightarrow> vs = []"
  "l_lua_tostring env st args = Some (LReturn vs st') \<Longrightarrow> \<exists>t. vs = [LString t]"
  "l_lua_getId env st args = Some (LReturn vs st') \<Longrightarrow> \<exists>t. vs = [LString t]"
  "l_lua_hasSocket env st args = Some (LReturn vs st') \<Longrightarrow> (\<exists>b. vs = [LBool b]) \<or> failure vs"
  by (auto simp: l_lua_gc_def l_lua_tostring_def l_lua_getId_def l_lua_hasSocket_def Let_def failure_def nil_and_def
      dest!: bare_context_Return split: sum.splits option.splits if_splits)

lemma setters_Return:
  "l_setLocalLogStream env st args = Some (LReturn vs st') \<Longrightarrow> vs = [LBool True] \<or> failure vs"
  "l_setLocalLogLevel env st args = Some (LReturn vs st') \<Longrightarrow> vs = [LBool True] \<or> failure vs"
  by (auto simp: l_setLocalLogStream_def l_setLocalLogLevel_def Let_def failure_def nil_and_def return_top_def bind_eq_Some_conv
      split: sum.splits option.splits if_splits lua_val.splits)

lemma other_conforms:
  assumes "(name, f) \<in> set print3d_m" "name \<notin> talking" "f env st args = Some (LReturn vs st')"
  shows "conforms name vs"
  using other_methods [OF assms(1,2)] assms(3)
  by (elim disjE conjE; hypsubst)
    (auto simp: conforms_def success_def dest: other_Return setters_Return)

section \<open>Claims\<close>

text \<open>
  An environment to evaluate: servers that answer every command with OK. The other end is the path the
  client is connected to and the paths at which commands were received.
\<close>

definition OK_reply :: bytes where
  "OK_reply = (case ipc_construct_cmd (\<lambda>n. True) IPC_CMDR_OK None [] of Some (Some b) \<Rightarrow> b | _ \<Rightarrow> [])"

definition lua_demo_env :: "(string \<times> string list) lua_env" where
  "lua_demo_env = \<lparr>
     le_comm = \<lparr>calloc = \<lambda>n. True, cbulk = False, os_connect = \<lambda>path (_, received). (4, path, received),
       os_close = \<lambda>fd p. (0, p), exchange = \<lambda>fd b (path, received). (int (length b), OK_reply, path, received @ [path])\<rparr>,
     le_log = \<lparr>os_fclose = \<lambda>s. 0, os_pclose = \<lambda>s. 0, os_fopen = \<lambda>f. True, os_popen = \<lambda>f. True\<rparr>,
     checkinteger = \<lambda>v. case v of LNumber n \<Rightarrow> Some n | _ \<Rightarrow> None,
     checkstring = \<lambda>v. case v of LString t \<Rightarrow> Some t | _ \<Rightarrow> None,
     isnumber = \<lambda>v. case v of LNumber n \<Rightarrow> True | _ \<Rightarrow> False,
     getfield = \<lambda>v k. case v of LTable xs \<Rightarrow> Some (case map_of xs k of Some x \<Rightarrow> x | None \<Rightarrow> LNil) | _ \<Rightarrow> None,
     errno_text = ''error'', le_strerror = \<lambda>e. ''error'', stat_socket = \<lambda>p. Inr True, dev_dir = Some []\<rparr>"

definition lua_demo :: "(string \<times> string list) lua_process" where
  "lua_demo = \<lparr>lp_link = \<lparr>csock = -1, cerror = None, peer = ([], [])\<rparr>, lp_log = clogger_init,
     lp_printers = map (\<lambda>d. \<lparr>pd_deviceId = d, pd_initialized = False, pd_logLevel = VERBOSE, pd_logStream = Some Std_err,
       pd_freed = False\<rparr>) [''ttyACM0'', ''ttyACM1'']\<rparr>"

text \<open>C18: What a Lua program can rely on: a method of a printer that returns gives either what its name
  promises (a table of five temperatures, seven numbers, a name, a boolean, or just true) or a failure,
  nil with a message or false with a status; and \<open>getPrinter\<close> gives a new printer or a failure.\<close>

theorem lua_results_typed:
  assumes "(name, f) \<in> set print3d_m" "f env st args = Some (LReturn vs st')"
    and "l_getPrinter env st0 args0 = Some (LReturn vs0 st0')"
  shows "conforms name vs \<and> (vs0 = [LPrinter (length (lp_printers st0))] \<or> failure vs0)"
proof
  show "conforms name vs"
    by (cases "name \<in> talking") (use talking_Return other_conforms assms(1,2) in blast)+
  show "vs0 = [LPrinter (length (lp_printers st0))] \<or> failure vs0"
    using assms(3) by (auto simp: l_getPrinter_def failure_def nil_and_def Let_def
        split: if_splits option.splits slot.splits)
qed

lemma demo_clear:
  "l_clearGcode lua_demo_env lua_demo [LPrinter 0] = Some (LReturn [LBool True]
     \<lparr>lp_link = \<lparr>csock = -1, cerror = None, peer = (''/tmp/print3d-ttyACM0'', [''/tmp/print3d-ttyACM0''])\<rparr>,
      lp_log = clogger_init\<lparr>cl_stream := Some Std_err, cl_level := VERBOSE\<rparr>,
      lp_printers = (lp_printers lua_demo)[0 := (lp_printers lua_demo ! 0)\<lparr>pd_initialized := True\<rparr>]\<rparr>)"
  by code_simp

lemma demo_printer:
  "l_getPrinter lua_demo_env lua_demo [LString ''ttyUSB0''] = Some (LReturn [LPrinter 2] (lua_demo\<lparr>lp_printers := lp_printers lua_demo @
     [\<lparr>pd_deviceId = ''ttyUSB0'', pd_initialized = False, pd_logLevel = VERBOSE, pd_logStream = Some Std_err, pd_freed = False\<rparr>]\<rparr>))"
  by code_simp

lemma clearGcode_listed: "(''clearGcode'', l_clearGcode) \<in> set print3d_m"
  by (simp add: print3d_m_def)

theorem lua_results_typed_witness:
  "conforms ''clearGcode'' [LBool True] \<and> [LPrinter 2] = [LPrinter (length (lp_printers lua_demo))]"
  using lua_results_typed [OF clearGcode_listed demo_clear demo_printer] by (auto simp: failure_def)

text \<open>C19: Every method that talks to the server and returns leaves no connection behind, when there
  was none before; the one exception is \<open>appendGcode\<close> without a text.\<close>

theorem lua_connection_closed:
  assumes "(name, f) \<in> set print3d_m" "name \<in> talking" "\<not> (name = ''appendGcode'' \<and> length args < 2)"
    and "csock (lp_link st) = -1" "f env st args = Some (LReturn vs st')"
  shows "comm_is_socket_open (lp_link st') = 0"
proof -
  obtain k where "server_call name (\<lambda>args. name = ''appendGcode'' \<and> length args < 2) f k"
    using talking_methods [OF assms(1,2)] .
  then show ?thesis using assms(5,3,4) by (rule server_call.closes)
qed

theorem lua_connection_closed_witness:
  "comm_is_socket_open \<lparr>csock = -1, cerror = None, peer = (''/tmp/print3d-ttyACM0'', [''/tmp/print3d-ttyACM0''])\<rparr> = 0"
  using lua_connection_closed [OF clearGcode_listed _ _ _ demo_clear] by (simp add: talking_def lua_demo_def)

lemma context_survives:
  assumes "lp_printers st2 = lp_printers st" "the_context st m \<noteq> None"
  shows "the_context (upd_context n (\<lambda>c. c\<lparr>pd_initialized := True\<rparr>) st2) m \<noteq> None"
proof -
  have "pd_freed ((xs[n := (xs ! n)\<lparr>pd_initialized := True\<rparr>]) ! m) = pd_freed (xs ! m)" for xs
    by (cases "n = m"; cases "m < length xs") (simp_all add: list_update_beyond)
  with assms show ?thesis by (auto simp: the_context_def upd_context_def split: if_splits)
qed

text \<open>A call that stops behind \<open>initContext\<close>: for a missing text, or for an argument of the wrong
  type.\<close>

definition left_open :: "'p lua_env \<Rightarrow> 'p lua_process \<Rightarrow> nat \<Rightarrow> 'p lua_process \<Rightarrow> bool" where
  "left_open env st a st1 \<longleftrightarrow>
     l_appendGcode env st [LPrinter a] = Some (LReturn (nil_and ''missing argument'') st1) \<or>
     (\<exists>name f args. (name, f) \<in> set print3d_m \<and> name \<in> talking \<and> f env st (LPrinter a # args) = Some (LError st1))"

text \<open>The state such a call leaves is the one behind \<open>initContext\<close>.\<close>

lemma left_behind:
  assumes "with_context env st (LPrinter a # args) k = Some out" "\<And>st'. k st' = Some out \<Longrightarrow> st' = st1"
    and "out = LError st1 \<or> out = LReturn (nil_and ''missing argument'') st1"
  obtains st2 where "st1 = upd_context a (\<lambda>c. c\<lparr>pd_initialized := True\<rparr>) st2" "lp_printers st2 = lp_printers st"
    "csock (lp_link st2) \<ge> 0" "the_context st a \<noteq> None"
  using assms(1)
proof (cases rule: with_context_cases)
  case bad_userdata
  then show ?thesis by (simp add: getContext_def lua_arg_def)
next
  case (stopped t st')
  then show ?thesis using assms(3) by (simp add: nil_and_def)
next
  case (went n st2)
  then show ?thesis
    using that [of st2] assms(2) by (simp add: getContext_def lua_arg_def)
qed

lemma left_open_state:
  assumes "left_open env st a st1"
  obtains st2 where "st1 = upd_context a (\<lambda>c. c\<lparr>pd_initialized := True\<rparr>) st2" "lp_printers st2 = lp_printers st"
    "csock (lp_link st2) \<ge> 0" "the_context st a \<noteq> None"
  using assms unfolding left_open_def
proof (elim disjE exE conjE)
  assume l: "l_appendGcode env st [LPrinter a] = Some (LReturn (nil_and ''missing argument'') st1)"
  show ?thesis by (rule left_behind [OF l [unfolded l_appendGcode_def] _ disjI2 [OF refl] that]) auto
next
  fix name f args
  assume f: "(name, f) \<in> set print3d_m" "name \<in> talking" "f env st (LPrinter a # args) = Some (LError st1)"
  obtain k where k: "server_call name (\<lambda>args. name = ''appendGcode'' \<and> length args < 2) f k"
    using talking_methods [OF f(1,2)] .
  show ?thesis
    by (rule left_behind [OF f(3) [unfolded server_call.begins [OF k]] _ disjI1 [OF refl] that])
      (use server_call.stops [OF k] in blast)
qed

text \<open>C20: The wrong printer: a call that ends early behind \<open>initContext\<close> (\<open>appendGcode\<close>
  without a text, or an argument of the wrong type) leaves its connection open, and from then on a call on
  any other printer does exactly what the same call on this printer does: it goes to this printer's
  server.\<close>

theorem lua_wrong_printer:
  assumes "left_open env st a st1" "log_is_open (lp_log st1)" "the_context st b \<noteq> None"
    and "(name, f) \<in> set print3d_m" "name \<in> talking"
  shows "comm_is_socket_open (lp_link st1) = 1 \<and>
    forget (f env st1 (LPrinter b # args)) = forget (f env st1 (LPrinter a # args))"
proof -
  obtain st2 where st1: "st1 = upd_context a (\<lambda>c. c\<lparr>pd_initialized := True\<rparr>) st2" and ps: "lp_printers st2 = lp_printers st"
    and "csock (lp_link st2) \<ge> 0" and a: "the_context st a \<noteq> None"
    using left_open_state [OF assms(1)] .
  then have "the_context st1 a \<noteq> None" "the_context st1 b \<noteq> None" "csock (lp_link st1) \<ge> 0"
    using context_survives [OF ps a] context_survives [OF ps assms(3)] by simp_all
  moreover obtain k where "server_call name (\<lambda>args. name = ''appendGcode'' \<and> length args < 2) f k"
    using talking_methods [OF assms(4,5)] .
  ultimately show ?thesis
    using server_call.other_printer assms(2) by (force simp: comm_is_socket_open_def)
qed

definition lua_demo_stopped :: "(string \<times> string list) lua_process" where
  "lua_demo_stopped =
     (case l_appendGcode lua_demo_env lua_demo [LPrinter 0] of Some (LReturn vs st1) \<Rightarrow> st1 | _ \<Rightarrow> lua_demo)"

lemma demo_stopped:
  "left_open lua_demo_env lua_demo 0 lua_demo_stopped" "log_is_open (lp_log lua_demo_stopped)"
  "the_context lua_demo 1 \<noteq> None"
  "peer (lp_link lua_demo_stopped) = (''/tmp/print3d-ttyACM0'', [])"
proof -
  have "l_appendGcode lua_demo_env lua_demo [LPrinter 0] = Some (LReturn (nil_and ''missing argument'') lua_demo_stopped)"
    by code_simp
  then show "left_open lua_demo_env lua_demo 0 lua_demo_stopped"
    by (simp add: left_open_def)
  show "log_is_open (lp_log lua_demo_stopped)" by code_simp
  show "the_context lua_demo 1 \<noteq> None" by code_simp
  show "peer (lp_link lua_demo_stopped) = (''/tmp/print3d-ttyACM0'', [])" by code_simp
qed

lemma demo_stopped_clear:
  "map_option (\<lambda>out. case out of LReturn vs st \<Rightarrow> (vs, peer (lp_link st)) | LError st \<Rightarrow> ([], peer (lp_link st)))
     (forget (l_clearGcode lua_demo_env lua_demo_stopped [LPrinter 0])) =
   Some ([LBool True], ''/tmp/print3d-ttyACM0'', [''/tmp/print3d-ttyACM0''])"
  by code_simp

theorem lua_wrong_printer_witness:
  "map_option (\<lambda>out. case out of LReturn vs st \<Rightarrow> (vs, peer (lp_link st)) | LError st \<Rightarrow> ([], peer (lp_link st)))
     (forget (l_clearGcode lua_demo_env lua_demo_stopped [LPrinter 1])) =
   Some ([LBool True], ''/tmp/print3d-ttyACM0'', [''/tmp/print3d-ttyACM0''])"
  using lua_wrong_printer [OF demo_stopped(1,2,3) clearGcode_listed, of "[]"] demo_stopped_clear
  by (simp add: talking_def)

end
