(* ===== verification/LuaJob.thy ===== *)
theory LuaJob
  imports PrintJob LuaBinding
begin

text \<open>
  A print job from a Lua program: each method connects, sends its command and closes the connection, so
  the server gets and loses a client for every call. The Lua module with the model of the server at the other
  end, and the Marlin driver behind it.
\<close>

section \<open>Connecting and closing\<close>

text \<open>
  The server has \<open>i\<close> other clients. A connection to its path makes a new client, with the descriptor
  \<open>sfd\<close> in the server; closing it is the end of the stream to the server.
\<close>

definition serving :: "'a AbstractDriver_scheme env \<Rightarrow> (bytes \<Rightarrow> bytes list) \<Rightarrow> nat \<Rightarrow> int \<Rightarrow> string \<Rightarrow>
    'a AbstractDriver_scheme Server option comm_env \<Rightarrow> bool" where
  "serving env pieces i sfd path cenv \<longleftrightarrow> serves env pieces i cenv \<and> 0 \<le> sfd \<and> sfd < FD_SETSIZE \<and>
     (\<forall>s. \<exists>fd \<ge> 0. os_connect cenv path (Some s) = (fd, accept_client (Some sfd) s)) \<and>
     (\<forall>fd s. os_close cenv fd (Some s) = (0, clients_loop env (\<lambda>_. [RdEOF]) 1 i s))"

lemma accept_facts:
  assumes "0 \<le> sfd" "sfd < FD_SETSIZE" "length (clients s) = i"
  obtains s1 where "accept_client (Some sfd) s = Some s1" "idle_client i s1" "\<not> cancelled (trx_of i s1)"
    "take i (clients s1) = clients s" "length (clients s1) = Suc i" "sdriver s1 = sdriver s"
  using assms that by (auto simp: accept_client_def idle_client_def Client_init_def)

lemma close_facts:
  assumes "idle_client i s" "length (clients s) = Suc i"
  obtains s1 where "clients_loop env (\<lambda>_. [RdEOF]) 1 i s = Some s1" "clients s1 = take i (clients s)" "sdriver s1 = sdriver s"
  using assms that
  by (auto simp: idle_client_def client_readData_def readAndAppendAvailableData_def)

section \<open>One call\<close>

text \<open>Nothing stands in the way of opening the log: it is open, or there is no stream to close.\<close>

lemma open_log_succeeds: "\<exists>l. open_log_of lenv ctx st = Some (None, st\<lparr>lp_log := l\<rparr>)"
  by (cases "cl_stream (lp_log st)")
    (auto simp: open_log_of_def log_is_open_def log_open_stream_def log_close_def intro: exI [of _ "lp_log st"])

lemma call_served:
  assumes sv: "serving env pieces i sfd (ipc_construct_socket_path (pd_deviceId ctx)) (le_comm lenv)"
    and ctx: "the_context st a = Some ctx" "length (ipc_construct_socket_path (pd_deviceId ctx)) < 108"
    and st: "csock (lp_link st) = -1" "peer (lp_link st) = Some s" "length (clients s) = i"
    and req: "\<And>m s1. 0 \<le> csock m \<Longrightarrow> peer m = Some s1 \<Longrightarrow> idle_client i s1 \<Longrightarrow> \<not> cancelled (trx_of i s1) \<Longrightarrow>
        sdriver s1 = sdriver s \<Longrightarrow> length (clients s1) = Suc i \<Longrightarrow>
        \<exists>s2. req m = Some (0, m\<lparr>cerror := None, peer := Some s2\<rparr>) \<and> idle_client i s2 \<and> length (clients s2) = Suc i \<and> sdriver s2 = d2"
  obtains st' s' where "with_context lenv st (LPrinter a # rest) (status_request lenv req) = Some (LReturn [LBool True] st')"
    "csock (lp_link st') = -1" "peer (lp_link st') = Some s'" "length (clients s') = i" "sdriver s' = d2"
    "the_context st' a = Some (ctx\<lparr>pd_initialized := True\<rparr>)"
proof -
  let ?path = "ipc_construct_socket_path (pd_deviceId ctx)"
  have sfd: "0 \<le> sfd" "sfd < FD_SETSIZE" using sv by (simp_all only: serving_def)
  obtain s1 where s1: "accept_client (Some sfd) s = Some s1" "idle_client i s1" "\<not> cancelled (trx_of i s1)"
    "length (clients s1) = Suc i" "sdriver s1 = sdriver s"
    by (rule accept_facts [OF sfd st(3)])
  obtain fd where fd: "0 \<le> fd" "os_connect (le_comm lenv) ?path (Some s) = (fd, Some s1)"
    using sv s1(1) unfolding serving_def by metis
  obtain l where l: "open_log_of lenv ctx st = Some (None, st\<lparr>lp_log := l\<rparr>)"
    using open_log_succeeds by blast
  let ?m = "(lp_link st)\<lparr>csock := fd, peer := Some s1\<rparr>"
  let ?st = "st\<lparr>lp_log := l, lp_link := ?m\<rparr>"
  have op: "open_socket_of lenv ctx (st\<lparr>lp_log := l\<rparr>) = Some (None, ?st)"
    using st ctx(2) fd
    by (simp add: open_socket_of_def comm_is_socket_open_def comm_openSocket_def openSocketInternal_def Let_def)
  obtain s2 where s2: "req ?m = Some (0, ?m\<lparr>cerror := None, peer := Some s2\<rparr>)" "idle_client i s2"
    "length (clients s2) = Suc i" "sdriver s2 = d2"
    using req [of ?m s1] fd(1) s1 by auto
  obtain s3 where s3: "clients_loop env (\<lambda>_. [RdEOF]) 1 i s2 = Some s3" "clients s3 = take i (clients s2)" "sdriver s3 = sdriver s2"
    using close_facts [OF s2(2,3)] by blast
  have "os_close (le_comm lenv) fd (Some s2) = (0, Some s3)"
    using sv s3(1) by (simp add: serving_def)
  then have "close_link lenv (?m\<lparr>cerror := None, peer := Some s2\<rparr>) st' =
      st'\<lparr>lp_link := (lp_link st)\<lparr>csock := -1, cerror := None, peer := Some s3\<rparr>\<rparr>" for st'
    by (simp add: close_link_def comm_closeSocket_def)
  then have "with_context lenv st (LPrinter a # rest) (status_request lenv req) = Some (LReturn [LBool True]
      ((upd_context a (\<lambda>c. c\<lparr>pd_initialized := True\<rparr>) ?st)\<lparr>lp_link := (lp_link st)\<lparr>csock := -1, cerror := None, peer := Some s3\<rparr>\<rparr>))"
    using ctx(1) l op s2(1)
    by (simp add: with_context_def getContext_def lua_arg_def status_request_def initStackWithReturnStatus_def)
  with that show thesis
    using s2(3,4) s3 ctx(1) by (force simp: upd_context_def the_context_def split: if_splits)
qed

section \<open>The three requests\<close>

lemma clear_request:
  assumes "serves env pieces i cenv" "0 \<le> csock m" "peer m = Some s" "idle_client i s" "sdriver s = Some d"
  shows "\<exists>s2. comm_clearGCode cenv m = Some (0, m\<lparr>cerror := None, peer := Some s2\<rparr>) \<and> idle_client i s2 \<and>
    length (clients s2) = length (clients s) \<and> sdriver s2 = Some (op_clear (ops env) d)"
  using clearGCode_served [OF assms] assms(4)
  by (auto simp: idle_client_def push_sent_def nth_upd_client cancelAll_reads upd_client_def intro!: exI)

lemma append_request:
  assumes "serves env pieces i cenv" "0 \<le> csock m" "peer m = Some s" "idle_client i s" "\<not> cancelled (trx_of i s)"
    and "g \<noteq> []" "NUL \<notin> set g" "\<not> long_line g" "sdriver s = Some d"
    and "op_append (ops env) g (-1) (Some (meta (-1) (-1) None)) d = Some (GSR_OK, d1)"
  shows "\<exists>s2. comm_sendGCodeData cenv g (-1) (Some \<lparr>seq_number = -1, seq_total = -1, meta_source = None\<rparr>) m =
      Some (0, m\<lparr>cerror := None, peer := Some s2\<rparr>) \<and> idle_client i s2 \<and>
    length (clients s2) = length (clients s) \<and> sdriver s2 = Some d1"
proof -
  obtain replies where "comm_sendGCodeData cenv g (-1) (Some \<lparr>seq_number = -1, seq_total = -1, meta_source = None\<rparr>) m =
      Some (0, m\<lparr>cerror := None, peer := Some (push_sent i replies (close_trx i (s\<lparr>sdriver := Some d1\<rparr>)))\<rparr>)"
    by (rule send_text_served [OF assms, of "Some \<lparr>seq_number = -1, seq_total = -1, meta_source = None\<rparr>"])
      (simp_all add: md_num_def md_ttl_def md_src_def)
  then show ?thesis
    using assms(4) by (intro exI [of _ "push_sent i replies (close_trx i (s\<lparr>sdriver := Some d1\<rparr>))"])
      (simp add: idle_client_def push_sent_def close_trx_def nth_upd_client upd_client_def upd_trx_def)
qed

lemma start_request:
  assumes "serves env pieces i cenv" "0 \<le> csock m" "peer m = Some s" "idle_client i s" "sdriver s = Some d"
    and "op_start (ops env) d = Some (b, d1)"
  shows "\<exists>s2. comm_startPrintGCode cenv m = Some (0, m\<lparr>cerror := None, peer := Some s2\<rparr>) \<and> idle_client i s2 \<and>
    length (clients s2) = length (clients s) \<and> sdriver s2 = Some d1"
proof -
  let ?s2 = "push_sent i [ok_reply] (s\<lparr>sdriver := Some d1\<rparr>)"
  have calm: "calm env" using assms(1) by (simp add: serves_def)
  have "comm_startPrintGCode cenv m = Some (0, m\<lparr>cerror := None, peer := Some ?s2\<rparr>)"
    unfolding comm_startPrintGCode_def
    by (rule simple_request_served [OF assms(1-4) gcodeStart_calm [OF calm _ assms(5,6)]])
      (use assms(4) in \<open>simp_all add: idle_client_def\<close>)
  then show ?thesis
    using assms(4) by (intro exI [of _ ?s2]) (simp add: idle_client_def push_sent_def nth_upd_client upd_client_def)
qed

text \<open>C17: A print job from a Lua program. \<open>clearGcode\<close>, \<open>appendGcode\<close> and \<open>startPrint\<close> of a
  printer, one after the other, each over a connection of its own, with the server and an online Marlin driver
  at the other end and a text that fits (as for the command line): each returns true; the connections are closed
  and the server has the clients it had before; the driver holds exactly the lines of the text and has
  sent the first; and once the printer has acknowledged as many lines as there are, exactly the lines of the
  text have been sent, once each and in order, and the driver is idle.\<close>

theorem lua_print_job:
  fixes st :: "MarlinDriver Server option lua_process"
  assumes "serving env pieces i sfd (ipc_construct_socket_path (pd_deviceId ctx)) (le_comm lenv)" "ops env = marlin_ops clk"
    and "the_context st a = Some ctx" "length (ipc_construct_socket_path (pd_deviceId ctx)) < 108"
    and "csock (lp_link st) = -1" "peer (lp_link st) = Some s" "length (clients s) = i" "sdriver s = Some d"
    and "reachable d" "isConnected d" "isPrinterOnline d"
    and "int (length g) \<le> MAX_BUFFER_SIZE" "readable g" "NUL \<notin> set g" "\<not> long_line g" "checkstring lenv v = Some g"
  defines "ls \<equiv> gcode_lines (keepGpxMacroComments (gcodeBuffer d)) g"
  assumes "ls \<noteq> []" "\<forall>l \<in> set ls. readable l"
    and "\<forall>code \<in> set codes. response_readable code" "R_resend \<notin> set (map classify codes)"
    and "length ls \<le> oks (map classify codes)"
  shows "\<exists>st1 st2 st3 s' d' d''. l_clearGcode lenv st [LPrinter a] = Some (LReturn [LBool True] st1) \<and>
    l_appendGcode lenv st1 [LPrinter a, v] = Some (LReturn [LBool True] st2) \<and>
    l_startPrint lenv st2 [LPrinter a] = Some (LReturn [LBool True] st3) \<and>
    comm_is_socket_open (lp_link st3) = 0 \<and> peer (lp_link st3) = Some s' \<and> length (clients s') = i \<and>
    sdriver s' = Some d' \<and> mlines d' = ls \<and> dstate d' = PRINTING \<and>
    written (serial d') = written (serial d) @ [wire (hd ls)] \<and>
    responses d' codes = Some d'' \<and> written (serial d'') = written (serial d) @ map wire ls \<and>
    mlines d'' = [] \<and> dstate d'' = IDLE"
proof -
  let ?cenv = "le_comm lenv" and ?op = "ops env"
  have sv: "serves env pieces i ?cenv" using assms(1) by (simp only: serving_def)
  have gne: "g \<noteq> []" using assms(17,18) by auto
  obtain d1 d2 where d2: "AD_appendGCode g (-1) (Some (meta (-1) (-1) None)) (AD_clearGCode d) = Some (GSR_OK, d1)"
    "M_startPrint PRINTING d1 = Some (True, d2)" "reachable d2" "isConnected d2" "mlines d2 = ls" "dstate d2 = PRINTING"
    "written (serial d2) = written (serial d) @ [wire (hd ls)]"
  proof (rule clear_append_start [OF assms(9,10,12,13) assms(19) [unfolded ls_def], folded ls_def])
    fix d1 d2
    assume "AD_appendGCode g (-1) (Some (meta (-1) (-1) None)) (AD_clearGCode d) = Some (GSR_OK, d1)"
      "M_startPrint PRINTING d1 = Some (isPrinterOnline d, d2)" "reachable d2" "isConnected d2" "mlines d2 = ls"
      "dstate d2 = (if \<not> isPrinterOnline d then dstate d else if ls = [] then IDLE else PRINTING)"
      "written (serial d2) = written (serial d) @ (if isPrinterOnline d then map wire (take 1 ls) else [])"
    with assms(11,18) that show thesis by (cases ls) auto
  qed
  have ops: "op_append ?op g (-1) (Some (meta (-1) (-1) None)) (op_clear ?op d) = Some (GSR_OK, d1)"
    "op_start ?op d1 = Some (True, d2)"
    using d2(1,2) by (simp_all add: assms(2) marlin_ops_def)
  obtain st1 s1 where 1: "l_clearGcode lenv st [LPrinter a] = Some (LReturn [LBool True] st1)"
    "csock (lp_link st1) = -1" "peer (lp_link st1) = Some s1" "length (clients s1) = i" "sdriver s1 = Some (op_clear ?op d)"
    "the_context st1 a = Some (ctx\<lparr>pd_initialized := True\<rparr>)"
    unfolding l_clearGcode_def
    by (rule call_served [OF assms(1,3-7), where rest = "[]" and req = "comm_clearGCode ?cenv" and ?d2.0 = "Some (op_clear ?op d)"])
      (use clear_request [OF sv] assms(8) in metis)
  let ?ctx = "ctx\<lparr>pd_initialized := True\<rparr>"
  have ctx: "pd_deviceId ?ctx = pd_deviceId ctx" "?ctx\<lparr>pd_initialized := True\<rparr> = ?ctx" by simp_all
  have "append_arguments lenv [LPrinter a, v] = Some (g, -1, \<lparr>seq_number = -1, seq_total = -1, meta_source = None\<rparr>)"
    using assms(14,16) by (simp add: append_arguments_def arg_string_def lua_arg_def cstr_no_NUL)
  then have app: "l_appendGcode lenv st1 [LPrinter a, v] = with_context lenv st1 [LPrinter a, v] (status_request lenv
      (comm_sendGCodeData ?cenv g (-1) (Some \<lparr>seq_number = -1, seq_total = -1, meta_source = None\<rparr>)))"
    by (simp add: l_appendGcode_def)
  obtain st2 s2 where 2: "l_appendGcode lenv st1 [LPrinter a, v] = Some (LReturn [LBool True] st2)"
    "csock (lp_link st2) = -1" "peer (lp_link st2) = Some s2" "length (clients s2) = i" "sdriver s2 = Some d1"
    "the_context st2 a = Some (ctx\<lparr>pd_initialized := True\<rparr>)"
    unfolding app
    by (rule call_served [OF assms(1) [folded ctx(1)] 1(6) assms(4) [folded ctx(1)] 1(2-4), where rest = "[v]" and ?d2.0 = "Some d1"
          and req = "comm_sendGCodeData ?cenv g (-1) (Some \<lparr>seq_number = -1, seq_total = -1, meta_source = None\<rparr>)", unfolded ctx(2)])
      (use append_request [OF sv _ _ _ _ gne assms(14,15) _ ops(1)] 1(5) in metis)
  obtain st3 s3 where 3: "l_startPrint lenv st2 [LPrinter a] = Some (LReturn [LBool True] st3)"
    "csock (lp_link st3) = -1" "peer (lp_link st3) = Some s3" "length (clients s3) = i" "sdriver s3 = Some d2"
    unfolding l_startPrint_def
    by (rule call_served [OF assms(1) [folded ctx(1)] 2(6) assms(4) [folded ctx(1)] 2(2-4), where rest = "[]" and ?d2.0 = "Some d2"
          and req = "comm_startPrintGCode ?cenv"])
      (use start_request [OF sv _ _ _ _ ops(2)] 2(5) in metis)
  obtain d'' where "responses d2 codes = Some d''" "written (serial d'') = written (serial d2) @ map wire (tl ls)"
    "mlines d'' = []" "dstate d'' = IDLE"
    using acknowledged_print [OF reachable_inv [OF d2(3)] d2(4,5) assms(18) d2(6) assms(19-22)] by blast
  with 1(1) 2(1) 3 d2(5-7) assms(18) show ?thesis
    by (intro exI [of _ st1] exI [of _ st2] exI [of _ st3] exI [of _ s3] exI [of _ d2] exI [of _ d''])
      (cases ls; simp add: comm_is_socket_open_def)
qed

text \<open>The same with everything concrete: a server without clients whose driver is online, and the
  printer \<open>ttyACM0\<close>.\<close>

definition job_cenv :: "MarlinDriver Server option comm_env" where
  "job_cenv = demo_cenv\<lparr>os_connect := \<lambda>path p. (5, case p of None \<Rightarrow> None | Some s \<Rightarrow> accept_client (Some 6) s),
     os_close := \<lambda>fd p. (0, case p of None \<Rightarrow> None | Some s \<Rightarrow> clients_loop demo_env (\<lambda>_. [RdEOF]) 1 0 s)\<rparr>"

definition job_lenv :: "MarlinDriver Server option lua_env" where
  "job_lenv = \<lparr>
     le_comm = job_cenv,
     le_log = \<lparr>os_fclose = \<lambda>s. 0, os_pclose = \<lambda>s. 0, os_fopen = \<lambda>f. True, os_popen = \<lambda>f. True\<rparr>,
     checkinteger = \<lambda>v. case v of LNumber n \<Rightarrow> Some n | _ \<Rightarrow> None,
     checkstring = \<lambda>v. case v of LString t \<Rightarrow> Some t | _ \<Rightarrow> None,
     isnumber = \<lambda>v. case v of LNumber n \<Rightarrow> True | _ \<Rightarrow> False,
     getfield = \<lambda>v k. case v of LTable xs \<Rightarrow> Some (case map_of xs k of Some x \<Rightarrow> x | None \<Rightarrow> LNil) | _ \<Rightarrow> None,
     errno_text = ''error'', le_strerror = \<lambda>e. ''error'', stat_socket = \<lambda>p. Inr True, dev_dir = Some []\<rparr>"

definition job_ctx :: printerData_s where
  "job_ctx = \<lparr>pd_deviceId = ''ttyACM0'', pd_initialized = False, pd_logLevel = VERBOSE, pd_logStream = Some Std_err,
     pd_freed = False\<rparr>"

definition job_process :: "MarlinDriver Server option lua_process" where
  "job_process = \<lparr>lp_link = \<lparr>csock = -1, cerror = None, peer = Some (server_start 4 (Some idle_driver))\<rparr>,
     lp_log = clogger_init, lp_printers = [job_ctx]\<rparr>"

lemma job_facts:
  "serving demo_env bytewise 0 6 path (le_comm job_lenv)" "the_context job_process 0 = Some job_ctx"
  "length (ipc_construct_socket_path (pd_deviceId job_ctx)) < 108" "csock (lp_link job_process) = -1"
  "peer (lp_link job_process) = Some (server_start 4 (Some idle_driver))"
  "length (clients (server_start 4 (Some idle_driver))) = 0" "sdriver (server_start 4 (Some idle_driver)) = Some idle_driver"
  "checkstring job_lenv (LString two_lines) = Some two_lines"
proof -
  show "serving demo_env bytewise 0 6 path (le_comm job_lenv)"
    using demo_facts(1,2) by (simp add: serving_def serves_def job_lenv_def job_cenv_def demo_cenv_def FD_SETSIZE_def)
  show "length (ipc_construct_socket_path (pd_deviceId job_ctx)) < 108" by code_simp
qed (simp_all add: job_process_def job_ctx_def job_lenv_def the_context_def server_start_def)

theorem lua_print_job_witness:
  "\<exists>st1 st2 st3 s' d' d''. l_clearGcode job_lenv job_process [LPrinter 0] = Some (LReturn [LBool True] st1) \<and>
     l_appendGcode job_lenv st1 [LPrinter 0, LString two_lines] = Some (LReturn [LBool True] st2) \<and>
     l_startPrint job_lenv st2 [LPrinter 0] = Some (LReturn [LBool True] st3) \<and>
     peer (lp_link st3) = Some s' \<and> length (clients s') = 0 \<and> sdriver s' = Some d' \<and>
     written (serial d') = [''G28\<newline>''] \<and> responses d' [''ok'', ''echo:busy'', ''ok''] = Some d'' \<and>
     written (serial d'') = [''G28\<newline>'', ''G1 X2\<newline>''] \<and> dstate d'' = IDLE"
proof -
  have cl: "classify ''ok'' = R_ok" "classify ''echo:busy'' = R_none" by code_simp+
  have codes: "\<forall>code \<in> set [''ok'', ''echo:busy'', ''ok'']. response_readable code"
    "R_resend \<notin> set (map classify [''ok'', ''echo:busy'', ''ok''])"
    using cl by (simp_all add: response_readable_def)
  have k: "keepGpxMacroComments (gcodeBuffer idle_driver) = False" by (simp add: idle_facts GCodeBuffer_init_def)
  have w: "wire ''G28'' = ''G28\<newline>''" "wire ''G1 X2'' = ''G1 X2\<newline>''" by code_simp+
  have on: "isPrinterOnline idle_driver" by (simp add: isPrinterOnline_def idle_facts)
  have o: "ops demo_env = marlin_ops (at_second 1)" by (simp add: demo_env_def)
  note job = lua_print_job [where a = 0 and codes = "[''ok'', ''echo:busy'', ''ok'']",
      OF job_facts(1) o job_facts(2-7) idle_reachable idle_facts(3) on two_lines_facts(1,2,4,5) job_facts(8),
      unfolded k two_lines_lines, OF _ two_lines_facts(6) [unfolded two_lines_lines] codes]
  from job show ?thesis by (simp add: cl oks_def w idle_facts(4) del: fold_option.simps) blast
qed

end
