(* ===== verification/MainLoop.thy ===== *)
theory MainLoop
  imports MarlinFeed
begin

text \<open>
  A print carried by the main loop: iterations of the server's loop with a printing Marlin driver. What the
  printer answers arrives in any pieces, the driver asks for the temperature whenever its clock says so, new
  clients may connect; what is on the wire are the lines of the buffer with the temperature requests between them.
\<close>

section \<open>Answers in pieces\<close>

text \<open>The lines completed by a piece of text, and the unfinished line behind it, when \<open>acc\<close> was the
  unfinished line before it.\<close>

fun lines_done :: "string \<Rightarrow> string \<Rightarrow> string list" where
  "lines_done acc [] = []"
| "lines_done acc (c # cs) = (if c = NL then acc # lines_done [] cs else lines_done (acc @ [c]) cs)"

fun line_rest :: "string \<Rightarrow> string \<Rightarrow> string" where
  "line_rest acc [] = acc"
| "line_rest acc (c # cs) = (if c = NL then line_rest [] cs else line_rest (acc @ [c]) cs)"

lemma lines_done_append:
  "lines_done acc (t @ u) = lines_done acc t @ lines_done (line_rest acc t) u"
  "line_rest acc (t @ u) = line_rest (line_rest acc t) u"
  by (induction t arbitrary: acc) auto

lemma lines_done_text:
  "NL \<notin> set acc \<Longrightarrow> acc @ t = unlines (lines_done acc t) @ line_rest acc t \<and> NL \<notin> set (line_rest acc t) \<and>
     (\<forall>l \<in> set (lines_done acc t). NL \<notin> set l)"
proof (induction t arbitrary: acc)
  case (Cons c cs)
  show ?case
  proof (cases "c = NL")
    case True
    then show ?thesis using Cons.IH [of "[]"] Cons.prems by (auto simp: unlines_def)
  next
    case False
    then show ?thesis using Cons.IH [of "acc @ [c]"] Cons.prems by simp
  qed
qed (simp add: unlines_def)

text \<open>What the driver makes of a line, and how many lines of a text are acknowledgements.\<close>

definition answer :: "string \<Rightarrow> string" where
  "answer l = cstr (strip_cr l)"

definition acks :: "string list \<Rightarrow> nat" where
  "acks ls = oks (map (\<lambda>l. classify (answer l)) ls)"

lemma acks_append [simp]: "acks (xs @ ys) = acks xs + acks ys" "acks [] = 0"
  by (simp_all add: acks_def oks_def)

text \<open>An answer that is handled: not an empty line, numbers that can be read, no request to resend.\<close>

definition plain_answer :: "string \<Rightarrow> bool" where
  "plain_answer l \<longleftrightarrow> l \<noteq> [] \<and> response_readable (answer l) \<and> classify (answer l) \<noteq> R_resend"

section \<open>The loop over the lines\<close>

lemma abs_driver_serial [simp]: "abs_driver (d\<lparr>serial := s\<rparr>) = (abs_driver d)\<lparr>p_log := written s\<rparr>"
  by (simp add: abs_driver_def)

lemma lines_loop_answers:
  "M_inv d \<Longrightarrow> isConnected d \<Longrightarrow> sbuf (serial d) = unlines ls @ r \<Longrightarrow> NL \<notin> set r \<Longrightarrow>
     \<forall>l \<in> set ls. NL \<notin> set l \<and> l \<noteq> [] \<and> response_readable (answer l) \<Longrightarrow> \<forall>l \<in> set (mlines d). readable l \<Longrightarrow>
   \<exists>d'. lines_loop d = Some d' \<and> M_inv d' \<and> isConnected d' \<and> sbuf (serial d') = r \<and>
     abs_driver d' = fold proto_resp (map (\<lambda>l. classify (answer l)) ls) (abs_driver d)"
proof (induction ls arbitrary: d)
  case Nil
  then have "extractLine (serial d) = Some (None, serial d)" by (simp add: extractLine_none unlines_def)
  then have "lines_loop d = Some d" by (subst lines_loop.simps) simp
  then show ?case using Nil by (simp add: unlines_def)
next
  case (Cons l ls)
  let ?s = "(serial d)\<lparr>sbuf := unlines ls @ r\<rparr>"
  have e: "extractLine (serial d) = Some (Some (answer l), ?s)"
    using Cons.prems(3,5) by (simp add: answer_def extractLine_line unlines_def)
  have d0: "M_inv (d\<lparr>serial := ?s\<rparr>)" "isConnected (d\<lparr>serial := ?s\<rparr>)" "abs_driver (d\<lparr>serial := ?s\<rparr>) = abs_driver d"
    using Cons.prems(1,2) by (simp_all add: serial_inv isConnected_def serial_isOpen_def abs_driver_def)
  obtain d1 where d1: "M_readResponseCode (answer l) (d\<lparr>serial := ?s\<rparr>) = Some d1"
    using readResponse_total [OF d0(1)] Cons.prems(5,6) by fastforce
  note a = readResponse_abs [OF d0(1,2) d1]
  have i1: "M_inv d1" by (rule M_readResponseCode_inv [OF d0(1) d1])
  have b: "sbuf (serial d1) = unlines ls @ r" using M_readResponseCode_sbuf [OF d1] by simp
  have "\<forall>l \<in> set (mlines d1). readable l"
    using Cons.prems(6) a(1) d0(3) proto_resp_lines [of "classify (answer l)" "abs_driver d"]
    by (auto simp: abs_driver_def dest!: arg_cong [where f = p_lines])
  with Cons.IH [OF i1 a(2) b Cons.prems(4)] Cons.prems(5) obtain d' where
    "lines_loop d1 = Some d'" "M_inv d'" "isConnected d'" "sbuf (serial d') = r"
    "abs_driver d' = fold proto_resp (map (\<lambda>l. classify (answer l)) ls) (abs_driver d1)" by auto
  moreover have "lines_loop d = lines_loop d1" by (subst lines_loop.simps) (simp add: e d1)
  ultimately show ?case using a(1) d0(3) by simp
qed

section \<open>One call of \<open>update\<close>\<close>

text \<open>The events of a call in which the piece \<open>x\<close> has arrived.\<close>

definition arrived :: "bytes \<Rightarrow> read_ev list" where
  "arrived x = (if x = [] then [] else [RdData x])"

lemma read_arrived: "read_loop w False t b (arrived x) = (t + int (length x), b @ x, 0, [])"
proof (induction "length x" arbitrary: x t b rule: less_induct)
  case less
  show ?case
  proof (cases "drop READ_BUF_SIZE x")
    case Nil
    then show ?thesis by (auto simp: arrived_def READ_BUF_SIZE_def)
  next
    case (Cons c r)
    then have "x \<noteq> []" by auto
    then have x: "x \<noteq> []" "length (drop READ_BUF_SIZE x) < length x" by (simp_all add: READ_BUF_SIZE_def)
    have "read_loop w False t b (arrived x) =
        read_loop w False (t + int (length (take READ_BUF_SIZE x))) (b @ take READ_BUF_SIZE x) (arrived (drop READ_BUF_SIZE x))"
      using Cons x(1) by (simp add: arrived_def READ_BUF_SIZE_def)
    also have "\<dots> = (t + int (length (take READ_BUF_SIZE x)) + int (length (drop READ_BUF_SIZE x)),
        (b @ take READ_BUF_SIZE x) @ drop READ_BUF_SIZE x, 0, [])"
      by (rule less [OF x(2)])
    finally show ?thesis by (simp add: of_nat_add [symmetric] del: of_nat_add)
  qed
qed

lemma driver_reads_arrived:
  "driver_readData (arrived x) d = Go (int (length x), d\<lparr>serial := (serial d)\<lparr>sbuf := sbuf (serial d) @ x\<rparr>\<rparr>)"
  by (simp add: driver_readData_def serial_readData_def readAndAppendAvailableData_def read_arrived)

lemma temperature_poll:
  assumes "M_inv d" "isConnected d" "\<not> checkConnection d"
  obtains d1 ps where "update_temperature clk d = Some d1" "M_inv d1" "isConnected d1" "sbuf (serial d1) = sbuf (serial d)"
    "abs_driver d1 = (abs_driver d)\<lparr>p_log := written (serial d) @ ps\<rparr>" "set ps \<subseteq> {wire ''M105''}"
proof (cases "checkTemperatureInterval d \<noteq> -1 \<and>
    elapsed_more (t_temperature clk) (temperatureTimer_start d) (checkTemperatureInterval d)")
  case True
  let ?d = "d\<lparr>temperatureTimer_start := t_temperature_start clk\<rparr>"
  have inv: "M_inv ?d" using assms(1) by (simp add: M_inv_def M_pre_def is_printing_def isPrinterOnline_def)
  have "readable ''M105''" by (rule readable_plain) simp_all
  then obtain d1 where d1: "M_sendCode ''M105'' ?d = Some d1" using M_sendCode_total by blast
  show thesis
  proof (rule that [of d1 "[wire ''M105'']"])
    show "update_temperature clk d = Some d1"
      using True assms(3) d1 by (simp add: update_temperature_def M_checkTemperature_def)
    show "M_inv d1" by (rule M_sendCode_inv [OF inv d1])
  qed (use M_sendCode_frame [OF d1] assms(2) in
      \<open>auto simp: isConnected_def serial_isOpen_def abs_driver_def wire_def\<close>)
next
  case False
  show thesis
    by (rule that [of d "[]"]) (use False assms in \<open>auto simp: update_temperature_def abs_driver_def\<close>)
qed

lemma update_printing:
  assumes d: "M_inv d" "isConnected d" "printing (dstate d)" "NL \<notin> set (sbuf (serial d))" "\<forall>l \<in> set (mlines d). readable l"
    and ls: "ls = lines_done (sbuf (serial d)) x" "\<forall>l \<in> set ls. l \<noteq> [] \<and> response_readable (answer l)"
  obtains n d' ps where "M_update (arrived x) clk d = Some (Go (n, d'))" "M_inv d'" "isConnected d'"
    "sbuf (serial d') = line_rest (sbuf (serial d)) x" "set ps \<subseteq> {wire ''M105''}"
    "abs_driver d' = fold proto_resp (map (\<lambda>l. classify (answer l)) ls) ((abs_driver d)\<lparr>p_log := written (serial d) @ ps\<rparr>)"
proof -
  have chk: "\<not> checkConnection d"
    using d(1,3) by (auto simp: M_inv_def M_pre_def isPrinterOnline_def printing_def)
  obtain d1 ps where d1: "update_temperature clk d = Some d1" "M_inv d1" "isConnected d1" "sbuf (serial d1) = sbuf (serial d)"
    "abs_driver d1 = (abs_driver d)\<lparr>p_log := written (serial d) @ ps\<rparr>" "set ps \<subseteq> {wire ''M105''}"
    using temperature_poll [OF d(1,2) chk] .
  let ?d2 = "d1\<lparr>serial := (serial d1)\<lparr>sbuf := sbuf (serial d1) @ x\<rparr>\<rparr>"
  have d2: "M_inv ?d2" "isConnected ?d2" "abs_driver ?d2 = abs_driver d1" "mlines ?d2 = mlines d" "is_printing d1"
    using d1(2,3,5) d(3) by (simp_all add: serial_inv isConnected_def serial_isOpen_def printing_driver) (simp_all add: abs_driver_def)
  note t = lines_done_text [OF d(4), of x]
  have "\<exists>d3. (if 0 < length x then lines_loop ?d2 else Some ?d2) = Some d3 \<and> M_inv d3 \<and> isConnected d3 \<and>
    sbuf (serial d3) = line_rest (sbuf (serial d)) x \<and>
    abs_driver d3 = fold proto_resp (map (\<lambda>l. classify (answer l)) ls) (abs_driver d1)"
  proof (cases x)
    case Nil
    then show ?thesis using d2 d1 ls(1) by simp
  next
    case (Cons c cs)
    obtain d3 where "lines_loop ?d2 = Some d3" "M_inv d3" "isConnected d3" "sbuf (serial d3) = line_rest (sbuf (serial d)) x"
      "abs_driver d3 = fold proto_resp (map (\<lambda>l. classify (answer l)) ls) (abs_driver ?d2)"
      using lines_loop_answers [of ?d2 ls "line_rest (sbuf (serial d)) x"] d2 d1(4) t d(5) ls by auto
    then show ?thesis using Cons d2(3) by simp
  qed
  then obtain d3 where d3: "(if 0 < length x then lines_loop ?d2 else Some ?d2) = Some d3" "M_inv d3" "isConnected d3"
    "sbuf (serial d3) = line_rest (sbuf (serial d)) x"
    "abs_driver d3 = fold proto_resp (map (\<lambda>l. classify (answer l)) ls) (abs_driver d1)" by blast
  let ?d' = "d3\<lparr>timer_start := t_timer_start clk\<rparr>"
  have "update_read (arrived x) clk d1 = Some (Go ?d')"
    using d2(5) d3(1) by (simp add: update_read_def driver_reads_arrived)
  then have "M_update (arrived x) clk d = Some (Go (time_left (t_return clk) (timer_start ?d'), ?d'))"
    using d(2) d1(1) by (simp add: M_update_def)
  then show thesis
    by (rule that [where ps = ps])
      (use d3 d1(5,6) in \<open>simp_all add: M_inv_def M_pre_def is_printing_def isPrinterOnline_def isConnected_def abs_driver_def\<close>)
qed

section \<open>The iterations\<close>

text \<open>An iteration: the clock it reads, the connection it accepts if any, the piece of text that has arrived from
  the printer. The clients are silent. \<open>None\<close> stands for undefined behaviour and for the end of the
  program.\<close>

fun loop_run :: "(clock \<Rightarrow> MarlinDriver env) \<Rightarrow> (clock \<times> int option \<times> bytes) list \<Rightarrow> MarlinDriver Server \<Rightarrow>
    MarlinDriver Server option" where
  "loop_run E [] s = Some s"
| "loop_run E ((clk, connFd, x) # us) s =
     (case server_iteration (E clk) connFd (\<lambda>fd. []) (arrived x) s of
        Some (Go (timeout, s')) \<Rightarrow> loop_run E us s'
      | _ \<Rightarrow> None)"

definition silent :: "MarlinDriver Server \<Rightarrow> bool" where
  "silent s \<longleftrightarrow> (\<forall>c \<in> set (clients s). cbuffer c = [])"

definition connects :: "int option \<Rightarrow> bool" where
  "connects connFd \<longleftrightarrow> (case connFd of None \<Rightarrow> True | Some fd \<Rightarrow> 0 \<le> fd \<and> fd < FD_SETSIZE)"

lemma clients_silent: "silent s \<Longrightarrow> i + n \<le> length (clients s) \<Longrightarrow> clients_loop env (\<lambda>fd. []) n i s = Some s"
proof (induction n arbitrary: i)
  case (Suc n)
  then have c: "cbuffer (clients s ! i) = []" "i < length (clients s)" by (simp_all add: silent_def)
  have "runCommands env i s = Some s"
    by (subst runCommands.simps) (simp add: c ipc_cmd_is_complete_def)
  moreover have "client_readData [] (clients s ! i) = (0, clients s ! i)"
    by (simp add: client_readData_def readAndAppendAvailableData_def)
  ultimately show ?case using Suc.IH [of "Suc i"] Suc.prems by simp
qed simp

lemma silent_iteration:
  assumes "silent s" "connects connFd" "sdriver s = Some d" "ops env = marlin_ops clk" "M_update es clk d = Some (Go (n, d'))"
  obtains w s' where "server_iteration env connFd (\<lambda>fd. []) es s = Some (Go (w, s'))" "silent s'" "sdriver s' = Some d'"
proof -
  obtain s1 where s1: "accept_client connFd s = Some s1" "silent s1" "sdriver s1 = Some d"
    using assms(1-3) by (auto simp: connects_def accept_client_def silent_def Client_init_def split: option.splits)
  have u: "op_update (ops env) es d = Some (Go (n, d'))" using assms(4,5) by (simp add: marlin_ops_def)
  show thesis
    using s1 clients_silent [OF s1(2), of 0 "length (clients s1)" env] u
    by (intro that [of _ "s1\<lparr>sdriver := Some d'\<rparr>"]) (auto simp: server_iteration_def silent_def)
qed

text \<open>The text of a run, and the lines completed in it.\<close>

definition heard :: "(clock \<times> 'm \<times> bytes) list \<Rightarrow> bytes" where
  "heard us = concat (map (\<lambda>(clk, connFd, x). x) us)"

lemma heard_simps [simp]: "heard [] = []" "heard ((clk, c, x) # us) = x @ heard us"
  by (simp_all add: heard_def)

lemma loop_run_prints:
  "\<forall>clk. ops (E clk) = marlin_ops clk \<Longrightarrow> silent s \<Longrightarrow> sdriver s = Some d \<Longrightarrow> M_inv d \<Longrightarrow> isConnected d \<Longrightarrow>
   dstate d = PRINTING \<Longrightarrow> NL \<notin> set (sbuf (serial d)) \<Longrightarrow> \<forall>l \<in> set (mlines d). readable l \<Longrightarrow>
   \<forall>(clk, connFd, x) \<in> set us. connects connFd \<Longrightarrow>
   ls = lines_done (sbuf (serial d)) (heard us) \<Longrightarrow> \<forall>l \<in> set ls. plain_answer l \<Longrightarrow>
   us \<noteq> [] \<longrightarrow> acks (lines_done (sbuf (serial d)) (heard (butlast us))) < length (mlines d) \<Longrightarrow>
   \<exists>s' d' ps w. loop_run E us s = Some s' \<and> sdriver s' = Some d' \<and> mlines d' = drop (acks ls) (mlines d) \<and>
     dstate d' = (if acks ls < length (mlines d) then PRINTING else IDLE) \<and> set ps \<subseteq> {wire ''M105''} \<and>
     w \<in> shuffles (map wire (take (acks ls) (tl (mlines d)))) ps \<and> written (serial d') = written (serial d) @ w"
proof (induction us arbitrary: s d ls)
  case Nil
  then have "mlines d \<noteq> []" by (simp add: M_inv_def is_printing_def)
  then show ?case using Nil by (intro exI [of _ s] exI [of _ d] exI [of _ "[]"]) simp
next
  case (Cons u us)
  obtain clk connFd x where u: "u = (clk, connFd, x)" by (cases u)
  let ?b = "sbuf (serial d)"
  define ms where "ms = lines_done ?b x"
  have ls: "ls = ms @ lines_done (line_rest ?b x) (heard us)"
    using Cons.prems(10) u by (simp add: ms_def lines_done_append)
  have ne: "mlines d \<noteq> []" using Cons.prems(4,6) by (simp add: M_inv_def is_printing_def)
  obtain n d1 ps where d1: "M_update (arrived x) clk d = Some (Go (n, d1))" "M_inv d1" "isConnected d1"
    "sbuf (serial d1) = line_rest ?b x" "set ps \<subseteq> {wire ''M105''}"
    "abs_driver d1 = fold proto_resp (map (\<lambda>l. classify (answer l)) ms) ((abs_driver d)\<lparr>p_log := written (serial d) @ ps\<rparr>)"
    by (rule update_printing [OF Cons.prems(4,5) _ Cons.prems(7,8) ms_def, where clk = clk])
      (use Cons.prems(6,11) ls in \<open>auto simp: printing_def plain_answer_def\<close>)
  have chk: "\<not> checkConnection d"
    using Cons.prems(4,6) by (auto simp: M_inv_def M_pre_def isPrinterOnline_def)
  have "\<forall>l \<in> set ms. classify (answer l) \<noteq> R_resend"
    using Cons.prems(11) ls by (simp add: plain_answer_def)
  then have "R_resend \<notin> set (map (\<lambda>l. classify (answer l)) ms)" by (metis imageE set_map)
  then have a: "abs_driver d1 = \<lparr>p_lines = drop (acks ms) (mlines d), p_state = (if acks ms < length (mlines d) then PRINTING else IDLE),
      p_log = written (serial d) @ ps @ map wire (take (acks ms) (tl (mlines d))), p_check = False\<rparr>"
    unfolding d1(6) using Cons.prems(6) ne chk
    by (subst proto_run) (auto simp: abs_driver_def online_def printing_def acks_def comp_def)
  then have m1: "mlines d1 = drop (acks ms) (mlines d)" and st1: "dstate d1 = (if acks ms < length (mlines d) then PRINTING else IDLE)"
    and w1: "written (serial d1) = written (serial d) @ ps @ map wire (take (acks ms) (tl (mlines d)))"
    by (simp_all add: abs_driver_def)
  obtain t s1 where s1: "server_iteration (E clk) connFd (\<lambda>fd. []) (arrived x) s = Some (Go (t, s1))" "silent s1" "sdriver s1 = Some d1"
    by (rule silent_iteration [OF Cons.prems(2) _ Cons.prems(3) Cons.prems(1) [rule_format] d1(1)])
      (use Cons.prems(9) u in auto)
  show ?case
  proof (cases "us = []")
    case True
    then show ?thesis
      using s1 u m1 st1 w1 ls d1(5) append_in_shuffles [of ps "map wire (take (acks ms) (tl (mlines d)))"]
      by (intro exI [of _ s1] exI [of _ d1] exI [of _ ps] exI [of _ "ps @ map wire (take (acks ms) (tl (mlines d)))"]) simp
  next
    case False
    let ?r = "lines_done (line_rest ?b x) (heard us)"
    have "acks ms + acks (lines_done (line_rest ?b x) (heard (butlast us))) < length (mlines d)"
      using Cons.prems(12) False u by (simp add: lines_done_append ms_def)
    then have more: "acks ms < length (mlines d)" "acks (lines_done (sbuf (serial d1)) (heard (butlast us))) < length (mlines d1)"
      using m1 d1(4) by auto
    have sb: "NL \<notin> set (sbuf (serial d1))" using lines_done_text [OF Cons.prems(7), of x] d1(4) by simp
    have rd: "\<forall>l \<in> set (mlines d1). readable l" using Cons.prems(8) m1 by (auto dest: in_set_dropD)
    have st: "dstate d1 = PRINTING" and co: "\<forall>(clk, connFd, x) \<in> set us. connects connFd"
      and eq: "?r = lines_done (sbuf (serial d1)) (heard us)" and pl: "\<forall>l \<in> set ?r. plain_answer l"
      using st1 more(1) Cons.prems(9,11) d1(4) ls by simp_all
    from Cons.IH [OF Cons.prems(1) s1(2,3) d1(2,3) st sb rd co eq pl] more(2) obtain s' d' qs w where
      i: "loop_run E us s1 = Some s'" "sdriver s' = Some d'" "mlines d' = drop (acks ?r) (mlines d1)"
      "dstate d' = (if acks ?r < length (mlines d1) then PRINTING else IDLE)" "set qs \<subseteq> {wire ''M105''}"
      "w \<in> shuffles (map wire (take (acks ?r) (tl (mlines d1)))) qs" "written (serial d') = written (serial d1) @ w"
      by blast
    let ?xs = "map wire (take (acks ms) (tl (mlines d)))" and ?ys = "map wire (take (acks ?r) (tl (mlines d1)))"
    have xs: "?xs @ ?ys = map wire (take (acks ls) (tl (mlines d)))"
      by (simp add: ls m1 take_add tl_drop)
    have sh: "(ps @ ?xs) @ w \<in> shuffles (map wire (take (acks ls) (tl (mlines d)))) (ps @ qs)"
      using shuffles_append [OF append_in_shuffles [of ps ?xs] i(6)] unfolding xs .
    have run: "loop_run E (u # us) s = Some s'" using s1(1) i(1) u by simp
    have left: "mlines d' = drop (acks ls) (mlines d)" using i(3) by (simp add: m1 ls add.commute)
    have state: "dstate d' = (if acks ls < length (mlines d) then PRINTING else IDLE)"
      using i(4) more(1) by (simp add: m1 ls less_diff_conv add.commute)
    have "written (serial d') = written (serial d) @ ((ps @ ?xs) @ w)" using i(7) w1 by simp
    moreover have "set (ps @ qs) \<subseteq> {wire ''M105''}" using d1(5) i(5) by simp
    ultimately show ?thesis using run i(2) left state sh by blast
  qed
qed

section \<open>The property\<close>

text \<open>C3: A print under the main loop. The loop runs with a Marlin driver that is printing, with silent
  clients, while new ones may connect; the answers of the printer arrive in any pieces, a line in one iteration
  or in several, after an unfinished line that may already be there; each iteration reads any clock, so that the
  driver asks for the temperature at any time. As long as the print was not over before the last iteration and the
  answers are handled (no empty line, no request to resend), no iteration fails; as many lines are gone
  from the front of the buffer as acknowledgements were completed; the driver is printing while lines are left
  and idle when none is; and what was sent are the next lines, once each and in order, with nothing but temperature
  requests between them.\<close>

theorem main_loop_prints:
  assumes "\<forall>clk. ops (E clk) = marlin_ops clk" "silent s" "sdriver s = Some d"
    and "reachable d" "isConnected d" "dstate d = PRINTING" "NL \<notin> set (sbuf (serial d))"
    and "\<forall>l \<in> set (mlines d). readable l" "\<forall>(clk, connFd, x) \<in> set us. connects connFd"
    and "\<forall>l \<in> set (lines_done (sbuf (serial d)) (heard us)). plain_answer l"
    and "us \<noteq> [] \<longrightarrow> acks (lines_done (sbuf (serial d)) (heard (butlast us))) < length (mlines d)"
  defines "n \<equiv> acks (lines_done (sbuf (serial d)) (heard us))"
  shows "\<exists>s' d' polls w. loop_run E us s = Some s' \<and> sdriver s' = Some d' \<and> mlines d' = drop n (mlines d) \<and>
    dstate d' = (if n < length (mlines d) then PRINTING else IDLE) \<and>
    written (serial d') = written (serial d) @ w \<and>
    w \<in> shuffles (map wire (take n (tl (mlines d)))) polls \<and> set polls \<subseteq> {wire ''M105''}"
  unfolding n_def
  using loop_run_prints [OF assms(1-3) reachable_inv [OF assms(4)] assms(5-9) refl assms(10,11)] by blast

text \<open>A print of two lines, the second half of an acknowledgement arriving one iteration later, together with a
  new client.\<close>

theorem main_loop_prints_witness:
  "\<exists>d s' d' polls w. mlines d = [''G28'', ''G1 X2''] \<and> written (serial d) = [''G28\<newline>''] \<and>
     loop_run (\<lambda>clk. demo_env\<lparr>ops := marlin_ops clk\<rparr>)
       [(at_second 1, None, ''ok\<newline>o''), (at_second 2, Some 7, ''k\<newline>echo:busy\<newline>'')] (demo_server d) = Some s' \<and>
     sdriver s' = Some d' \<and> mlines d' = [] \<and> dstate d' = IDLE \<and> written (serial d') = ''G28\<newline>'' # w \<and>
     w \<in> shuffles [''G1 X2\<newline>''] polls \<and> set polls \<subseteq> {''M105\<newline>''}"
proof -
  obtain d where d: "reachable d" "isConnected d" "dstate d = PRINTING" "sbuf (serial d) = []"
    "mlines d = [''G28'', ''G1 X2'']" "written (serial d) = [''G28\<newline>'']" by (rule roomy_printing_driver)
  let ?us = "[(at_second 1, None, ''ok\<newline>o''), (at_second 2, Some 7, ''k\<newline>echo:busy\<newline>'')]"
  have l: "lines_done [] (heard ?us) = [''ok'', ''ok'', ''echo:busy'']" "lines_done [] (heard (butlast ?us)) = [''ok'']"
    by (simp_all add: heard_def)
  have cl: "classify (answer ''ok'') = R_ok" "classify (answer ''echo:busy'') = R_none" by code_simp+
  have n: "acks [''ok'', ''ok'', ''echo:busy''] = 2" "acks [''ok''] = 1" by (simp_all add: acks_def oks_def cl)
  have p: "\<forall>l \<in> set [''ok'', ''ok'', ''echo:busy'']. plain_answer l"
    by (simp add: plain_answer_def cl response_readable_def)
  have w: "wire ''G1 X2'' = ''G1 X2\<newline>''" "wire ''M105'' = ''M105\<newline>''" by code_simp+
  have "\<forall>l \<in> set (mlines d). readable l" by (simp add: d(5) readable_plain)
  moreover have "silent (demo_server d)" by (simp add: silent_def demo_server_def Client_init_def)
  moreover have "\<forall>(clk, connFd, x) \<in> set ?us. connects connFd" by (simp add: connects_def FD_SETSIZE_def)
  ultimately show ?thesis
    using main_loop_prints [of "\<lambda>clk. demo_env\<lparr>ops := marlin_ops clk\<rparr>" "demo_server d" d ?us] d p demo_facts(8)
    by (simp add: l n w del: shuffles.simps) blast
qed

end
