(* ===== verification/StreamPrint.thy ===== *)
theory StreamPrint
  imports MainLoop
begin

text \<open>
  A print that is fed while it runs: clients append g-code and ask for the state in the same iterations of
  the main loop in which the printer's answers arrive.
\<close>

section \<open>The answers leave room\<close>

lemma readResponse_roomy:
  assumes inv: "M_inv d" and r: "M_readResponseCode code d = Some d'" and k: "roomy k B (gcodeBuffer d)"
  shows "roomy k B (gcodeBuffer d')"
proof (cases "classify code")
  case R_temp
  with r obtain d1 where d1: "parseTemperatures code d = Some d1" "d' = temp_seen d1" by (auto simp: readResponse_temp)
  from parseTemperatures_frame [OF d1(1)] show ?thesis
    using k by (auto simp: d1(2) temp_seen_def setState_def Let_def)
next
  case R_ok
  have ok: "gcb_ok (gcodeBuffer d)" using inv by (simp add: M_inv_def M_pre_def)
  show ?thesis
  proof (cases "is_printing d")
    case True
    then have ne: "mlines d \<noteq> []" using inv by (simp add: M_inv_def)
    obtain g where g: "eraseLine 1 (gcodeBuffer d) = Some (1, g)" "erases (gcodeBuffer d) 1 g"
      by (rule ok_erases [OF ok ne])
    from r g(1) True have p: "M_printNextLine (d\<lparr>gcodeBuffer := g\<rparr>) = Some d'" by (simp add: readResponse_ok [OF R_ok])
    show ?thesis by (rule printNextLine_roomy [OF _ p]) (use erasesD(1) [OF g(2)] roomy_erases [OF g(2) k] in simp_all)
  next
    case False
    with r k show ?thesis by (simp add: readResponse_ok [OF R_ok])
  qed
next
  case R_resend
  have ok: "gcb_ok (gcodeBuffer (resend_line d))" "roomy k B (gcodeBuffer (resend_line d))"
    using inv k by (simp_all add: M_inv_def M_pre_def resend_line_def gcb_ok_currentLine)
  from printNextLine_roomy [OF ok(1) _ ok(2)] r show ?thesis by (simp add: readResponse_resend [OF R_resend])
next
  case R_none
  with r k show ?thesis by (simp add: readResponse_none)
qed

lemma lines_loop_roomy: "M_inv d \<Longrightarrow> lines_loop d = Some d' \<Longrightarrow> roomy k B (gcodeBuffer d) \<Longrightarrow> roomy k B (gcodeBuffer d')"
proof (induction d rule: lines_loop.induct)
  case (1 d)
  obtain l s where e: "extractLine (serial d) = Some (l, s)"
    using "1.prems"(2) by (subst (asm) lines_loop.simps) (auto split: option.splits prod.splits)
  show ?case
  proof (cases l)
    case None
    with e "1.prems" show ?thesis by (subst (asm) lines_loop.simps) auto
  next
    case (Some line)
    with e "1.prems"(2) obtain d1 where d1: "M_readResponseCode line (d\<lparr>serial := s\<rparr>) = Some d1" "lines_loop d1 = Some d'"
      by (subst (asm) lines_loop.simps) (auto split: option.splits)
    have i: "M_inv (d\<lparr>serial := s\<rparr>)" by (rule serial_inv [OF "1.prems"(1)])
    have "roomy k B (gcodeBuffer d1)" using readResponse_roomy [OF i d1(1)] "1.prems"(3) by simp
    with "1.IH" [OF e refl Some d1(1) M_readResponseCode_inv [OF i d1(1)] d1(2)] show ?thesis .
  qed
qed

lemma update_roomy:
  assumes inv: "M_inv d" "isConnected d" "\<not> checkConnection d" and r: "M_update es clk d = Some (Go (n, d'))"
    and k: "roomy k B (gcodeBuffer d)"
  shows "roomy k B (gcodeBuffer d')"
proof -
  obtain d1 ps where d1: "update_temperature clk d = Some d1" "M_inv d1"
    by (rule temperature_poll [OF inv])
  have k1: "roomy k B (gcodeBuffer d1)"
    using d1(1) k by (auto simp: update_temperature_def M_checkTemperature_def Let_def split: if_splits dest!: M_sendCode_frame)
  obtain ro where "update_read es clk d1 = Some ro"
    "(case ro of Exit rv \<Rightarrow> Exit rv | Go d2 \<Rightarrow> Go (time_left (t_return clk) (timer_start d2), d2)) = Go (n, d')"
    using r inv(2) d1(1) by (auto simp: M_update_def bind_eq_Some_conv)
  then have u: "update_read es clk d1 = Some (Go d')" by (cases ro) simp_all
  have "lines_loop (d1\<lparr>serial := s\<rparr>) = Some z \<Longrightarrow> roomy k B (gcodeBuffer z)" for s z
    by (rule lines_loop_roomy [OF serial_inv [OF d1(2)]]) (use k1 in simp_all)
  then show ?thesis
    using u k1 by (auto simp: update_read_def driver_readData_def Let_def split: if_splits outcome.splits prod.splits)
qed

section \<open>What the clients say\<close>

text \<open>A client asks for the state or sends a text as a transaction of one command.\<close>

datatype command = AskState | SendText string

datatype msg = Quiet | Says nat command

fun command_bytes :: "command \<Rightarrow> bytes" where
  "command_bytes AskState = encode (ipc_code IPC_CMDQ_GET_STATE) []"
| "command_bytes (SendText t) = append_cmd t (chunk_flags True True) (-1) (-1) (-1) None"

text \<open>The reply while the driver is printing, the lines that come into the buffer, and the bytes counted for them.\<close>

fun command_reply :: "command \<Rightarrow> bytes" where
  "command_reply AskState = encode (ipc_code IPC_CMDR_OK) [''printing'']"
| "command_reply (SendText t) = ok_reply"

fun new_lines :: "bool \<Rightarrow> msg \<Rightarrow> string list" where
  "new_lines k (Says i (SendText t)) = gcode_lines k t"
| "new_lines k m = []"

fun new_bytes :: "msg \<Rightarrow> int" where
  "new_bytes (Says i (SendText t)) = int (length t) + 1"
| "new_bytes m = 0"

fun msg_ok :: "bool \<Rightarrow> nat \<Rightarrow> msg \<Rightarrow> bool" where
  "msg_ok k n Quiet = True"
| "msg_ok k n (Says i AskState) = (i < n)"
| "msg_ok k n (Says i (SendText t)) = (i < n \<and> NUL \<notin> set t \<and> readable t \<and> (\<forall>l \<in> set (gcode_lines k t). readable l) \<and>
     length (command_bytes (SendText t)) \<le> READ_BUF_SIZE)"

text \<open>The replies to one client.\<close>

definition replies_to :: "nat \<Rightarrow> msg list \<Rightarrow> bytes list" where
  "replies_to i ms = concat (map (\<lambda>m. case m of Says j c \<Rightarrow> if i = j then [command_reply c] else [] | Quiet \<Rightarrow> []) ms)"

lemma replies_to_Cons: "replies_to i (m # ms) = replies_to i [m] @ replies_to i ms" "replies_to i [] = []"
  by (simp_all add: replies_to_def)

text \<open>Clients between two commands, on different descriptors.\<close>

definition quiet_clients :: "'d Server \<Rightarrow> bool" where
  "quiet_clients s \<longleftrightarrow> distinct (map cfd (clients s)) \<and>
     (\<forall>c \<in> set (clients s). cbuffer c = [] \<and> cfd c \<noteq> -1 \<and> \<not> cancelled (transaction c))"

text \<open>A command changes the driver and its own client, which stays between two commands and has the reply.\<close>

definition answered :: "nat \<Rightarrow> bytes \<Rightarrow> 'd Server \<Rightarrow> 'd Server \<Rightarrow> bool" where
  "answered i r s s' \<longleftrightarrow> (\<exists>c. clients s' = (clients s)[i := c] \<and> cfd c = cfd (clients s ! i) \<and> cbuffer c = [] \<and>
     \<not> cancelled (transaction c) \<and> csent c = csent (clients s ! i) @ [r])"

lemma answered_quiet:
  assumes "answered i r s s'" "quiet_clients s" "i < length (clients s)"
  shows "quiet_clients s'" "length (clients s') = length (clients s)"
    "\<And>j. j < length (clients s) \<Longrightarrow> csent (clients s' ! j) = csent (clients s ! j) @ (if j = i then [r] else [])"
proof -
  obtain c where c: "clients s' = (clients s)[i := c]" "cfd c = cfd (clients s ! i)" "cbuffer c = []"
    "\<not> cancelled (transaction c)" "csent c = csent (clients s ! i) @ [r]"
    using assms(1) by (auto simp: answered_def)
  have "map cfd (clients s') = map cfd (clients s)"
    using c(1,2) assms(3) by (simp add: map_update list_update_same_conv)
  moreover have "cfd c \<noteq> -1" using c(2) assms(2,3) by (simp add: quiet_clients_def)
  ultimately show "quiet_clients s'"
    using assms(2) c(1,3,4) by (auto simp: quiet_clients_def dest!: set_update_subset_insert [THEN subsetD])
  show "length (clients s') = length (clients s)" by (simp add: c(1))
  show "csent (clients s' ! j) = csent (clients s ! j) @ (if j = i then [r] else [])" if "j < length (clients s)" for j
    using that c(1,5) by (auto simp: nth_list_update)
qed

lemma getState_calm:
  assumes "calm env" "cfd (clients s ! i) \<noteq> -1" "sdriver s = Some d"
  shows "runCommand env i (encode (ipc_code IPC_CMDQ_GET_STATE) []) s =
    Some (push_sent i [encode (ipc_code IPC_CMDR_OK) [getStateString (dstate d)]] s)"
proof -
  have "sendCmd env i ''x'' [VBlob (getStateString (dstate d))] s =
      Some (push_sent i [encode (ipc_code IPC_CMDR_OK) [getStateString (dstate d)]] s)"
    by (rule sendCmd_calm [OF assms(1,2)]) simp_all
  then show ?thesis
    using assms(3) by (simp add: runCommand_calm(4) [OF assms(1)] hnd_getState_def)
qed

lemma command_served:
  assumes env: "calm env" "ops env = marlin_ops clk"
    and s: "quiet_clients s" "msg_ok k (length (clients s)) (Says i c)" "sdriver s = Some d"
    and d: "M_inv d" "isConnected d" "dstate d = PRINTING" "roomy k B (gcodeBuffer d)"
    and room: "B + new_bytes (Says i c) \<le> MAX_BUFFER_SIZE"
  obtains s1 d1 where "runCommand env i (command_bytes c) s = Some s1" "answered i (command_reply c) s s1" "sdriver s1 = Some d1"
    "M_inv d1" "isConnected d1" "dstate d1 = PRINTING" "serial d1 = serial d" "mlines d1 = mlines d @ new_lines k (Says i c)"
    "roomy k (B + new_bytes (Says i c)) (gcodeBuffer d1)"
proof -
  have i: "i < length (clients s)" using s(2) by (cases c) simp_all
  have cl: "cbuffer (clients s ! i) = []" "cfd (clients s ! i) \<noteq> -1" "\<not> cancelled (trx_of i s)"
    using s(1) i by (simp_all add: quiet_clients_def)
  show thesis
  proof (cases c)
    case AskState
    have run: "runCommand env i (command_bytes c) s = Some (push_sent i [command_reply c] s)"
      using getState_calm [OF env(1) cl(2) s(3)] d(3) AskState by simp
    have "answered i (command_reply c) s (push_sent i [command_reply c] s)"
      using cl i by (auto simp: answered_def push_sent_def upd_client_def)
    then show thesis
      using d AskState s(3) by (intro that [OF run]) (simp_all add: push_sent_def)
  next
    case (SendText t)
    have t: "NUL \<notin> set t" "readable t" "length (command_bytes c) \<le> READ_BUF_SIZE" using s(2) SendText by simp_all
    have "length t \<le> length (command_bytes c)" using SendText by (simp add: append_cmd_def append_args_def length_encode)
    then have fits: "append_fits t (-1) (-1) (-1) None"
      using t(3) by (simp add: append_fits_def in_range_def READ_BUF_SIZE_def)
    obtain d1 where d1: "AD_appendGCode t (-1) (Some (meta (-1) (-1) None)) d = Some (GSR_OK, d1)" "M_inv d1" "isConnected d1"
      "dstate d1 = buffered (dstate d)" "serial d1 = serial d" "mlines d1 = mlines d @ gcode_lines k t"
      "roomy k (B + int (length t) + 1) (gcodeBuffer d1)"
      by (rule driver_appends [OF d(1,2,4)]) (use room t(2) SendText in simp_all)
    let ?s1 = "push_sent i [ok_reply] (upd_client i (upd_trx (\<lambda>t. t\<lparr>tbuffer := [], active := False\<rparr>)) (s\<lparr>sdriver := Some d1\<rparr>))"
    have run: "runCommand env i (command_bytes c) s = Some ?s1"
      using append_piece [OF env(1) fits chunk_flags_bits(3,4) i cl(2,3), of True True] d1(1) s(3) t(1) SendText
      by (simp add: env(2) marlin_ops_def cstr_no_NUL append_reply_def)
    have "answered i (command_reply c) s ?s1"
      using cl i SendText by (auto simp: answered_def push_sent_def upd_client_def upd_trx_def)
    then show thesis
      using d1(2-7) d(3) SendText by (intro that [OF run]) (simp_all add: push_sent_def buffered_def add.assoc)
  qed
qed

section \<open>One iteration\<close>

definition reads_of :: "'d Server \<Rightarrow> msg \<Rightarrow> int \<Rightarrow> read_ev list" where
  "reads_of s m fd = (case m of Quiet \<Rightarrow> [] | Says i c \<Rightarrow> if fd = cfd (clients s ! i) then [RdData (command_bytes c)] else [])"

lemma clients_loop_quiet:
  assumes "\<forall>j < length (clients s). i \<le> j \<and> j < i + n \<longrightarrow> reads (cfd (clients s ! j)) = [] \<and> cbuffer (clients s ! j) = []"
    and "i + n \<le> length (clients s)"
  shows "clients_loop env reads (n + m) i s = clients_loop env reads m (i + n) s"
  using assms
proof (induction n arbitrary: i)
  case (Suc n)
  then have c: "cbuffer (clients s ! i) = []" "reads (cfd (clients s ! i)) = []" "i < length (clients s)" by simp_all
  have "runCommands env i s = Some s"
    by (subst runCommands.simps) (simp add: c ipc_cmd_is_complete_def)
  moreover have "client_readData [] (clients s ! i) = (0, clients s ! i)"
    by (simp add: client_readData_def readAndAppendAvailableData_def)
  ultimately show ?case using Suc.IH [of "Suc i"] Suc.prems c by simp
qed simp

lemma clients_loop_data:
  assumes "reads (cfd (clients s ! i)) = [RdData b]" "b \<noteq> []" "length b \<le> READ_BUF_SIZE"
  shows "clients_loop env reads (Suc n) i s =
    Option.bind (clients_loop env (\<lambda>_. [RdData b]) 1 i s) (clients_loop env reads n (Suc i))"
  using assms by (auto simp: readData_piece split: option.split)

lemma one_client_speaks:
  assumes "calm env" "quiet_clients s" "i < length (clients s)" "is_cmd b" "length b \<le> READ_BUF_SIZE"
    and "runCommand env i b s = Some s1" "answered i r s s1"
    and reads: "\<And>fd. reads fd = (if fd = cfd (clients s ! i) then [RdData b] else [])"
  shows "clients_loop env reads (length (clients s)) 0 s = Some s1"
proof -
  let ?n = "length (clients s)"
  have q: "\<And>j. j < ?n \<Longrightarrow> j \<noteq> i \<Longrightarrow> reads (cfd (clients s ! j)) = []" "\<And>j. j < ?n \<Longrightarrow> cbuffer (clients s ! j) = []"
    using assms(2,3) reads by (auto simp: quiet_clients_def distinct_conv_nth)
  obtain c where c: "clients s1 = (clients s)[i := c]" using assms(7) by (auto simp: answered_def)
  have b: "b \<noteq> []" using assms(4) by (auto simp: is_cmd_def encode_def store_ns_def)
  have one: "clients_loop env (\<lambda>_. [RdData b]) 1 i s = Some s1"
    using client_stream [OF calmD [OF assms(1)] assms(3) q(2) [OF assms(3)], of "[b]" "[b]"] assms(4-6) b by simp
  have "clients_loop env reads (i + (?n - i)) 0 s = clients_loop env reads (?n - i) (0 + i) s"
    by (rule clients_loop_quiet) (use q assms(3) in auto)
  also have "\<dots> = clients_loop env reads (Suc (?n - Suc i)) i s" using assms(3) by (simp add: Suc_diff_Suc)
  also have "\<dots> = clients_loop env reads (?n - Suc i) (Suc i) s1"
    using clients_loop_data [of reads s i b env "?n - Suc i"] reads b assms(5) one by simp
  also have "\<dots> = clients_loop env reads (?n - Suc i + 0) (Suc i) s1" by simp
  also have "\<dots> = clients_loop env reads 0 (Suc i + (?n - Suc i)) s1"
    by (rule clients_loop_quiet) (use q c assms(3) in auto)
  finally show ?thesis using assms(3) by simp
qed

lemma command_is_cmd: "msg_ok k n (Says i c) \<Longrightarrow> is_cmd (command_bytes c) \<and> length (command_bytes c) \<le> READ_BUF_SIZE"
proof (cases c)
  case AskState
  then show ?thesis unfolding is_cmd_def
    by (auto simp: wf_cmd_def length_encode READ_BUF_SIZE_def intro!: exI [of _ "ipc_code IPC_CMDQ_GET_STATE"] exI [of _ "[]"])
next
  case (SendText t)
  assume "msg_ok k n (Says i c)"
  then have l: "length (command_bytes c) \<le> READ_BUF_SIZE" using SendText by simp
  moreover have "length t \<le> length (command_bytes c)" using SendText by (simp add: append_cmd_def append_args_def length_encode)
  ultimately have "append_fits t (-1) (-1) (-1) None" by (simp add: append_fits_def in_range_def READ_BUF_SIZE_def)
  then show ?thesis using l append_is_cmd SendText by simp
qed

text \<open>Whatever is said in an iteration, the driver has the new lines when the answers are read.\<close>

lemma fed_iteration:
  assumes env: "calm env" "ops env = marlin_ops clk"
    and s: "quiet_clients s" "msg_ok k (length (clients s)) m" "sdriver s = Some d"
    and d: "M_inv d" "isConnected d" "dstate d = PRINTING" "roomy k B (gcodeBuffer d)" "B + new_bytes m \<le> MAX_BUFFER_SIZE"
    and l: "NL \<notin> set (sbuf (serial d))" "\<forall>l \<in> set (mlines d). readable l"
      "ls = lines_done (sbuf (serial d)) x" "\<forall>l \<in> set ls. l \<noteq> [] \<and> response_readable (answer l)"
  obtains w s' d' ps where "server_iteration env None (reads_of s m) (arrived x) s = Some (Go (w, s'))" "sdriver s' = Some d'"
    "quiet_clients s'" "length (clients s') = length (clients s)"
    "\<And>i. i < length (clients s) \<Longrightarrow> csent (clients s' ! i) = csent (clients s ! i) @ replies_to i [m]"
    "M_inv d'" "isConnected d'" "sbuf (serial d') = line_rest (sbuf (serial d)) x" "set ps \<subseteq> {wire ''M105''}"
    "roomy k (B + new_bytes m) (gcodeBuffer d')" "\<forall>l \<in> set (new_lines k m). readable l"
    "abs_driver d' = fold proto_resp (map (\<lambda>l. classify (answer l)) ls)
       ((abs_driver d)\<lparr>p_lines := mlines d @ new_lines k m, p_log := written (serial d) @ ps\<rparr>)"
proof -
  have new: "\<forall>l \<in> set (new_lines k m). readable l"
    using s(2) by (cases m; cases "case m of Says i c \<Rightarrow> c | Quiet \<Rightarrow> AskState") auto
  have "\<exists>s1 d1. clients_loop env (reads_of s m) (length (clients s)) 0 s = Some s1 \<and> sdriver s1 = Some d1 \<and> quiet_clients s1 \<and>
    length (clients s1) = length (clients s) \<and>
    (\<forall>i < length (clients s). csent (clients s1 ! i) = csent (clients s ! i) @ replies_to i [m]) \<and>
    M_inv d1 \<and> isConnected d1 \<and> dstate d1 = PRINTING \<and> serial d1 = serial d \<and> mlines d1 = mlines d @ new_lines k m \<and>
    roomy k (B + new_bytes m) (gcodeBuffer d1)"
  proof (cases m)
    case Quiet
    have "clients_loop env (reads_of s m) (length (clients s) + 0) 0 s = clients_loop env (reads_of s m) 0 (0 + length (clients s)) s"
      by (rule clients_loop_quiet) (use s(1) Quiet in \<open>simp_all add: reads_of_def quiet_clients_def\<close>)
    then show ?thesis using Quiet s d by (simp add: replies_to_def)
  next
    case (Says i c)
    have i: "i < length (clients s)" using s(2) Says by (cases c) simp_all
    obtain s1 d1 where c: "runCommand env i (command_bytes c) s = Some s1" "answered i (command_reply c) s s1" "sdriver s1 = Some d1"
      "M_inv d1" "isConnected d1" "dstate d1 = PRINTING" "serial d1 = serial d" "mlines d1 = mlines d @ new_lines k m"
      "roomy k (B + new_bytes m) (gcodeBuffer d1)"
      using command_served [OF env s(1) s(2) [unfolded Says] s(3) d(1-4) d(5) [unfolded Says]] unfolding Says by blast
    note q = answered_quiet [OF c(2) s(1) i]
    have "clients_loop env (reads_of s m) (length (clients s)) 0 s = Some s1"
      using command_is_cmd [OF s(2) [unfolded Says]]
      by (intro one_client_speaks [OF env(1) s(1) i _ _ c(1,2)]) (simp_all add: reads_of_def Says)
    then show ?thesis using c(3-) q by (intro exI [of _ s1] exI [of _ d1]) (auto simp: replies_to_def Says)
  qed
  then obtain s1 d1 where c: "clients_loop env (reads_of s m) (length (clients s)) 0 s = Some s1" "sdriver s1 = Some d1" "quiet_clients s1"
    "length (clients s1) = length (clients s)"
    "\<forall>i < length (clients s). csent (clients s1 ! i) = csent (clients s ! i) @ replies_to i [m]"
    "M_inv d1" "isConnected d1" "dstate d1 = PRINTING" "serial d1 = serial d" "mlines d1 = mlines d @ new_lines k m"
    "roomy k (B + new_bytes m) (gcodeBuffer d1)" by blast
  have chk: "\<not> checkConnection d1" "\<not> checkConnection d"
    using c(6,8) d(1,3) by (auto simp: M_inv_def M_pre_def isPrinterOnline_def)
  have rd: "\<forall>l \<in> set (mlines d1). readable l" using l(2) new c(10) by auto
  obtain n d2 ps where u: "M_update (arrived x) clk d1 = Some (Go (n, d2))" "M_inv d2" "isConnected d2"
    "sbuf (serial d2) = line_rest (sbuf (serial d1)) x" "set ps \<subseteq> {wire ''M105''}"
    "abs_driver d2 = fold proto_resp (map (\<lambda>l. classify (answer l)) ls) ((abs_driver d1)\<lparr>p_log := written (serial d1) @ ps\<rparr>)"
    by (rule update_printing [OF c(6,7) _ _ rd, where x = x and ls = ls and clk = clk])
      (use l c(8,9) in \<open>simp_all add: printing_def\<close>)
  let ?s2 = "s1\<lparr>sdriver := Some d2\<rparr>"
  have op: "op_update (ops env) (arrived x) d1 = Some (Go (n, d2))" using u(1) env(2) by (simp add: marlin_ops_def)
  obtain w where it: "server_iteration env None (reads_of s m) (arrived x) s = Some (Go (w, ?s2))"
    using c(1,2) op by (simp add: server_iteration_def accept_client_def)
  have a: "(abs_driver d1)\<lparr>p_log := written (serial d1) @ ps\<rparr> =
      (abs_driver d)\<lparr>p_lines := mlines d @ new_lines k m, p_log := written (serial d) @ ps\<rparr>"
    using c(8-10) d(3) chk by (simp add: abs_driver_def)
  show thesis
  proof (rule that [OF it])
    show "quiet_clients ?s2" using c(3) by (simp add: quiet_clients_def)
    show "roomy k (B + new_bytes m) (gcodeBuffer d2)" by (rule update_roomy [OF c(6,7) chk(1) u(1) c(11)])
  qed (use c u new a in simp_all)
qed

section \<open>The iterations\<close>

fun fed_run :: "(clock \<Rightarrow> MarlinDriver env) \<Rightarrow> (clock \<times> msg \<times> bytes) list \<Rightarrow> MarlinDriver Server \<Rightarrow> MarlinDriver Server option" where
  "fed_run E [] s = Some s"
| "fed_run E ((clk, m, x) # us) s =
     (case server_iteration (E clk) None (reads_of s m) (arrived x) s of
        Some (Go (timeout, s')) \<Rightarrow> fed_run E us s'
      | _ \<Rightarrow> None)"

definition said :: "(clock \<times> msg \<times> bytes) list \<Rightarrow> msg list" where
  "said us = map (\<lambda>(clk, m, x). m) us"

definition fed :: "bool \<Rightarrow> msg list \<Rightarrow> string list" where
  "fed k ms = concat (map (new_lines k) ms)"

lemma said_simps [simp]: "said [] = []" "said ((clk, m, x) # us) = m # said us"
  by (simp_all add: said_def)

lemma fed_simps [simp]: "fed k [] = []" "fed k (m # ms) = new_lines k m @ fed k ms"
  by (simp_all add: fed_def)

lemma take_behind:
  "a < length M \<Longrightarrow> take a (tl M) @ take r (tl (drop a M @ N)) = take (a + r) (tl (M @ N))"
  by (cases M) (simp_all add: take_add tl_append_if drop_Suc tl_drop add.commute)

lemma fed_run_prints:
  "\<forall>clk. calm (E clk) \<and> ops (E clk) = marlin_ops clk \<Longrightarrow> quiet_clients s \<Longrightarrow> sdriver s = Some d \<Longrightarrow> M_inv d \<Longrightarrow>
   isConnected d \<Longrightarrow> dstate d = PRINTING \<Longrightarrow> roomy k B (gcodeBuffer d) \<Longrightarrow> NL \<notin> set (sbuf (serial d)) \<Longrightarrow>
   \<forall>l \<in> set (mlines d). readable l \<Longrightarrow> \<forall>m \<in> set (said us). msg_ok k (length (clients s)) m \<Longrightarrow>
   B + sum_list (map new_bytes (said us)) \<le> MAX_BUFFER_SIZE \<Longrightarrow>
   ls = lines_done (sbuf (serial d)) (heard us) \<Longrightarrow> \<forall>l \<in> set ls. plain_answer l \<Longrightarrow>
   \<forall>j < length us. acks (lines_done (sbuf (serial d)) (heard (take j us))) < length (mlines d @ fed k (said (take j us))) \<Longrightarrow>
   \<exists>s' d' ps w. fed_run E us s = Some s' \<and> sdriver s' = Some d' \<and>
     mlines d' = drop (acks ls) (mlines d @ fed k (said us)) \<and>
     dstate d' = (if acks ls < length (mlines d @ fed k (said us)) then PRINTING else IDLE) \<and> set ps \<subseteq> {wire ''M105''} \<and>
     w \<in> shuffles (map wire (take (acks ls) (tl (mlines d @ fed k (said us))))) ps \<and>
     written (serial d') = written (serial d) @ w \<and>
     (\<forall>i < length (clients s). csent (clients s' ! i) = csent (clients s ! i) @ replies_to i (said us))"
proof (induction us arbitrary: s d ls B)
  case Nil
  then have "mlines d \<noteq> []" by (simp add: M_inv_def is_printing_def)
  then show ?case using Nil by (intro exI [of _ s] exI [of _ d] exI [of _ "[]"]) (simp add: replies_to_Cons)
next
  case (Cons u us)
  obtain clk m x where u: "u = (clk, m, x)" by (cases u)
  let ?b = "sbuf (serial d)"
  define ms where "ms = lines_done ?b x"
  define M where "M = mlines d @ new_lines k m"
  define N where "N = fed k (said us)"
  let ?r = "lines_done (line_rest ?b x) (heard us)"
  have ls: "ls = ms @ ?r" using Cons.prems(12) u by (simp add: ms_def lines_done_append)
  have L: "mlines d @ fed k (said (u # us)) = M @ N" by (simp add: u M_def N_def)
  have ne: "M \<noteq> []" using Cons.prems(4,6) by (simp add: M_inv_def is_printing_def M_def)
  have chk: "\<not> checkConnection d"
    using Cons.prems(4,6) by (auto simp: M_inv_def M_pre_def isPrinterOnline_def)
  have nb: "0 \<le> new_bytes m" for m by (cases m; cases "case m of Says i c \<Rightarrow> c | Quiet \<Rightarrow> AskState") auto
  have sb: "0 \<le> sum_list (map new_bytes (said us))" by (rule sum_list_nonneg) (use nb in auto)
  have mok: "msg_ok k (length (clients s)) m" using Cons.prems(10) u by simp
  have room: "B + new_bytes m \<le> MAX_BUFFER_SIZE" using Cons.prems(11) u sb by simp
  have pl: "\<forall>l \<in> set ms. plain_answer l" "\<forall>l \<in> set ?r. plain_answer l" using Cons.prems(13) ls by simp_all
  then have ans: "\<forall>l \<in> set ms. l \<noteq> [] \<and> response_readable (answer l)" by (simp add: plain_answer_def)
  note env = Cons.prems(1) [rule_format, THEN conjunct1] Cons.prems(1) [rule_format, THEN conjunct2]
  obtain t s1 d1 ps where it: "server_iteration (E clk) None (reads_of s m) (arrived x) s = Some (Go (t, s1))" "sdriver s1 = Some d1"
    "quiet_clients s1" "length (clients s1) = length (clients s)"
    "\<And>i. i < length (clients s) \<Longrightarrow> csent (clients s1 ! i) = csent (clients s ! i) @ replies_to i [m]"
    "M_inv d1" "isConnected d1" "sbuf (serial d1) = line_rest ?b x" "set ps \<subseteq> {wire ''M105''}"
    "roomy k (B + new_bytes m) (gcodeBuffer d1)" "\<forall>l \<in> set (new_lines k m). readable l"
    "abs_driver d1 = fold proto_resp (map (\<lambda>l. classify (answer l)) ms) ((abs_driver d)\<lparr>p_lines := M, p_log := written (serial d) @ ps\<rparr>)"
    unfolding M_def
    by (rule fed_iteration [OF env Cons.prems(2) mok Cons.prems(3-7) room Cons.prems(8,9) ms_def ans]) blast
  have "\<forall>l \<in> set ms. classify (answer l) \<noteq> R_resend" using pl(1) by (simp add: plain_answer_def)
  then have "R_resend \<notin> set (map (\<lambda>l. classify (answer l)) ms)" by (metis imageE set_map)
  then have a: "abs_driver d1 = \<lparr>p_lines = drop (acks ms) M, p_state = (if acks ms < length M then PRINTING else IDLE),
      p_log = written (serial d) @ ps @ map wire (take (acks ms) (tl M)), p_check = False\<rparr>"
    unfolding it(12) using Cons.prems(6) ne chk
    by (subst proto_run) (auto simp: abs_driver_def online_def printing_def acks_def comp_def)
  then have m1: "mlines d1 = drop (acks ms) M" and st1: "dstate d1 = (if acks ms < length M then PRINTING else IDLE)"
    and w1: "written (serial d1) = written (serial d) @ ps @ map wire (take (acks ms) (tl M))"
    by (simp_all add: abs_driver_def)
  show ?case
  proof (cases "us = []")
    case True
    then show ?thesis
      using it(1,2,5,9) u m1 st1 w1 ls append_in_shuffles [of ps "map wire (take (acks ms) (tl M))"] unfolding L
      by (intro exI [of _ s1] exI [of _ d1] exI [of _ ps] exI [of _ "ps @ map wire (take (acks ms) (tl M))"]) (simp add: N_def)
  next
    case False
    have left: "acks ms < length M"
      using Cons.prems(14) [rule_format, of 1] False u by (simp add: M_def ms_def)
    have st: "dstate d1 = PRINTING" using st1 left by simp
    have sb1: "NL \<notin> set (sbuf (serial d1))" using lines_done_text [OF Cons.prems(8), of x] it(8) by simp
    have rd: "\<forall>l \<in> set (mlines d1). readable l"
      using Cons.prems(9) it(11) m1 by (auto simp: M_def dest: in_set_dropD)
    have ok: "\<forall>m \<in> set (said us). msg_ok k (length (clients s1)) m" using Cons.prems(10) u it(4) by simp
    have room1: "B + new_bytes m + sum_list (map new_bytes (said us)) \<le> MAX_BUFFER_SIZE" using Cons.prems(11) u by simp
    have eq: "?r = lines_done (sbuf (serial d1)) (heard us)" by (simp add: it(8))
    have cond: "\<forall>j < length us. acks (lines_done (sbuf (serial d1)) (heard (take j us))) < length (mlines d1 @ fed k (said (take j us)))"
    proof (intro allI impI)
      fix j assume "j < length us"
      then have "acks (lines_done ?b (heard (take (Suc j) (u # us)))) < length (mlines d @ fed k (said (take (Suc j) (u # us))))"
        using Cons.prems(14) [rule_format, of "Suc j"] by simp
      then show "acks (lines_done (sbuf (serial d1)) (heard (take j us))) < length (mlines d1 @ fed k (said (take j us)))"
        using left by (simp add: u lines_done_append ms_def [symmetric] it(8) m1 M_def)
    qed
    from Cons.IH [OF Cons.prems(1) it(3,2,6,7) st it(10) sb1 rd ok room1 eq pl(2) cond] obtain s' d' qs w where
      i: "fed_run E us s1 = Some s'" "sdriver s' = Some d'" "mlines d' = drop (acks ?r) (mlines d1 @ N)"
      "dstate d' = (if acks ?r < length (mlines d1 @ N) then PRINTING else IDLE)" "set qs \<subseteq> {wire ''M105''}"
      "w \<in> shuffles (map wire (take (acks ?r) (tl (mlines d1 @ N)))) qs" "written (serial d') = written (serial d1) @ w"
      "\<forall>i < length (clients s1). csent (clients s' ! i) = csent (clients s1 ! i) @ replies_to i (said us)"
      unfolding N_def by blast
    let ?xs = "map wire (take (acks ms) (tl M))" and ?ys = "map wire (take (acks ?r) (tl (mlines d1 @ N)))"
    have xs: "?xs @ ?ys = map wire (take (acks ls) (tl (M @ N)))"
      using take_behind [OF left, of "acks ?r" N] by (simp add: ls m1 flip: map_append)
    have sh: "(ps @ ?xs) @ w \<in> shuffles (map wire (take (acks ls) (tl (M @ N)))) (ps @ qs)"
      using shuffles_append [OF append_in_shuffles [of ps ?xs] i(6)] unfolding xs .
    have run: "fed_run E (u # us) s = Some s'" using it(1) i(1) u by simp
    have gone: "mlines d' = drop (acks ls) (M @ N)" using i(3) left by (simp add: m1 ls add.commute)
    have state: "dstate d' = (if acks ls < length (M @ N) then PRINTING else IDLE)"
      using i(4) left by (simp add: m1 ls less_diff_conv add.commute)
    have "written (serial d') = written (serial d) @ ((ps @ ?xs) @ w)" using i(7) w1 by simp
    moreover have "set (ps @ qs) \<subseteq> {wire ''M105''}" using it(9) i(5) by simp
    moreover have "\<forall>i < length (clients s). csent (clients s' ! i) = csent (clients s ! i) @ replies_to i (said (u # us))"
      using i(8) it(4,5) by (simp add: u replies_to_Cons(1) [of _ m "said us"])
    ultimately show ?thesis unfolding L using run i(2) gone state sh by blast
  qed
qed

section \<open>The property\<close>

text \<open>C4: A print that is fed while it runs. In each iteration of the main loop a client may send a text (as one
  command) or ask for the state, and the printer's answers arrive in any pieces, with the driver polling the
  temperature at any time. As long as the texts fit the buffer and before each iteration fewer lines were
  acknowledged than had come into the buffer, no iteration fails; each text is answered with OK and each
  question with the state \<open>printing\<close>, on the connection it came from and in order; and what was sent to the
  printer are the lines that were in the buffer followed by those of the texts, once each and in order, up to
  the first one not acknowledged, with nothing but temperature requests between them. When all are
  acknowledged the driver is idle.\<close>

theorem fed_print:
  assumes "\<forall>clk. calm (E clk) \<and> ops (E clk) = marlin_ops clk" "quiet_clients s" "sdriver s = Some d"
    and "reachable d" "isConnected d" "dstate d = PRINTING" "roomy k B (gcodeBuffer d)" "NL \<notin> set (sbuf (serial d))"
    and "\<forall>l \<in> set (mlines d). readable l" "\<forall>m \<in> set (said us). msg_ok k (length (clients s)) m"
    and "B + sum_list (map new_bytes (said us)) \<le> MAX_BUFFER_SIZE"
    and "\<forall>l \<in> set (lines_done (sbuf (serial d)) (heard us)). plain_answer l"
    and "\<forall>j < length us. acks (lines_done (sbuf (serial d)) (heard (take j us))) < length (mlines d @ fed k (said (take j us)))"
  defines "L \<equiv> mlines d @ fed k (said us)" and "n \<equiv> acks (lines_done (sbuf (serial d)) (heard us))"
  shows "\<exists>s' d' polls w. fed_run E us s = Some s' \<and> sdriver s' = Some d' \<and> mlines d' = drop n L \<and>
    dstate d' = (if n < length L then PRINTING else IDLE) \<and>
    written (serial d') = written (serial d) @ w \<and> w \<in> shuffles (map wire (take n (tl L))) polls \<and>
    set polls \<subseteq> {wire ''M105''} \<and>
    (\<forall>i < length (clients s). csent (clients s' ! i) = csent (clients s ! i) @ replies_to i (said us))"
  unfolding L_def n_def
  using fed_run_prints [OF assms(1-3) reachable_inv [OF assms(4)] assms(5-11) refl assms(12,13)] by blast

theorem fed_print_witness:
  "\<exists>d s' d' polls w. mlines d = [''G28'', ''G1 X2''] \<and> written (serial d) = [''G28\<newline>''] \<and>
     fed_run (\<lambda>clk. demo_env\<lparr>ops := marlin_ops clk\<rparr>)
       [(at_second 1, Says 0 (SendText ''G1 Y3''), ''ok\<newline>o''), (at_second 2, Says 0 AskState, ''k\<newline>''),
        (at_second 3, Quiet, ''ok\<newline>'')] (demo_server d) = Some s' \<and>
     csent (clients s' ! 0) = [ok_reply, encode (ipc_code IPC_CMDR_OK) [''printing'']] \<and>
     sdriver s' = Some d' \<and> mlines d' = [] \<and> dstate d' = IDLE \<and> written (serial d') = ''G28\<newline>'' # w \<and>
     w \<in> shuffles [''G1 X2\<newline>'', ''G1 Y3\<newline>''] polls \<and> set polls \<subseteq> {''M105\<newline>''}"
proof -
  obtain d where d: "reachable d" "isConnected d" "dstate d = PRINTING" "sbuf (serial d) = []"
    "mlines d = [''G28'', ''G1 X2'']" "written (serial d) = [''G28\<newline>'']" "roomy False 100 (gcodeBuffer d)"
    by (rule roomy_printing_driver)
  let ?us = "[(at_second 1, Says 0 (SendText ''G1 Y3''), ''ok\<newline>o''), (at_second 2, Says 0 AskState, ''k\<newline>''),
    (at_second 3, Quiet, ''ok\<newline>'')]"
  have g: "gcode_lines False ''G1 Y3'' = [''G1 Y3'']" by code_simp
  have cl: "classify (answer ''ok'') = R_ok" by code_simp
  have n: "acks [''ok'', ''ok'', ''ok''] = 3" "acks [''ok'', ''ok''] = 2" "acks [''ok''] = 1" by (simp_all add: acks_def oks_def cl)
  have p: "plain_answer ''ok''" by (simp add: plain_answer_def cl response_readable_def)
  have w: "wire ''G1 X2'' = ''G1 X2\<newline>''" "wire ''G1 Y3'' = ''G1 Y3\<newline>''" "wire ''M105'' = ''M105\<newline>''" by code_simp+
  have len: "length (append_cmd ''G1 Y3'' (chunk_flags True True) (-1) (-1) (-1) None) \<le> READ_BUF_SIZE"
    by (simp add: append_cmd_def append_args_def length_encode READ_BUF_SIZE_def)
  have s: "quiet_clients (demo_server d)" "sdriver (demo_server d) = Some d" "length (clients (demo_server d)) = 1"
    "csent (clients (demo_server d) ! 0) = []"
    by (simp_all add: quiet_clients_def demo_server_def Client_init_def)
  have e: "\<forall>clk. calm (demo_env\<lparr>ops := marlin_ops clk\<rparr>) \<and> ops (demo_env\<lparr>ops := marlin_ops clk\<rparr>) = marlin_ops clk"
    using demo_facts(1) by (simp add: calm_def)
  have m: "\<forall>m \<in> set (said ?us). msg_ok False (length (clients (demo_server d))) m"
    using len s(3) by (simp add: g readable_plain)
  have room: "100 + sum_list (map new_bytes (said ?us)) \<le> MAX_BUFFER_SIZE" by (simp add: MAX_BUFFER_SIZE_def)
  have nl: "NL \<notin> set (sbuf (serial d))" using d(4) by simp
  have rd: "\<forall>l \<in> set (mlines d). readable l" by (simp add: d(5) readable_plain)
  have h: "lines_done (sbuf (serial d)) (heard ?us) = [''ok'', ''ok'', ''ok'']" by (simp add: d(4))
  have pl: "\<forall>l \<in> set (lines_done (sbuf (serial d)) (heard ?us)). plain_answer l" unfolding h using p by simp
  have c: "\<forall>j < length ?us. acks (lines_done (sbuf (serial d)) (heard (take j ?us))) < length (mlines d @ fed False (said (take j ?us)))"
    by (simp add: less_Suc_eq all_conj_distrib imp_conjL d(4,5) g n numeral_eq_Suc)
  note f = fed_print [OF e s(1,2) d(1-3,7) nl rd m room pl c, unfolded h]
  then show ?thesis
    using s(3,4) by (simp add: n g w d(5,6) replies_to_def del: shuffles.simps) (use d(5,6) in blast)
qed

end
