(* ===== verification/MakerbotRun.thy ===== *)
theory MakerbotRun
  imports MakerbotServer
begin

text \<open>
  A Makerbot print over many updates: what has been written to the printer at any time, as the g-code lines
  taken so far converted in order, each command sent one to five times, between the questions the driver
  asks; and that a print only ends when everything was sent.
\<close>

section \<open>Questions to the printer\<close>

definition questions :: "bytes set" where
  "questions = s3g_packet ` ({query [0], query [2]} \<union> (\<lambda>t. query [10, 0, t]) ` {2, 30, 32, 33})"

definition asks :: "'g MakerbotDriver \<Rightarrow> 'g MakerbotDriver \<Rightarrow> bool" where
  "asks d d' \<longleftrightarrow> same_job d d' \<and> (\<exists>qs. set qs \<subseteq> questions \<and> written (serial d') = written (serial d) @ qs)"

lemma asks_refl [simp]: "asks d d"
  unfolding asks_def by (auto intro: exI [of _ "[]"])

lemma asks_trans: "asks a b \<Longrightarrow> asks b c \<Longrightarrow> asks a c"
  unfolding asks_def by (elim conjE exE, intro conjI, erule (1) same_job_trans) (metis Un_least append.assoc set_append)

lemma packet_asks:
  assumes "sendPacket env p u d = Some (Go (ok, d'))" "isConnected d" "s3g_packet p \<in> questions"
  shows "asks d d'"
proof -
  obtain k where "written (serial d') = written (serial d) @ replicate k (s3g_packet p)"
    using sendPacket_job(3) [OF assms(1,2)] by blast
  moreover have "set (replicate k (s3g_packet p)) \<subseteq> questions" using assms(3) by (simp add: set_replicate_conv_if)
  ultimately show ?thesis using sendPacket_job(1) [OF assms(1)] unfolding asks_def by blast
qed

lemma asks_connected: "asks d d' \<Longrightarrow> isConnected d' = isConnected d"
  by (simp add: asks_def same_job_connected)

lemma request_asks: "requestBufferSpace env d = Some (Go (space, d')) \<Longrightarrow> isConnected d \<Longrightarrow> asks d d'"
  by (auto simp: requestBufferSpace_def obind_Go questions_def intro: packet_asks)

lemma send_all_asks:
  "send_all env ps rv d = Some (Go (ok, d')) \<Longrightarrow> isConnected d \<Longrightarrow> s3g_packet ` set ps \<subseteq> questions \<Longrightarrow> asks d d'"
proof (induction ps arbitrary: rv d)
  case (Cons p ps)
  then obtain ok1 d1 where 1: "sendPacket env p False d = Some (Go (ok1, d1))"
    "send_all env ps (rv \<and> ok1) d1 = Some (Go (ok, d'))"
    by (auto simp: obind_Go)
  have a: "asks d d1" using packet_asks [OF 1(1)] Cons.prems(2,3) by simp
  from Cons.IH [OF 1(2)] asks_connected [OF a] Cons.prems(2,3) have "asks d1 d'" by simp
  with a show ?case by (rule asks_trans)
qed simp

lemma poll_asks:
  assumes "poll_printer env d = Some (Go d')" "isConnected d"
  shows "\<exists>d1. asks d d1 \<and> d' = d1\<lparr>counter := 0\<rparr>"
proof -
  from assms(1) obtain d1 ok d2 space d3 where
    1: "(if \<not> validResponseReceived d then obind (getFirmwareVersion env d) (\<lambda>(ver, d1). Some (Go d1)) else Some (Go d)) = Some (Go d1)"
    and 2: "updateTemperatures env d1 = Some (Go (ok, d2))" "requestBufferSpace env d2 = Some (Go (space, d3))"
    and 3: "d' = d3\<lparr>counter := 0\<rparr>"
    by (auto simp: poll_printer_def obind_Go)
  have a: "asks d d1"
    using 1 assms(2) by (auto simp: getFirmwareVersion_def obind_Go questions_def intro: packet_asks split: if_splits)
  have b: "asks d1 d2"
    using send_all_asks [OF 2(1) [unfolded updateTemperatures_def]] asks_connected [OF a] assms(2) by (simp add: questions_def)
  have "asks d2 d3" using request_asks [OF 2(2)] asks_connected [OF a] asks_connected [OF b] assms(2) by simp
  then show ?thesis using asks_trans [OF asks_trans [OF a b]] 3 by blast
qed

section \<open>What an update carries\<close>

text \<open>From the lines left and the queue in \<open>d\<close> to those in \<open>d'\<close>: the lines taken from the front, as the texts
  of one to 25 lines that were converted; their commands put behind the queue; the commands taken from its front and written, each one
  to five times, with questions in between.\<close>

definition carries :: "'g mb_env \<Rightarrow> 'g MakerbotDriver \<Rightarrow> 'g MakerbotDriver \<Rightarrow> bool" where
  "carries env d d' \<longleftrightarrow> (\<exists>ts cs sent ns qs w.
     job_lines d = concat (map text_lines ts) @ job_lines d' \<and>
     (\<forall>t \<in> set ts. 1 \<le> length (text_lines t) \<and> length (text_lines t) \<le> GCODE_CVT_LINES) \<and>
     convert_all env (gpx d) ts = Some (cs, gpx d') \<and> queue d @ cs = sent @ queue d' \<and> length ns = length sent \<and> (\<forall>n \<in> set ns. 1 \<le> n \<and> n \<le> RETRIES) \<and>
     set qs \<subseteq> questions \<and> w \<in> shuffles (sent_as ns sent) qs \<and> written (serial d') = written (serial d) @ w)"

lemma carriesI:
  assumes "job_lines d = concat (map text_lines ts) @ job_lines d'"
    "\<forall>t \<in> set ts. 1 \<le> length (text_lines t) \<and> length (text_lines t) \<le> GCODE_CVT_LINES"
    "convert_all env (gpx d) ts = Some (cs, gpx d')"
    "queue d @ cs = sent @ queue d'" "length ns = length sent" "\<forall>n \<in> set ns. 1 \<le> n \<and> n \<le> RETRIES"
    "set qs \<subseteq> questions" "w \<in> shuffles (sent_as ns sent) qs" "written (serial d') = written (serial d) @ w"
  shows "carries env d d'"
  unfolding carries_def using assms by blast

lemma carries_fields [simp]:
  "carries env d (e\<lparr>counter := c\<rparr>) = carries env d e" "carries env d (setState st e) = carries env d e"
  "carries env (d\<lparr>port_events := es\<rparr>) e = carries env d e"
  by (simp_all add: carries_def setState_def)

lemma convert_all_append:
  "convert_all env g ts = Some (cs, g1) \<Longrightarrow> convert_all env g1 us = Some (ds, g2) \<Longrightarrow>
     convert_all env g (ts @ us) = Some (cs @ ds, g2)"
proof (induction ts arbitrary: g cs)
  case (Cons t ts)
  obtain buf h where b: "gpx_convert env t g = (buf, h)" by fastforce
  with Cons.prems(1) obtain as rest where "s3g_commands buf = Some as" "convert_all env h ts = Some (rest, g1)" "cs = as @ rest"
    by (auto simp: bind_eq_Some_conv)
  then show ?case using Cons.IH [OF _ Cons.prems(2)] b by simp
qed simp

lemma sent_as_append: "length ns = length a \<Longrightarrow> sent_as (ns @ ms) (a @ b) = sent_as ns a @ sent_as ms b"
  by (simp add: sent_as_def)

lemma carries_trans:
  assumes "carries env a b" "carries env b c"
  shows "carries env a c"
proof -
  obtain ts cs sent ns qs w where 1: "job_lines a = concat (map text_lines ts) @ job_lines b"
    "convert_all env (gpx a) ts = Some (cs, gpx b)" "queue a @ cs = sent @ queue b" "length ns = length sent"
    "\<forall>n \<in> set ns. 1 \<le> n \<and> n \<le> RETRIES" "set qs \<subseteq> questions" "w \<in> shuffles (sent_as ns sent) qs"
    "written (serial b) = written (serial a) @ w"
    "\<forall>t \<in> set ts. 1 \<le> length (text_lines t) \<and> length (text_lines t) \<le> GCODE_CVT_LINES"
    using assms(1) unfolding carries_def by blast
  obtain us ds sent' ms rs v where 2: "job_lines b = concat (map text_lines us) @ job_lines c"
    "convert_all env (gpx b) us = Some (ds, gpx c)" "queue b @ ds = sent' @ queue c" "length ms = length sent'"
    "\<forall>n \<in> set ms. 1 \<le> n \<and> n \<le> RETRIES" "set rs \<subseteq> questions" "v \<in> shuffles (sent_as ms sent') rs"
    "written (serial c) = written (serial b) @ v"
    "\<forall>t \<in> set us. 1 \<le> length (text_lines t) \<and> length (text_lines t) \<le> GCODE_CVT_LINES"
    using assms(2) unfolding carries_def by blast
  have q: "queue a @ (cs @ ds) = (sent @ sent') @ queue c"
    using 1(3) 2(3) by (metis append.assoc)
  have sh: "w @ v \<in> shuffles (sent_as (ns @ ms) (sent @ sent')) (qs @ rs)"
    using shuffles_append [OF 1(7) 2(7)] sent_as_append [OF 1(4)] by simp
  show ?thesis
    by (rule carriesI [OF _ _ convert_all_append [OF 1(2) 2(2)] q _ _ _ sh]) (use 1 2 in auto)
qed

lemma asks_carries:
  assumes "asks d d'"
  shows "carries env d d'"
proof -
  obtain qs where qs: "set qs \<subseteq> questions" "written (serial d') = written (serial d) @ qs"
    using assms by (auto simp: asks_def)
  have "qs \<in> shuffles (sent_as [] []) qs" by (simp add: sent_as_def)
  with qs show ?thesis
    using assms by (intro carriesI [where ts = "[]" and sent = "[]" and ns = "[]"]) (simp_all add: asks_def same_job_def)
qed

lemma fills_carries: "fills env d d' \<Longrightarrow> serial d' = serial d \<Longrightarrow> carries env d d'"
  unfolding fills_def
  by (elim exE conjE, rule carriesI [where sent = "[]" and ns = "[]" and qs = "[]" and w = "[]"]) (simp_all add: sent_as_def)

text \<open>What \<open>send_queue\<close> takes from the queue, whatever space it assumes.\<close>

lemma send_queue_carries:
  "send_queue env q d = Some (Go d') \<Longrightarrow> isConnected d \<Longrightarrow>
     carries env (d\<lparr>queue := q\<rparr>) d' \<and> isConnected d' \<and> gcodeBuffer d' = gcodeBuffer d \<and>
     (dstate d' = dstate d \<or> dstate d = CONNECTING \<and> dstate d' = IDLE)"
proof (induction q arbitrary: d)
  case Nil
  then have "d' = d\<lparr>queue := []\<rparr>" by simp
  then show ?case using asks_carries [OF asks_refl] Nil by (simp add: isConnected_def)
next
  case (Cons c q)
  show ?case
  proof (cases "length c > unat (bufferSpace d - 5)")
    case True
    then have "d' = d\<lparr>queue := c # q\<rparr>" using Cons.prems(1) by simp
    then show ?thesis using asks_carries [OF asks_refl] Cons.prems by (simp add: isConnected_def)
  next
    case False
    let ?d = "d\<lparr>queue := q\<rparr>"
    from False Cons.prems(1) obtain ok d1 where 1: "sendPacket env c True ?d = Some (Go (ok, d1))" "send_queue env q d1 = Some (Go d')"
      by (auto simp: obind_Go)
    have con: "isConnected ?d" using Cons.prems(2) by (simp add: isConnected_def)
    note j = sendPacket_job(1) [OF 1(1)]
    obtain k where k: "1 \<le> k" "k \<le> RETRIES" "written (serial d1) = written (serial d) @ replicate k (s3g_packet c)"
      using sendPacket_job(3) [OF 1(1) con] by auto
    have q: "d1\<lparr>queue := q\<rparr> = d1" using j by (simp add: same_job_def)
    have one: "carries env (d\<lparr>queue := c # q\<rparr>) d1"
    proof (rule carriesI [where ts = "[]" and sent = "[c]" and ns = "[k]" and qs = "[]"])
      show "replicate k (s3g_packet c) \<in> shuffles (sent_as [k] [c]) []" by (cases k) (simp_all add: sent_as_def)
    qed (use j k in \<open>simp_all add: same_job_def\<close>)
    from Cons.IH [OF 1(2)] same_job_connected [OF j] con q have "carries env d1 d'" "isConnected d'"
      "gcodeBuffer d' = gcodeBuffer d1" "dstate d' = dstate d1 \<or> dstate d1 = CONNECTING \<and> dstate d' = IDLE" by simp_all
    with carries_trans [OF one] j show ?thesis by (auto simp: same_job_def)
  qed
qed

lemma processQueue_carries:
  assumes "processQueue env d = Some (Go d')" "isConnected d" "is_active d" "queue d = [] \<Longrightarrow> job_lines d = []"
  shows "carries env d d'" "isConnected d'"
    "dstate d' = dstate d \<or> dstate d' = IDLE \<and> queue d' = [] \<and> job_lines d' = []"
proof -
  from assms(1) obtain space d1 where 1: "requestBufferSpace env d = Some (Go (space, d1))"
    and 2: "(if queue d \<noteq> [] then if space > 480 then send_queue env (queue d1) d1 else Some (Go d1)
      else Some (Go (if space < PRINTER_BUFFER_SIZE then d1 else setState IDLE d1))) = Some (Go d')"
    by (auto simp: processQueue_def obind_Go split: if_splits)
  have a: "asks d d1" by (rule request_asks [OF 1 assms(2)])
  have c1: "carries env d d1" by (rule asks_carries [OF a])
  have s: "queue d1 = queue d" "job_lines d1 = job_lines d" "dstate d1 = dstate d" "isConnected d1" "dstate d1 \<noteq> CONNECTING"
    using a assms(2,3) asks_connected [OF a] by (auto simp: asks_def same_job_def is_active_def)
  have "carries env d d' \<and> isConnected d' \<and> (dstate d' = dstate d \<or> dstate d' = IDLE \<and> queue d' = [] \<and> job_lines d' = [])"
  proof (cases "queue d = []")
    case True
    then have "d' = d1 \<or> d' = setState IDLE d1" using 2 by (auto split: if_splits)
    then show ?thesis using c1 s assms(4) True by (auto simp: isConnected_def) (simp_all add: setState_def)
  next
    case False
    then have "(if space > 480 then send_queue env (queue d1) d1 else Some (Go d1)) = Some (Go d')" using 2 by (simp only: if_True not_False_eq_True)
    then consider "d' = d1" | "send_queue env (queue d1) d1 = Some (Go d')" by (cases "space > 480") simp_all
    then show ?thesis
    proof cases
      case 1
      then show ?thesis using c1 s by simp
    next
      case 2
      from send_queue_carries [OF 2 s(4)] have c: "carries env (d1\<lparr>queue := queue d1\<rparr>) d'" "isConnected d'" "dstate d' = dstate d1"
        using s(5) by auto
      have "carries env d1 d'" using c(1) by simp
      with carries_trans [OF c1] c s(3) show ?thesis by auto
    qed
  qed
  then show "carries env d d'" "isConnected d'"
    "dstate d' = dstate d \<or> dstate d' = IDLE \<and> queue d' = [] \<and> job_lines d' = []" by simp_all
qed

text \<open>A print that is going on, or over with nothing left.\<close>

definition print_at :: "STATE \<Rightarrow> 'g MakerbotDriver \<Rightarrow> bool" where
  "print_at st d \<longleftrightarrow> dstate d = st \<or> dstate d = IDLE \<and> queue d = [] \<and> job_lines d = []"

lemma update_carries:
  assumes u: "MB_update env d = Some (Go (n, d'))" and d: "job_ok d" "writes_s3g env" "isConnected d"
    and st: "st = PRINTING \<or> st = STOPPING" "print_at st d"
  shows "carries env d d'" "isConnected d'" "print_at st d'"
proof -
  obtain d1 d2 d3 where 1: "(if is_active d \<and> length (queue d) < QUEUE_MIN_SIZE then refill env d else Some d) = Some d1"
    and 2: "(if is_active d1 then processQueue env d1 else Some (Go d1)) = Some (Go d2)"
    and 3: "(if counter d2 = UPDATE_TICKS then poll_printer env d2 else Some (Go d2)) = Some (Go d3)"
    and 4: "d' = d3\<lparr>counter := counter d3 + 1\<rparr>"
    using u d(3) unfolding MB_update_def by (auto simp: obind_Go split: option.splits)
  have act: "is_active d \<longleftrightarrow> dstate d = st" using st by (auto simp: print_at_def is_active_def)
  have f1: "carries env d d1" "isConnected d1" "dstate d1 = dstate d" "is_active d \<Longrightarrow> queue d1 = [] \<Longrightarrow> job_lines d1 = []"
    "\<not> is_active d \<Longrightarrow> d1 = d"
  proof -
    obtain r where r: "refill env d = Some r" "fills env d r" "QUEUE_FILL_SIZE \<le> length (queue r) \<or> job_lines r = []"
      "serial r = serial d" "dstate r = dstate d"
      using refill_fills [OF d(1,2)] by blast
    have "d1 = r \<or> d1 = d \<and> \<not> (is_active d \<and> length (queue d) < QUEUE_MIN_SIZE)" using 1 r(1) by (auto split: if_splits)
    then show "carries env d d1" "isConnected d1" "dstate d1 = dstate d" "is_active d \<Longrightarrow> queue d1 = [] \<Longrightarrow> job_lines d1 = []"
      "\<not> is_active d \<Longrightarrow> d1 = d"
      using r d(3) 1 fills_carries [OF r(2,4)] asks_carries [OF asks_refl]
      by (auto simp: isConnected_def QUEUE_FILL_SIZE_def QUEUE_MIN_SIZE_def)
  qed
  have ad1: "is_active d1 = is_active d" using f1(3) by (simp add: is_active_def)
  have f2: "carries env d1 d2 \<and> isConnected d2 \<and> print_at st d2"
  proof (cases "is_active d1")
    case True
    then have "processQueue env d1 = Some (Go d2)" using 2 by simp
    note p = processQueue_carries [OF this f1(2) True f1(4)]
    show ?thesis using p act ad1 True f1(3) by (auto simp: print_at_def)
  next
    case False
    then show ?thesis using 2 f1(2,5) ad1 st(2) asks_carries [OF asks_refl] by auto
  qed
  obtain e where e: "asks d2 e" "d3 = e \<or> d3 = e\<lparr>counter := 0\<rparr>"
  proof (cases "counter d2 = UPDATE_TICKS")
    case True
    then show thesis using that poll_asks [of env d2 d3] 3 f2 by auto
  next
    case False
    then show thesis using that [of d2] 3 by simp
  qed
  have ne: "dstate d2 \<noteq> CONNECTING" using f2 st(1) by (auto simp: print_at_def)
  have "carries env d2 d'" using asks_carries [OF e(1), of env] e(2) 4 by auto
  with carries_trans [OF f1(1)] carries_trans f2 show "carries env d d'" by blast
  show "isConnected d'" using asks_connected [OF e(1)] f2 e(2) 4 by (auto simp: isConnected_def)
  show "print_at st d'" using e f2 4 ne by (auto simp: print_at_def asks_def same_job_def)
qed

section \<open>The run\<close>

text \<open>Updates one after the other, as the main loop calls them, each with the events that come from the port
  meanwhile.\<close>

fun mb_run :: "'g mb_env \<Rightarrow> read_ev list list \<Rightarrow> 'g MakerbotDriver \<Rightarrow> 'g MakerbotDriver outcome option" where
  "mb_run env [] d = Some (Go d)"
| "mb_run env (es # ess) d = obind (op_update (makerbot_ops env) es d) (\<lambda>(timeout, d1). mb_run env ess d1)"

lemma mb_run_carries:
  "mb_run env ess d = Some (Go d') \<Longrightarrow> job_ok d \<Longrightarrow> writes_s3g env \<Longrightarrow> isConnected d \<Longrightarrow> st = PRINTING \<or> st = STOPPING \<Longrightarrow>
     print_at st d \<Longrightarrow> carries env d d' \<and> print_at st d'"
proof (induction ess arbitrary: d)
  case Nil
  then show ?case using asks_carries [OF asks_refl] by auto
next
  case (Cons es ess)
  let ?d = "d\<lparr>port_events := port_events d @ es\<rparr>"
  obtain n d1 where 1: "MB_update env ?d = Some (Go (n, d1))" "mb_run env ess d1 = Some (Go d')"
    using Cons.prems(1) by (auto simp: obind_Go makerbot_ops_def)
  have d: "job_ok ?d" "isConnected ?d" "print_at st ?d"
    using Cons.prems by (simp_all add: job_ok_events isConnected_def print_at_def)
  note u = update_carries [OF 1(1) d(1) Cons.prems(3) d(2) Cons.prems(5) d(3)]
  have "carries env d d1" using u(1) by simp
  then show ?case
    using Cons.IH [OF 1(2) update_job [OF 1(1) d(1) Cons.prems(3)] Cons.prems(3) u(2) Cons.prems(5) u(3)] carries_trans by blast
qed

section \<open>The property\<close>

text \<open>C5: A Makerbot print, at any time. Starting with a driver that is printing or stopping, and whatever the
  printer answers, after any number of updates: the lines gone from the buffer were taken from its front as texts
  of one to 25 lines that were converted in order; what was in the queue, followed by the commands of these texts, is what was sent
  followed by what is in the queue now; and what was written is exactly the packets of the commands sent, in
  order, each one to five times, with nothing but questions between them. The driver is still in its state or idle,
  and when it is idle nothing is left: every line was converted and every command sent.\<close>

theorem makerbot_print:
  assumes "writes_s3g env" "job_ok d" "isConnected d" "is_active d" "mb_run env ess d = Some (Go d')"
  shows "\<exists>ts cs sent ns qs w.
    job_lines d = concat (map text_lines ts) @ job_lines d' \<and>
    (\<forall>t \<in> set ts. 1 \<le> length (text_lines t) \<and> length (text_lines t) \<le> GCODE_CVT_LINES) \<and>
    convert_all env (gpx d) ts = Some (cs, gpx d') \<and> queue d @ cs = sent @ queue d' \<and> length ns = length sent \<and> (\<forall>n \<in> set ns. 1 \<le> n \<and> n \<le> RETRIES) \<and>
    set qs \<subseteq> questions \<and> w \<in> shuffles (sent_as ns sent) qs \<and> written (serial d') = written (serial d) @ w \<and>
    (dstate d' = dstate d \<or> dstate d' = IDLE \<and> queue d' = [] \<and> job_lines d' = [])"
proof -
  have "carries env d d' \<and> print_at (dstate d) d'"
    by (rule mb_run_carries [OF assms(5,2,1,3)]) (use assms(4) in \<open>auto simp: is_active_def print_at_def\<close>)
  then show ?thesis unfolding carries_def print_at_def by blast
qed

text \<open>One command in the queue: in the first update the printer has its whole buffer free and the command is sent, in
  the second it is free again and the print is over.\<close>

lemma demo_refill: "refill demo_mb_env d = Some d" if "job_ok d" "job_lines d = []" for d :: "unit MakerbotDriver"
proof -
  have "gcb_ok (gcodeBuffer d)" using that(1) by (simp add: job_ok_def)
  from getNextLine_none [OF this that(2)] show ?thesis by (simp add: refill.simps [of demo_mb_env d] convertGCode_def)
qed

theorem makerbot_print_witness:
  "\<exists>d' ns qs w. mb_run demo_mb_env [answer [0x81, 0, 2, 0, 0] @ answer [0x81], answer [0x81, 0, 2, 0, 0]]
       (demo_mb PRINTING [query [137, 31]] []) = Some (Go d') \<and> dstate d' = IDLE \<and> queue d' = [] \<and>
     w \<in> shuffles (sent_as ns [query [137, 31]]) qs \<and> length ns = 1 \<and> set qs \<subseteq> questions \<and> written (serial d') = w"
proof -
  let ?c = "query [137, 31]" and ?s = "answer [0x81, 0, 2, 0, 0]"
  let ?start = "demo_mb PRINTING [?c] []" and ?d = "demo_mb PRINTING [?c] (?s @ answer [0x81])"
  let ?e = "(packet_out (query [2]) True 2 ?d)\<lparr>port_events := answer [0x81], bufferSpace := 512, validResponseReceived := True\<rparr>"
  have ne: "?c \<noteq> []" by (simp add: query_def)
  have job: "job_ok ?d" "job_ok ?start" using ne by (simp_all add: demo_job)
  have l0: "job_lines ?d = []" by (simp add: GCodeBuffer_init_def lines_of_def)
  have 1: "requestBufferSpace demo_mb_env ?d = Some (Go (512, ?e))"
    using request_answer [of ?d 0 2 0 0 "answer [0x81]" demo_mb_env 512] demo_space_512 by (simp add: demo_mb_def)
  obtain d1 where 2: "sendPacket demo_mb_env ?c True (?e\<lparr>queue := []\<rparr>) = Some (Go (True, d1))" and p1: "port_events d1 = []"
    using sendPacket_answer [of "?e\<lparr>queue := []\<rparr>" "[0x81]" "[]" ?c 137 demo_mb_env True]
    by (auto simp: interpret_response_def payload_at_def query_def)
  have j: "same_job (?e\<lparr>queue := []\<rparr>) d1" by (rule sendPacket_job(1) [OF 2])
  have c0: "counter ?d = 0" by (simp add: demo_mb_def MakerbotDriver_init_def AbstractDriver.defs Let_def)
  have f1: "queue d1 = []" "dstate d1 = PRINTING" "gcodeBuffer d1 = gcodeBuffer ?d" "counter d1 = 0" "isConnected d1" "parser d1 = parser ?d"
    using j c0 demo_mb_facts(1) [of PRINTING "[?c]" "?s @ answer [0x81]"]
    by (auto simp: same_job_def isConnected_def serial_isOpen_def serial_write_def)
  have pq: "processQueue demo_mb_env ?d = Some (Go (d1\<lparr>queue := []\<rparr>))"
    using 1 2 by (simp add: processQueue_def demo_mb_def query_def)
  let ?d1 = "d1\<lparr>queue := [], counter := 1\<rparr>"
  have u1: "MB_update demo_mb_env ?d = Some (Go (33, ?d1))"
    using demo_refill [OF job(1) l0] pq f1(4) by (simp add: MB_update_def is_active_def QUEUE_MIN_SIZE_def UPDATE_TICKS_def)
  let ?d2 = "?d1\<lparr>port_events := ?s\<rparr>"
  have j2: "job_ok ?d2" "job_lines ?d2 = []" using job(1) l0 f1 by (simp_all add: job_ok_def)
  obtain d3 where 3: "requestBufferSpace demo_mb_env ?d2 = Some (Go (512, d3))" "counter d3 = 1" "queue d3 = []"
    using request_answer [of ?d2 0 2 0 0 "[]" demo_mb_env 512] demo_space_512 by simp
  have u2: "MB_update demo_mb_env ?d2 = Some (Go (33, (setState IDLE d3)\<lparr>counter := 2\<rparr>))"
    using demo_refill [OF j2] 3 f1(1,2,5)
    by (simp add: MB_update_def processQueue_def is_active_def isConnected_def setState_def QUEUE_MIN_SIZE_def UPDATE_TICKS_def PRINTER_BUFFER_SIZE_def)
  have e: "?start\<lparr>port_events := es\<rparr> = demo_mb PRINTING [?c] es" for es by (simp add: demo_mb_def)
  have "mb_run demo_mb_env [?s @ answer [0x81], ?s] ?start = Some (Go ((setState IDLE d3)\<lparr>counter := 2\<rparr>))"
    using u1 u2 p1 by (simp add: makerbot_ops_def e)
  note run = this
  have act: "is_active ?start" "isConnected ?start" by (simp_all add: is_active_def)
  have l: "job_lines ?start = []" using l0 by simp
  obtain ts cs sent ns qs w where m: "[] = concat (map text_lines ts) @ job_lines d3"
    "\<forall>t \<in> set ts. 1 \<le> length (text_lines t)" "convert_all demo_mb_env () ts = Some (cs, ())"
    "[?c] @ cs = sent" "length ns = length sent" "set qs \<subseteq> questions" "w \<in> shuffles (sent_as ns sent) qs" "written (serial d3) = w"
    using makerbot_print [OF demo_writes_s3g job(2) act(2,1) run] unfolding l by (auto simp: setState_def 3(3))
  have "ts = []" using m(1,2) by (cases ts) auto
  then have "sent = [?c]" using m(3,4) by simp
  then show ?thesis using run m(5-8) 3(3)
    by (intro exI [of _ "(setState IDLE d3)\<lparr>counter := 2\<rparr>"] exI [of _ ns] exI [of _ qs] exI [of _ w]) (simp add: setState_def)
qed

end
