(* ===== verification/UnitTests.thy ===== *)
theory UnitTests
  imports Marlin
begin

text \<open>
  The unit tests of the repository, \<open>src/src/unittest/server/t_GCodeBuffer.cpp\<close> and
  \<open>t_MarlinDriver.cpp\<close>, run on the model: one definition per test, with the state passed along and
  the assertions in their order, and a lemma that the test passes. The tests are evaluated by the simplifier,
  except the one that fills a buffer, which the lemmas on appending prove. \<open>testBucketBoundaries\<close>,
  which the tests do not register and which is a reminder that fails by itself, is left out.
\<close>

section \<open>Assertions\<close>

text \<open>A failed assertion ends the test here with \<open>None\<close>; a test passes when it is \<open>Some ()\<close>.\<close>

definition fructose_assert_eq :: "'a \<Rightarrow> 'a \<Rightarrow> unit option" where
  "fructose_assert_eq a b = (if a = b then Some () else None)"

lemma fructose_assert_eq_refl [simp]: "fructose_assert_eq a a = Some ()"
  by (simp add: fructose_assert_eq_def)

abbreviation meta :: "int \<Rightarrow> int \<Rightarrow> string option \<Rightarrow> MetaData option" where
  "meta n t s \<equiv> Some \<lparr>seqNumber = n, seqTotal = t, source = s\<rparr>"

section \<open>The g-code buffer\<close>

definition testSet :: "unit option" where
  "testSet = do {
     let buffer = GCodeBuffer_init;
     fructose_assert_eq (totalLinesSent buffer) 0;
     (_, buffer) \<leftarrow> gcb_set [] (-1) None buffer;
     fructose_assert_eq (totalLinesSent buffer) 0;
     fructose_assert_eq (totalLinesSent buffer) 0;
     (_, buffer) \<leftarrow> gcb_set ''abc'' (-1) None buffer;
     fructose_assert_eq (totalLinesSent buffer) 1;
     let buffer = gcb_clear buffer;
     fructose_assert_eq (totalLinesSent buffer) 0;
     (_, buffer) \<leftarrow> gcb_set ''abc\<newline>'' (-1) None buffer;
     fructose_assert_eq (totalLinesSent buffer) 1;
     let buffer = gcb_clear buffer;
     fructose_assert_eq (totalLinesSent buffer) 0;
     (_, buffer) \<leftarrow> gcb_set ''abc\<newline>'' (-1) None buffer;
     fructose_assert_eq (totalLinesSent buffer) 1
   }"

definition testAppend :: "unit option" where
  "testAppend = do {
     let buffer = GCodeBuffer_init;
     (_, buffer) \<leftarrow> gcb_set ''abc\<newline>'' (-1) None buffer;
     (_, buffer) \<leftarrow> gcb_append ''xyz\<newline>next line'' (-1) None buffer;
     fructose_assert_eq (totalLinesSent buffer) 3;
     let buffer = gcb_clear buffer;
     (_, buffer) \<leftarrow> gcb_append ''def\<newline>more data\<newline>'' (-1) None buffer;
     fructose_assert_eq (totalLinesSent buffer) 2
   }"

definition testAppendWithoutNewlines :: "unit option" where
  "testAppendWithoutNewlines = do {
     let buffer = GCodeBuffer_init;
     (_, buffer) \<leftarrow> gcb_set ''abc'' (-1) None buffer;
     (_, buffer) \<leftarrow> gcb_append ''def'' (-1) None buffer;
     fructose_assert_eq (totalLinesSent buffer) 2;
     let (_, lineBuf) = getNextLine 1 buffer;
     (_, buffer) \<leftarrow> eraseLine 1 buffer;
     fructose_assert_eq lineBuf ''abc'';
     let (_, lineBuf) = getNextLine 1 buffer;
     (_, buffer) \<leftarrow> eraseLine 1 buffer;
     fructose_assert_eq lineBuf ''def''
   }"

definition testAppendConsistencyChecks :: "unit option" where
  "testAppendConsistencyChecks = do {
     let buffer = GCodeBuffer_init;
     (rv, buffer) \<leftarrow> gcb_set ''abc'' (-1) (meta 0 3 None) buffer;
     fructose_assert_eq rv GSR_OK;
     (rv, buffer) \<leftarrow> gcb_append ''def_no1'' (-1) (meta 0 3 None) buffer;
     fructose_assert_eq rv GSR_SEQ_NUM_MISMATCH;
     (rv, buffer) \<leftarrow> gcb_append ''def_no2'' (-1) (meta (-1) 3 None) buffer;
     fructose_assert_eq rv GSR_SEQ_NUM_MISSING;
     (rv, buffer) \<leftarrow> gcb_append ''def_no3'' (-1) (meta 1 4 None) buffer;
     fructose_assert_eq rv GSR_SEQ_TTL_MISMATCH;
     (rv, buffer) \<leftarrow> gcb_append ''def_no4'' (-1) (meta 1 (-1) None) buffer;
     fructose_assert_eq rv GSR_SEQ_TTL_MISSING;
     (rv, buffer) \<leftarrow> gcb_append ''def_no5'' (-1) (meta 2 3 None) buffer;
     fructose_assert_eq rv GSR_SEQ_NUM_MISMATCH;
     (rv, buffer) \<leftarrow> gcb_append ''def'' (-1) (meta 1 3 None) buffer;
     fructose_assert_eq rv GSR_OK;
     (rv, buffer) \<leftarrow> gcb_append ''ghi_no1'' (-1) (meta 1 3 None) buffer;
     fructose_assert_eq rv GSR_SEQ_NUM_MISMATCH;
     (rv, buffer) \<leftarrow> gcb_append ''ghi'' (-1) (meta 2 3 None) buffer;
     fructose_assert_eq rv GSR_OK;
     (rv, buffer) \<leftarrow> gcb_append ''ghi_no2'' (-1) (meta 3 3 None) buffer;
     fructose_assert_eq rv GSR_SEQ_NUM_MISMATCH;
     fructose_assert_eq (totalLinesSent buffer) 3;
     fructose_assert_eq (getNextLine 1 buffer) (1, ''abc'');
     (_, buffer) \<leftarrow> eraseLine 1 buffer;
     fructose_assert_eq (getNextLine 1 buffer) (1, ''def'');
     (_, buffer) \<leftarrow> eraseLine 1 buffer;
     fructose_assert_eq (getNextLine 1 buffer) (1, ''ghi'');
     (_, buffer) \<leftarrow> eraseLine 1 buffer;
     let srcName1 = ''from_here''; let srcName2 = ''from_there'';
     let buffer = gcb_clear buffer;
     (rv, buffer) \<leftarrow> gcb_set ''abc'' (-1) (meta 0 3 None) buffer;
     fructose_assert_eq rv GSR_OK;
     (rv, buffer) \<leftarrow> gcb_append ''def'' (-1) (meta 1 3 (Some srcName1)) buffer;
     fructose_assert_eq rv GSR_OK;
     (rv, buffer) \<leftarrow> gcb_append ''ghi_no1'' (-1) (meta 2 3 None) buffer;
     fructose_assert_eq rv GSR_SRC_MISSING;
     (rv, buffer) \<leftarrow> gcb_append ''ghi_no2'' (-1) (meta 2 3 (Some srcName2)) buffer;
     fructose_assert_eq rv GSR_SRC_MISMATCH;
     (rv, buffer) \<leftarrow> gcb_append ''ghi'' (-1) (meta 2 3 (Some srcName1)) buffer;
     fructose_assert_eq rv GSR_OK;
     let buffer = gcb_clear buffer;
     (rv, buffer) \<leftarrow> gcb_set ''abc'' (-1) None buffer;
     fructose_assert_eq rv GSR_OK
   }"

definition testStartConsistencyChecks :: "unit option" where
  "testStartConsistencyChecks = do {
     let buffer = GCodeBuffer_init;
     (rv, buffer) \<leftarrow> gcb_set ''abc'' (-1) (meta 0 3 None) buffer;
     fructose_assert_eq rv GSR_OK;
     (rv, buffer) \<leftarrow> gcb_set ''abc'' (-1) (meta 1 3 None) buffer;
     fructose_assert_eq rv GSR_SEQ_NUM_MISMATCH;
     (rv, buffer) \<leftarrow> gcb_set ''abc'' (-1) (meta 0 3 None) buffer;
     fructose_assert_eq rv GSR_OK;
     (rv, buffer) \<leftarrow> gcb_set ''abc'' (-1) None buffer;
     fructose_assert_eq rv GSR_OK;
     (rv, buffer) \<leftarrow> gcb_append ''def'' (-1) (meta 0 3 None) buffer;
     fructose_assert_eq rv GSR_SEQ_NUM_MISMATCH;
     let buffer = gcb_clear buffer;
     (rv, buffer) \<leftarrow> gcb_append ''def'' (-1) (meta 0 3 None) buffer;
     fructose_assert_eq rv GSR_OK
   }"

definition testGetErase :: "unit option" where
  "testGetErase = do {
     let buffer = GCodeBuffer_init;
     let line1 = ''line 1''; let line2 = ''line 2''; let line3 = ''line 3''; let line4 = ''line 4'';
     (_, buffer) \<leftarrow> gcb_append (line1 @ ''\<newline>'' @ line2 @ ''\<newline>'' @ line3 @ ''\<newline>'' @ line4) (-1) None buffer;
     fructose_assert_eq (totalLinesSent buffer) 4;
     fructose_assert_eq (getNextLine 1 buffer) (1, line1);
     fructose_assert_eq (getNextLine 1 buffer) (1, line1);
     (_, buffer) \<leftarrow> eraseLine 1 buffer;
     fructose_assert_eq (getNextLine 1 buffer) (1, line2);
     (_, buffer) \<leftarrow> eraseLine 1 buffer;
     fructose_assert_eq (getNextLine 1 buffer) (1, line3);
     (_, buffer) \<leftarrow> eraseLine 1 buffer;
     fructose_assert_eq (getNextLine 1 buffer) (1, line4);
     (_, buffer) \<leftarrow> eraseLine 1 buffer;
     fructose_assert_eq (getNextLine 1 buffer) (0, [])
   }"

definition testCleanup :: "unit option" where
  "testCleanup = do {
     let buffer = GCodeBuffer_init;
     (_, buffer) \<leftarrow> gcb_set ''line   ;  with comment'' (-1) None buffer;
     fructose_assert_eq (totalLinesSent buffer) 1;
     fructose_assert_eq (getNextLine 1 buffer) (1, ''line   '');
     (_, buffer) \<leftarrow> gcb_set '';  pure comment'' (-1) None buffer;
     fructose_assert_eq (totalLinesSent buffer) 0;
     fructose_assert_eq (getNextLine 1 buffer) (0, []);
     (_, buffer) \<leftarrow> gcb_set (''car+new mix'' @ [CR, NL, CR, NL, NL, NL, NL]) (-1) None buffer;
     fructose_assert_eq (totalLinesSent buffer) 1;
     fructose_assert_eq (getNextLine 1 buffer) (1, ''car+new mix'')
   }"

definition testLineCounting :: "unit option" where
  "testLineCounting = do {
     let buffer = GCodeBuffer_init;
     fructose_assert_eq (currentLine buffer) 0;
     fructose_assert_eq (bufferedLines buffer) 0;
     fructose_assert_eq (totalLinesSent buffer) 0;
     let buffer = setCurrentLine 42 buffer;
     fructose_assert_eq (currentLine buffer) 0;
     (_, buffer) \<leftarrow> gcb_set ''line 1\<newline>line 2\<newline> line 3'' (-1) None buffer;
     fructose_assert_eq (currentLine buffer) 0;
     fructose_assert_eq (bufferedLines buffer) 3;
     fructose_assert_eq (totalLinesSent buffer) 3;
     let buffer = setCurrentLine 3 buffer;
     fructose_assert_eq (currentLine buffer) 3;
     (_, buffer) \<leftarrow> eraseLine 1 buffer;
     fructose_assert_eq (currentLine buffer) 3;
     fructose_assert_eq (bufferedLines buffer) 2;
     fructose_assert_eq (totalLinesSent buffer) 3;
     let buffer = gcb_clear buffer;
     fructose_assert_eq (currentLine buffer) 0;
     fructose_assert_eq (bufferedLines buffer) 0;
     fructose_assert_eq (totalLinesSent buffer) 0
   }"

definition testBufferSize :: "unit option" where
  "testBufferSize = do {
     let buffer = GCodeBuffer_init;
     let text1 = ''line1\<newline>line2\<newline>line3\<newline>''; let text2 = ''line1\<newline>line2;comment\<newline>line3\<newline>''; let text3 = ''appended\<newline>'';
     fructose_assert_eq (bufferSize buffer) 0;
     (_, buffer) \<leftarrow> gcb_set text1 (-1) None buffer;
     fructose_assert_eq (bufferSize buffer) (int (length text1));
     (_, buffer) \<leftarrow> gcb_set text2 (-1) None buffer;
     fructose_assert_eq (bufferSize buffer) (int (length text2) - 8);
     (_, buffer) \<leftarrow> eraseLine 1 buffer;
     fructose_assert_eq (bufferSize buffer) (int (length text2) - 8 - 6);
     (_, buffer) \<leftarrow> gcb_append text3 (-1) None buffer;
     fructose_assert_eq (bufferSize buffer) (int (length text2) - 8 - 6 + int (length text3));
     let buffer = gcb_clear buffer;
     fructose_assert_eq (bufferSize buffer) 0
   }"

definition testMultiLineGet :: "unit option" where
  "testMultiLineGet = do {
     let buffer = GCodeBuffer_init;
     let l1nl = ''line 1\<newline>''; let l2nl = ''line 2\<newline>''; let l3nl = ''line 3\<newline>'';
     let l1noNl = ''line 1''; let l2noNl = ''line 2''; let l3noNl = ''line 3'';
     (_, buffer) \<leftarrow> gcb_set (l1nl @ l2nl @ l3nl) (-1) None buffer;
     fructose_assert_eq (bufferedLines buffer) 3;
     fructose_assert_eq (getNextLine 1 buffer) (1, l1noNl);
     fructose_assert_eq (getNextLine 1 buffer) (1, l1noNl);
     fructose_assert_eq (getNextLine 2 buffer) (2, l1nl @ l2noNl);
     fructose_assert_eq (getNextLine 3 buffer) (3, l1nl @ l2nl @ l3noNl);
     fructose_assert_eq (fst (getNextLine 4 buffer)) 3;
     (_, buffer) \<leftarrow> gcb_set (l1nl @ l2nl @ l3noNl) (-1) None buffer;
     fructose_assert_eq (getNextLine 3 buffer) (3, l1nl @ l2nl @ l3noNl)
   }"

definition testMultiLineErase :: "unit option" where
  "testMultiLineErase = do {
     let buffer = GCodeBuffer_init;
     let l1nl = ''line 1\<newline>''; let l2nl = ''line 2\<newline>''; let l3nl = ''line 3\<newline>''; let l3noNl = ''line 3'';
     (_, buffer) \<leftarrow> gcb_set (l1nl @ l2nl @ l3nl) (-1) None buffer;
     fructose_assert_eq (bufferedLines buffer) 3;
     fructose_assert_eq (getNextLine 3 buffer) (3, l1nl @ l2nl @ l3noNl);
     (rv, buffer) \<leftarrow> eraseLine 2 buffer;
     fructose_assert_eq rv 2;
     fructose_assert_eq (bufferedLines buffer) 1;
     fructose_assert_eq (fst (getNextLine 2 buffer)) 1;
     fructose_assert_eq (getNextLine 1 buffer) (1, l3noNl);
     (rv, buffer) \<leftarrow> eraseLine 1 buffer;
     fructose_assert_eq rv 1;
     fructose_assert_eq (bufferedLines buffer) 0;
     (rv, buffer) \<leftarrow> eraseLine 1 buffer;
     fructose_assert_eq rv 0;
     fructose_assert_eq (bufferedLines buffer) 0
   }"

text \<open>The loop of the test appends the same text a number of times.\<close>

definition testMaxBufferSize :: "unit option" where
  "testMaxBufferSize = do {
     let buffer = GCodeBuffer_init;
     let maxSize = getMaxBufferSize;
     let char1k = replicate 1023 (CHR ''5'') @ ''\<newline>'';
     fructose_assert_eq (bufferSize buffer) 0;
     buffer \<leftarrow> fold_option (\<lambda>buffer i. do {
         (rv, buffer) \<leftarrow> gcb_append char1k (-1) None buffer;
         fructose_assert_eq rv GSR_OK;
         Some buffer
       }) buffer [0 ..< nat (maxSize div 1024 - 1)];
     fructose_assert_eq (bufferSize buffer) (maxSize - 1024 - maxSize mod 1024);
     let oneTooMany = replicate (nat (1024 + maxSize mod 1024)) (CHR ''n'') @ ''\<newline>'';
     let exactlyEnough = replicate (nat (1024 + maxSize mod 1024 - 1)) (CHR ''y'') @ ''\<newline>'';
     (rv, buffer) \<leftarrow> gcb_append oneTooMany (-1) None buffer;
     fructose_assert_eq rv GSR_BUFFER_FULL;
     fructose_assert_eq (bufferSize buffer) (maxSize - 1024 - maxSize mod 1024);
     (rv, buffer) \<leftarrow> gcb_append exactlyEnough (-1) None buffer;
     fructose_assert_eq rv GSR_OK;
     fructose_assert_eq (bufferSize buffer) maxSize
   }"

definition testSetTotalLines :: "unit option" where
  "testSetTotalLines = do {
     let buffer = GCodeBuffer_init;
     fructose_assert_eq (getTotalLines buffer) 0;
     fructose_assert_eq (totalLinesSent buffer) 0;
     (_, buffer) \<leftarrow> gcb_append ''line1\<newline>line2'' (-1) None buffer;
     fructose_assert_eq (getTotalLines buffer) 2;
     fructose_assert_eq (totalLinesSent buffer) 2;
     (_, buffer) \<leftarrow> eraseLine 1 buffer;
     fructose_assert_eq (getTotalLines buffer) 2;
     fructose_assert_eq (totalLinesSent buffer) 2;
     (_, buffer) \<leftarrow> gcb_append ''line3'' 15 None buffer;
     fructose_assert_eq (getTotalLines buffer) 15;
     fructose_assert_eq (totalLinesSent buffer) 3;
     (_, buffer) \<leftarrow> gcb_append ''line3'' (-1) None buffer;
     fructose_assert_eq (getTotalLines buffer) 15;
     fructose_assert_eq (totalLinesSent buffer) 4;
     (_, buffer) \<leftarrow> eraseLine 1 buffer;
     fructose_assert_eq (getTotalLines buffer) 15;
     fructose_assert_eq (totalLinesSent buffer) 4;
     let buffer = gcb_clear buffer;
     fructose_assert_eq (getTotalLines buffer) 0;
     fructose_assert_eq (totalLinesSent buffer) 0
   }"

section \<open>The Marlin driver\<close>

text \<open>The four temperatures of a driver, in the order the tests look at them.\<close>

definition temps :: "MarlinDriver \<Rightarrow> 16 word \<times> 16 word \<times> 16 word \<times> 16 word" where
  "temps d = (temperature d, targetTemperature d, bedTemperature d, targetBedTemperature d)"

definition testTemperatureParsing :: "unit option" where
  "testTemperatureParsing = do {
     let d = MarlinDriver_init [] 0;
     d \<leftarrow> parseTemperatures ''T:19 /0.0 B:0.0 /0.0 @:0 B@:0'' d;
     fructose_assert_eq (temps d) (19, 0, 0, 0);
     d \<leftarrow> parseTemperatures ''ok T:19.9 /0.0 B:0.0 /0.0 @:0 B@:0'' d;
     fructose_assert_eq (temps d) (19, 0, 0, 0);
     d \<leftarrow> parseTemperatures ''ok T:19.0 /180.5 B:0.0 /0.0 @:0 B@:0'' d;
     fructose_assert_eq (temperature d, targetTemperature d) (19, 180);
     d \<leftarrow> parseTemperatures ''ok T:19.9 /180.5 B:90.0 /150.9 @:0 B@:0'' d;
     fructose_assert_eq (temps d) (19, 180, 90, 150);
     let d = d\<lparr>targetTemperature := 5, bedTemperature := 25, targetBedTemperature := 85\<rparr>;
     d \<leftarrow> parseTemperatures ''ok T:19.1 @:0'' d;
     fructose_assert_eq (temps d) (19, 5, 25, 85);
     d \<leftarrow> parseTemperatures ''ok T:19.1 @:0'' d;
     d \<leftarrow> parseTemperatures ''ok T:19.1 /0.0 @:0 B:29.0 /0.0 '' d;
     d \<leftarrow> parseTemperatures ''ok T:19.1 @:0 B:29.0 '' d;
     Some ()
   }"

definition testExtractGCodeInfo :: "unit option" where
  "testExtractGCodeInfo = do {
     let d = (MarlinDriver_init [] 0)\<lparr>targetTemperature := 0, targetBedTemperature := 0\<rparr>;
     d \<leftarrow> extractGCodeInfo ''M109 S220'' d;
     fructose_assert_eq (targetTemperature d) 220;
     d \<leftarrow> extractGCodeInfo ''M90\<newline>M91\<newline>M109 S60\<newline>M92\<newline>G0 X10.600 Y10.050 Z0.200 F2100.000 E0.000'' d;
     fructose_assert_eq (targetTemperature d) 60;
     d \<leftarrow> extractGCodeInfo ''M190 S100'' d;
     fructose_assert_eq (targetBedTemperature d) 100;
     d \<leftarrow> extractGCodeInfo ''M90\<newline>M91\<newline>M190 S70\<newline>M92\<newline>G0 X10.600 Y10.050 Z0.200 F2100.000 E0.000'' d;
     fructose_assert_eq (targetBedTemperature d) 70;
     d \<leftarrow> extractGCodeInfo ''M190 S10\<newline>M109 S25\<newline>M190 S40\<newline>M109 S45'' d;
     fructose_assert_eq (targetTemperature d) 45;
     fructose_assert_eq (targetBedTemperature d) 40;
     let d = d\<lparr>targetTemperature := 0, targetBedTemperature := 0\<rparr>;
     d \<leftarrow> extractGCodeInfo ''M104 S15\<newline>M140 S32'' d;
     fructose_assert_eq (targetTemperature d) 0;
     fructose_assert_eq (targetBedTemperature d) 0
   }"

section \<open>The tests pass\<close>

text \<open>
  The operations are evaluated with the value of each \<open>let\<close> first (\<open>let_weak_cong\<close>).
\<close>

lemmas buffer_eval = gcb_set_def gcb_append_def append_sanity_def append_loop.simps appendChunk_def cleanupGCode_def
  strip_comments.simps collapse_nl.simps cr_to_nl_def updateStats_def find_char_def find_str_def gcb_clear_def
  GCodeBuffer_init_def MetaData_init_def MAX_BUFFER_SIZE_def MAX_BUCKET_SIZE_def BUFFER_SPLIT_SIZE_def
  getNextLine_def eraseLine_def setCurrentLine_def getTotalLines_def Let_def

lemma find_more_numeral:
  "find_more b (numeral v) pos counter =
     (case find_char NL b (case pos of None \<Rightarrow> 0 | Some p \<Rightarrow> p + 1) of
        None \<Rightarrow> (None, counter)
      | Some p \<Rightarrow> find_more b (pred_numeral v) (Some p) (counter + 1))"
  by (simp add: numeral_eq_Suc)

lemma test_set: "testSet = Some ()"
  by (simp add: testSet_def buffer_eval cong: let_weak_cong)

lemma test_append: "testAppend = Some ()"
  by (simp add: testAppend_def buffer_eval cong: let_weak_cong)

lemma test_appendWithoutNewlines: "testAppendWithoutNewlines = Some ()"
  by (simp add: testAppendWithoutNewlines_def buffer_eval cong: let_weak_cong)

lemma test_appendConsistencyChecks: "testAppendConsistencyChecks = Some ()"
  by (simp add: testAppendConsistencyChecks_def buffer_eval fructose_assert_eq_def cong: let_weak_cong)

lemma test_startConsistencyChecks: "testStartConsistencyChecks = Some ()"
  by (simp add: testStartConsistencyChecks_def buffer_eval fructose_assert_eq_def cong: let_weak_cong)

lemma test_getErase: "testGetErase = Some ()"
  by (simp add: testGetErase_def buffer_eval cong: let_weak_cong)

lemma test_cleanup: "testCleanup = Some ()"
  by (simp add: testCleanup_def buffer_eval cong: let_weak_cong)

lemma test_lineCounting: "testLineCounting = Some ()"
  by (simp add: testLineCounting_def buffer_eval cong: let_weak_cong)

lemma test_bufferSize: "testBufferSize = Some ()"
  by (simp add: testBufferSize_def buffer_eval cong: let_weak_cong)

lemma test_multiLineGet: "testMultiLineGet = Some ()"
  by (simp add: testMultiLineGet_def buffer_eval find_more_numeral cong: let_weak_cong)

lemma test_multiLineErase: "testMultiLineErase = Some ()"
  by (simp add: testMultiLineErase_def buffer_eval find_more_numeral cong: let_weak_cong)

lemma test_setTotalLines: "testSetTotalLines = Some ()"
  by (simp add: testSetTotalLines_def buffer_eval cong: let_weak_cong)

lemma uncomment_plain: "CHR '';'' \<notin> set s \<Longrightarrow> uncomment keep s = s"
  by (induction s) (auto simp: uncomment.simps)

lemma gcode_lines_plain:
  assumes "is_line l" "CHR '';'' \<notin> set l" "CR \<notin> set l"
  shows "gcode_lines keep (l @ [NL]) = [l]"
proof -
  have "map cr_to_nl (l @ [NL]) = l @ [NL]"
    using assms(3) by (auto simp: cr_to_nl_def intro!: map_idI)
  then show ?thesis
    using text_lines_unlines0 [of "[l]"] assms(1,2) by (simp add: gcode_lines_def uncomment_plain)
qed

text \<open>A plain line of less than 8192 bytes that fits is stored with its newline, byte for byte.\<close>

lemma append_plain:
  assumes ok: "gcb_ok g" "0 \<le> bufferSize g" "md g = MetaData_init"
    and l: "is_line l" "CHR '';'' \<notin> set l" "CR \<notin> set l" "length l < 8191"
    and fits: "bufferSize g + int (length l) + 1 \<le> MAX_BUFFER_SIZE"
  obtains g' where "gcb_append (l @ [NL]) (-1) None g = Some (GSR_OK, g')" "gcb_ok g'" "md g' = MetaData_init"
    "bufferSize g' = bufferSize g + int (length l) + 1"
proof -
  let ?s = "l @ [NL]"
  have new: "gcode_lines (keepGpxMacroComments g) ?s = [l]" by (rule gcode_lines_plain [OF l(1-3)])
  have "append_loop g ?s 0 = appendChunk g ?s"
    using l(4) by (simp add: append_loop.simps find_char_def BUFFER_SPLIT_SIZE_def)
  moreover have "append_sanity g None = GSR_OK"
    using ok(3) by (simp add: append_sanity_def MetaData_init_def)
  moreover have "(bufferSize g + int (length ?s)) mod 2 ^ 64 \<le> MAX_BUFFER_SIZE"
    using ok(2) fits by (simp add: MAX_BUFFER_SIZE_def)
  ultimately have "gcb_append ?s (-1) None g = Some (GSR_OK, appendChunk g ?s)"
    by (simp add: gcb_append_def)
  moreover obtain bs sz where c: "appendChunk g ?s = g\<lparr>buckets := bs, bufferSize := sz,
       bufferedLines := bufferedLines g + int (length [l]), totalLinesSent := totalLinesSent g + int (length [l])\<rparr>"
    "sz = bufferSize g + int (length (unlines [l])) \<or> vanishes (keepGpxMacroComments g) ?s \<and> [l] = [] \<and> sz = bufferSize g + int (length ?s)"
    using appendChunk_effect [OF ok(1), of ?s] unfolding new by metis
  moreover have "gcb_ok (appendChunk g ?s)"
    using appendChunk_adds(1) [OF ok(1), of ?s] by (rule addsD)
  ultimately show ?thesis using that ok(3) by (auto simp: c(1))
qed

lemma test_maxBufferSize: "testMaxBufferSize = Some ()"
proof -
  let ?k = "replicate 1023 (CHR ''5'')"
  let ?f = "\<lambda>buffer i. do { (rv, buffer) \<leftarrow> gcb_append (?k @ ''\<newline>'') (-1) None buffer; fructose_assert_eq rv GSR_OK; Some buffer }"
  have fill: "\<exists>g'. fold_option ?f g [0..<n] = Some g' \<and> gcb_ok g' \<and> md g' = MetaData_init \<and> bufferSize g' = bufferSize g + 1024 * int n"
    if "gcb_ok g" "0 \<le> bufferSize g" "md g = MetaData_init" "bufferSize g + 1024 * int n \<le> MAX_BUFFER_SIZE" for g n
    using that
  proof (induction n)
    case (Suc n)
    then obtain g1 where g1: "fold_option ?f g [0..<n] = Some g1" "gcb_ok g1" "md g1 = MetaData_init" "bufferSize g1 = bufferSize g + 1024 * int n"
      by auto
    obtain g2 where "gcb_append (?k @ [NL]) (-1) None g1 = Some (GSR_OK, g2)" "gcb_ok g2" "md g2 = MetaData_init"
      "bufferSize g2 = bufferSize g1 + int (length ?k) + 1"
      by (rule append_plain [of g1 ?k]) (use Suc.prems g1 in \<open>auto simp: is_line_def\<close>)
    then show ?case using g1 by (simp add: fold_option_append)
  qed simp
  have sizes: "getMaxBufferSize div 1024 - 1 = int 3071" "getMaxBufferSize mod 1024 = 0" "getMaxBufferSize = 3145728"
    by (simp_all add: getMaxBufferSize_def MAX_BUFFER_SIZE_def)
  obtain g1 where g1: "fold_option ?f GCodeBuffer_init [0..<3071] = Some g1" "gcb_ok g1" "md g1 = MetaData_init" "bufferSize g1 = 3144704"
    using fill [of GCodeBuffer_init 3071] GCodeBuffer_init_inv
    by (auto simp: gcb_inv_def GCodeBuffer_init_def MAX_BUFFER_SIZE_def)
  have full: "gcb_append (replicate n c @ ''\<newline>'') (-1) None g1 = Some (GSR_BUFFER_FULL, g1)" if "n = 1024" for n c
    using that g1 by (simp add: gcb_append_def append_sanity_def MetaData_init_def MAX_BUFFER_SIZE_def)
  obtain g2 where g2: "gcb_append (replicate 1023 (CHR ''y'') @ ''\<newline>'') (-1) None g1 = Some (GSR_OK, g2)" "bufferSize g2 = 3145728"
    by (rule append_plain [of g1 "replicate 1023 (CHR ''y'')"])
      (use g1 in \<open>auto simp: is_line_def MAX_BUFFER_SIZE_def\<close>)
  have b0: "bufferSize GCodeBuffer_init = 0" by (simp add: GCodeBuffer_init_def)
  show ?thesis
    unfolding testMaxBufferSize_def Let_def sizes nat_int g1(1) Option.bind.bind_lunit b0
    by (simp add: g1(1,4) full g2)
qed

section \<open>Marlin's readings\<close>

lemma trunc_doubles:
  "trunc_double 0 10 = 0" "trunc_double 190 10 = 19" "trunc_double 191 10 = 19" "trunc_double 199 10 = 19" "trunc_double 290 10 = 29"
  "trunc_double 900 10 = 90" "trunc_double 1805 10 = 180" "trunc_double 1509 10 = 150"
  by (simp_all add: trunc_double_def round_even_def Let_def compute_floorlog)

lemmas atof_eval = atof_int_def strtod_def sign_def mantissa_def is_digit_def digit_of_def isspace_def lower_def
  exponent_def digits_val_def

lemma atof_readings:
  "atof_int ''0.0'' = Some 0" "atof_int ''19.0'' = Some 19" "atof_int ''19.1'' = Some 19" "atof_int ''19.9'' = Some 19"
  "atof_int ''29.0'' = Some 29" "atof_int ''90.0'' = Some 90" "atof_int ''180.5'' = Some 180" "atof_int ''150.9'' = Some 150"
  by (simp_all add: atof_eval trunc_doubles)

lemma atof_numbers:
  "atof_int ''19'' = Some 19" "atof_int ''220'' = Some 220" "atof_int ''60'' = Some 60" "atof_int ''100'' = Some 100"
  "atof_int ''70'' = Some 70" "atof_int ''45'' = Some 45" "atof_int ''40'' = Some 40"
  by (simp_all add: atof_eval trunc_double_int [unfolded One_nat_def])

lemmas text_search = find_str_def find_char_def store_number_def findNumber_def cstr_def

lemma test_temperatureParsing: "testTemperatureParsing = Some ()"
  by (simp add: testTemperatureParsing_def parseTemperatures_def text_search atof_readings atof_numbers temps_def)

lemma test_extractGCodeInfo: "testExtractGCodeInfo = Some ()"
  by (simp add: testExtractGCodeInfo_def extractGCodeInfo_def text_search atof_numbers)

section \<open>The two programs\<close>

definition t_GCodeBuffer :: "(string \<times> unit option) list" where
  "t_GCodeBuffer =
    [(''set'', testSet), (''append'', testAppend), (''appendWithoutNewlines'', testAppendWithoutNewlines),
     (''appendConsistencyChecks'', testAppendConsistencyChecks), (''startConsistencyChecks'', testStartConsistencyChecks),
     (''getErase'', testGetErase), (''cleanup'', testCleanup), (''lineCounting'', testLineCounting),
     (''bufferSize'', testBufferSize), (''multiLineGet'', testMultiLineGet), (''multiLineErase'', testMultiLineErase),
     (''maxBufferSize'', testMaxBufferSize), (''setTotalLines'', testSetTotalLines)]"

definition t_MarlinDriver :: "(string \<times> unit option) list" where
  "t_MarlinDriver = [(''temperatureParsing'', testTemperatureParsing), (''extractGCodeInfo'', testExtractGCodeInfo)]"

text \<open>Every registered test of the repository passes on the model.\<close>

theorem unit_tests_pass: "(name, outcome) \<in> set (t_GCodeBuffer @ t_MarlinDriver) \<Longrightarrow> outcome = Some ()"
  by (auto simp: t_GCodeBuffer_def t_MarlinDriver_def test_set test_append test_appendWithoutNewlines
      test_appendConsistencyChecks test_startConsistencyChecks test_getErase test_cleanup test_lineCounting test_bufferSize
      test_multiLineGet test_multiLineErase test_maxBufferSize test_setTotalLines test_temperatureParsing test_extractGCodeInfo)

end
