(* ===== verification/Timer.thy ===== *)
theory Timer
  imports Marlin
begin

text \<open>
  The timers of the drivers, \<open>src/src/Timer.cpp\<close>, in the build for Linux: the readings of the
  clock are arguments. The products and differences of the microseconds are below \<open>2 ^ 53\<close>, so the
  \<open>double\<close>s hold them exactly and are \<open>int\<close> here; the conversions to milliseconds and
  seconds are left out (the Marlin driver compares in microseconds). The lemmas tie the members of the
  Marlin driver, which keep the time of the start only, to the class.
\<close>

record Timer =
  startTimeInMicroSec :: int
  endTimeInMicroSec :: int
  stopped :: int
  startCount :: timeval
  endCount :: timeval

definition Timer_init :: Timer where
  "Timer_init = \<lparr>startTimeInMicroSec = 0, endTimeInMicroSec = 0, stopped = 0,
     startCount = \<lparr>tv_sec = 0, tv_usec = 0\<rparr>, endCount = \<lparr>tv_sec = 0, tv_usec = 0\<rparr>\<rparr>"

definition Timer_start :: "timeval \<Rightarrow> Timer \<Rightarrow> Timer" where
  "Timer_start now t = t\<lparr>stopped := 0, startCount := now\<rparr>"

definition Timer_stop :: "timeval \<Rightarrow> Timer \<Rightarrow> Timer" where
  "Timer_stop now t = t\<lparr>stopped := 1, endCount := now\<rparr>"

definition micros :: "timeval \<Rightarrow> int" where
  "micros tv = tv_sec tv * 1000000 + tv_usec tv"

definition getElapsedTimeInMicroSec :: "timeval \<Rightarrow> Timer \<Rightarrow> int \<times> Timer" where
  "getElapsedTimeInMicroSec now t =
     (let t1 = (if stopped t = 0 then t\<lparr>endCount := now\<rparr> else t);
          t2 = t1\<lparr>startTimeInMicroSec := micros (startCount t1), endTimeInMicroSec := micros (endCount t1)\<rparr>
      in (endTimeInMicroSec t2 - startTimeInMicroSec t2, t2))"

definition isRunning :: "Timer \<Rightarrow> bool" where
  "isRunning t \<longleftrightarrow> stopped t \<noteq> 0"

text \<open>A started timer gives the time since its start, as often as it is asked.\<close>

lemma started_measures:
  assumes "(us, t') = getElapsedTimeInMicroSec now (Timer_start t0 t)"
  shows "us = micros now - micros t0" "fst (getElapsedTimeInMicroSec later t') = micros later - micros t0"
  using assms by (simp_all add: getElapsedTimeInMicroSec_def Timer_start_def Let_def)

text \<open>A stopped timer gives the time up to its stop.\<close>

lemma stopped_measures:
  "fst (getElapsedTimeInMicroSec later (Timer_stop t1 (Timer_start t0 t))) = micros t1 - micros t0"
  by (simp add: getElapsedTimeInMicroSec_def Timer_start_def Timer_stop_def Let_def)

text \<open>The comparison in \<open>MarlinDriver::update\<close> is the one of a timer started at \<open>start\<close>.\<close>

lemma elapsed_more_timer:
  "elapsed_more (micros now) (micros t0) ms \<longleftrightarrow> fst (getElapsedTimeInMicroSec now (Timer_start t0 t)) > ms * 1000"
  by (simp add: elapsed_more_def getElapsedTimeInMicroSec_def Timer_start_def Let_def)

text \<open>The answer of \<open>isRunning\<close> is the wrong way round.\<close>

lemma isRunning_inverted:
  "\<not> isRunning (Timer_start now t)" "isRunning (Timer_stop now t)"
  by (simp_all add: isRunning_def Timer_start_def Timer_stop_def)

end
