(* ===== verification/Spec2Isabelle.thy ===== *)
theory Spec2Isabelle
  imports Prelude Utils IpcShared IpcCodec IpcText GCodeClean GCodeBuffer MarlinProtocol Factory EndToEnd MakerbotServer MarlinFeed PrintJob Startup LuaBinding LuaJob MainLoop StreamPrint MakerbotRun UnitTests Timer
begin

text \<open>
  A verification development for print3d: the print server of a 3D printer, its two printer drivers and
  the programs that talk to it.

  \<^bold>\<open>The program.\<close> The server (\<open>src/src/server\<close>) owns one driver
  (\<open>src/src/drivers\<close>), which owns the serial port and a buffer of g-code. Front-ends
  (\<open>src/src/frontends\<close>: a command line, a Lua module) connect over a local socket and send commands
  in a binary format (\<open>src/src/ipc_shared.c\<close>). The server's loop waits in \<open>select\<close>, takes
  new clients, reads and handles their commands, and calls the driver's \<open>update\<close>, whose result is
  the timeout of the next \<open>select\<close>. A driver answers the printer line by line (Marlin) or sends
  packets of converted commands (Makerbot).

  \<^bold>\<open>Theories and code.\<close> In the order of the imports:
  \<^item> \<open>Prelude\<close>: bytes, searches of \<open>std::string\<close>, newline-terminated lines,
    \<open>fold_option\<close>, and the collections of facts the proofs share.
  \<^item> \<open>Utils\<close>: \<open>utils.c\<close>. \<open>IpcShared\<close>, \<open>IpcCodec\<close>,
    \<open>IpcText\<close>: \<open>ipc_shared.c\<close> and \<open>.h\<close>; the specification \<open>encode\<close>
    of a command, that constructor and accessors are inverse, and the interface \<open>framing\<close>; the text
    form, socket path and device list.
  \<^item> \<open>GCodeClean\<close>, \<open>GCodeBuffer\<close>: \<open>GCodeBuffer.cpp\<close>; cleaning equals a one-pass
    specification (\<open>gcode_lines\<close>), the buffer refines a queue of lines (\<open>lines_of\<close>, locales
    \<open>line_queue\<close> and \<open>text_queue\<close>), its invariant is \<open>gcb_inv\<close>.
  \<^item> \<open>SerialPort\<close>: \<open>Serial.cpp\<close>. \<open>Atof\<close>: the numbers read with \<open>atof\<close>.
    \<open>Driver\<close>: \<open>AbstractDriver.cpp\<close>, a record that the two drivers extend; virtual methods are
    arguments. \<open>Timer\<close>: \<open>Timer.cpp\<close>.
  \<^item> \<open>Marlin\<close>, \<open>MarlinProtocol\<close>: \<open>MarlinDriver.cpp\<close>; the abstract printer
    queue \<open>proto\<close>, the simulation by the driver, the step relation \<open>marlin_step\<close>, the invariant
    of the \<open>reachable\<close> drivers.
  \<^item> \<open>S3GParser\<close>, \<open>Makerbot\<close>: \<open>S3GParser.h\<close>, \<open>MakerbotDriver.cpp\<close>;
    the parser against its specification, the queue of commands, packets with checksum and replies.
    \<open>Factory\<close>: \<open>DriverFactory.cpp\<close>.
  \<^item> \<open>PrintServer\<close>, \<open>ServerRun\<close>, \<open>ServerAppend\<close>: \<open>Client.cpp\<close>,
    \<open>CommandHandler.cpp\<close>, \<open>Server.cpp\<close>; one definition per handler, the loop body
    \<open>server_iteration\<close>, the locale \<open>driver_contract\<close> (what the server needs of a driver) and
    what follows for every reachable server state; transactions. \<open>MakerbotServer\<close> and \<open>EndToEnd\<close>
    interpret the contract with the two drivers. \<open>MakerbotRun\<close>: a Makerbot print over many updates.
  \<^item> \<open>Communicator\<close>: \<open>communicator.c\<close>. \<open>EndToEnd\<close>: both ends of a connection together.
    \<open>CmdLine\<close>: \<open>cmdline/\<close>. \<open>PrintJob\<close>: a print job from the command line to the wire of
    the printer. \<open>MarlinFeed\<close>: what a Marlin driver does with the parts of a text.
    \<open>MainLoop\<close>: iterations of the loop that carry a print.
    \<open>StreamPrint\<close>: the same while clients send g-code and ask for the state.
  \<^item> \<open>Logging\<close>: the two loggers. \<open>Startup\<close>: \<open>main.cpp\<close>, \<open>settings.c\<close> and the
    part of \<open>Server.cpp\<close> in front of the loop.
  \<^item> \<open>LuaBinding\<close>: \<open>fe_lua.c\<close>, \<open>os_utils.c\<close>; the locale \<open>server_call\<close> states
    what the nine methods that talk to the server have in common. \<open>LuaJob\<close>: a print job from a Lua
    program, with the server and the Marlin driver at the other end.
  \<^item> \<open>UnitTests\<close>: the repository's own unit tests, run on the model.

  \<^bold>\<open>Conventions.\<close> A class or the static variables of a file are a record, a method takes the record
  and returns it updated. \<open>None\<close> is undefined behaviour or an uncaught exception; errors the code reports
  are result codes, sums or strings as in the code; \<open>exit\<close> is the value \<open>Exit\<close>. Integers have
  their width where the code can overflow (\<open>16 word\<close> temperatures, \<open>32 word\<close> wire values);
  counters are \<open>int\<close> where a lemma bounds them. Results of system calls, clock readings, the events
  of \<open>read\<close>, files, directory entries and what \<open>getopt_long\<close> delivers are arguments. Libraries
  that are not in the repository (GPX, UCI, the Lua interpreter) are parameters.

  \<^bold>\<open>What is shown.\<close> The properties are numbered C1 to C40 in the theories. The main
  ones: a text sent in any pieces reaches the driver exactly once (C1), a print job from the command line
  prints exactly its lines (C2), the main loop of the server carries a Marlin print to its end, whatever the
  pieces in which the answers arrive (C3), also while it is fed (C4), a Makerbot print sends the converted
  lines in order and ends when all is sent (C5), handling responses refines the abstract protocol (C6), the
  invariants of reachable drivers and servers with the descriptors \<open>select\<close> watches (C7, C8, C13),
  independence of the cutting of a stream (C9), also of one that breaks off in a command (C27), the Makerbot queue terminates, keeps the order and fits the printer's space (C10, C11), the S3G
  parser meets its specification, with the argument sizes of the protocol (C12), the way from the command line into the loop (C14), a print job from
  a Lua program (C17), the results and the connections of the Lua module (C18, C19). The error properties
  show what the code does where it fails: among others the unwatched port (C15), the lost exit code (C16),
  the wrong printer (C20), the open transaction after a long line (C34), the cancelled transaction that is
  appended all the same (C35), the unprotected length byte of a Makerbot reply (C31).

  \<^bold>\<open>Bounds and termination.\<close> No fuel is used. Loops are structural or have a measure (the text left,
  the bytes of the buffer, the lines of the g-code buffer, the events left); the two loops over a client's
  commands, which a handler could extend, are \<open>partial_function (option)\<close>, and that they return is part
  of the properties that use them. The main loop of the server does not end: \<open>server_iteration\<close> is its
  body and \<open>server_reachable\<close> its reachable states.

  \<^bold>\<open>Not modelled.\<close> The texts of log messages inside the drivers and the server class; the layout of
  \<open>struct\<close>s handed to the system; Windows and macOS branches; the conversion of a timer to seconds; the
  ratio of commands to lines of the Makerbot driver, a float that is only logged; the registration of the Lua
  functions with the interpreter; \<open>MBPacket\<close> (an empty class), the vendored test framework, shell scripts
  and the Lua test programs.
\<close>

end
